(* ===== verification/Prelude.thy ===== *)
theory Prelude
  imports Main
begin

text \<open>
  The prelude of the development: the error values of the Go code, the theorem collections the
  component proofs share, and generic facts on lists and on the order of events in a list.
\<close>

section \<open>Theorem collections\<close>

named_theorems replay_simps \<open>how the replay of a program consumes the head of a history\<close>

section \<open>Go error values\<close>

text \<open>
  An error is either a text made by the code or by a library, or what
  \<open>fmt.Errorf("prefix: %v", err)\<close> makes of another error. Go's \<open>nil\<close> error is \<open>None\<close> of
  an option type, and a Go pair of a value and an error is a sum, \<open>Inl\<close> holding the error.
\<close>

datatype go_error =
    GoErr string
  | Errorf string go_error

primrec error_text :: "go_error \<Rightarrow> string" where
  "error_text (GoErr s) = s"
| "error_text (Errorf p e) = p @ '': '' @ error_text e"

type_synonym 'a result = "go_error + 'a"

text \<open>The innermost error an error value was made from.\<close>

primrec root_cause :: "go_error \<Rightarrow> go_error" where
  "root_cause (GoErr s) = GoErr s"
| "root_cause (Errorf p e) = root_cause e"

lemma error_text_suffix: "\<exists>p. error_text e = p @ error_text (root_cause e)"
proof (induction e)
  case (GoErr s)
  show ?case by simp
next
  case (Errorf p e)
  then obtain q where "error_text e = q @ error_text (root_cause e)" by blast
  then have "error_text (Errorf p e) = (p @ '': '' @ q) @ error_text (root_cause e)" by simp
  then show ?case by (metis root_cause.simps(2))
qed

section \<open>Options and sums\<close>

lemma case_option_same [simp]: "(case x of None \<Rightarrow> a | Some _ \<Rightarrow> a) = a"
  by (cases x) simp_all

lemma case_sum_same [simp]: "(case x of Inl _ \<Rightarrow> a | Inr _ \<Rightarrow> a) = a"
  by (cases x) simp_all

lemma map_result_eq_Inr [simp]:
  "(case r of Inl e \<Rightarrow> Inl (f e) | Inr x \<Rightarrow> Inr (g x)) = Inr y \<longleftrightarrow> (\<exists>x. r = Inr x \<and> g x = y)"
  "Inr y = (case r of Inl e \<Rightarrow> Inl (f e) | Inr x \<Rightarrow> Inr (g x)) \<longleftrightarrow> (\<exists>x. r = Inr x \<and> g x = y)"
  by (cases r; auto)+

section \<open>Order of events\<close>

text \<open>
  \<open>preceded P Q xs\<close>: every element of \<open>xs\<close> that satisfies \<open>P\<close> has, somewhere before it,
  an element that satisfies \<open>Q\<close>. It is a safety property: it is inherited by every prefix,
  and a history that satisfies it keeps it when it is appended to another.
\<close>

definition preceded :: "('e \<Rightarrow> bool) \<Rightarrow> ('e \<Rightarrow> bool) \<Rightarrow> 'e list \<Rightarrow> bool" where
  "preceded P Q xs \<longleftrightarrow> (\<forall>ys x zs. xs = ys @ x # zs \<longrightarrow> P x \<longrightarrow> (\<exists>y\<in>set ys. Q y))"

lemma preceded_Nil [simp]: "preceded P Q []"
  by (simp add: preceded_def)

lemma preceded_Cons:
  "preceded P Q (x # xs) \<longleftrightarrow> \<not> P x \<and> (Q x \<or> preceded P Q xs)"
proof
  assume l: "preceded P Q (x # xs)"
  have "\<not> P x"
    using l unfolding preceded_def by (metis append_Nil empty_iff list.set(1))
  moreover have "preceded P Q xs" if "\<not> Q x"
    unfolding preceded_def
  proof (intro allI impI)
    fix ys y zs
    assume "xs = ys @ y # zs" and "P y"
    then have "\<exists>u\<in>set (x # ys). Q u"
      using l unfolding preceded_def by (metis append_Cons)
    with that show "\<exists>u\<in>set ys. Q u" by auto
  qed
  ultimately show "\<not> P x \<and> (Q x \<or> preceded P Q xs)" by blast
next
  assume r: "\<not> P x \<and> (Q x \<or> preceded P Q xs)"
  show "preceded P Q (x # xs)"
    unfolding preceded_def
  proof (intro allI impI)
    fix ys y zs
    assume eq: "x # xs = ys @ y # zs" and py: "P y"
    with r obtain ys' where ys: "ys = x # ys'" and xs: "xs = ys' @ y # zs"
      by (cases ys) auto
    show "\<exists>u\<in>set ys. Q u"
    proof (cases "Q x")
      case True
      then show ?thesis by (simp add: ys)
    next
      case False
      with r have "preceded P Q xs" by simp
      with xs py have "\<exists>u\<in>set ys'. Q u" unfolding preceded_def by blast
      then show ?thesis by (auto simp: ys)
    qed
  qed
qed

lemma preceded_none: "\<forall>x\<in>set xs. \<not> P x \<Longrightarrow> preceded P Q xs"
  by (auto simp: preceded_def)

lemma preceded_mono: "preceded P Q xs \<Longrightarrow> (\<And>x. Q x \<Longrightarrow> Q' x) \<Longrightarrow> preceded P Q' xs"
  unfolding preceded_def by blast

lemma preceded_append:
  "preceded P Q (xs @ ys) \<longleftrightarrow> preceded P Q xs \<and> ((\<exists>x\<in>set xs. Q x) \<or> preceded P Q ys)"
  by (induction xs) (auto simp: preceded_Cons)

lemma preceded_prefix: "preceded P Q (xs @ ys) \<Longrightarrow> preceded P Q xs"
  by (simp add: preceded_append)

lemma preceded_obtain:
  assumes "preceded P Q xs" and "x \<in> set xs" and "P x"
  obtains ys y zs us where "xs = ys @ y # zs @ x # us" and "Q y"
proof -
  from assms(2) obtain vs us where xs: "xs = vs @ x # us"
    by (meson split_list)
  with assms(1,3) obtain y where "y \<in> set vs" and q: "Q y"
    unfolding preceded_def by blast
  then obtain ys zs where "vs = ys @ y # zs" by (meson split_list)
  with xs q that show thesis by simp
qed

text \<open>Counting the events that satisfy a predicate.\<close>

abbreviation count_events :: "('e \<Rightarrow> bool) \<Rightarrow> 'e list \<Rightarrow> nat" where
  "count_events P xs \<equiv> length (filter P xs)"

lemma count_events_none: "\<forall>x\<in>set xs. \<not> P x \<Longrightarrow> count_events P xs = 0"
  by simp

lemma count_events_mono: "(\<And>e. P e \<Longrightarrow> Q e) \<Longrightarrow> count_events P xs \<le> count_events Q xs"
  by (induction xs) auto

lemma filter_split:
  assumes "filter P xs = ys @ z # zs"
  obtains us vs where "xs = us @ z # vs" and "filter P us = ys" and "filter P vs = zs"
  using assms
proof (induction xs arbitrary: ys thesis)
  case (Cons x xs)
  show ?case
  proof (cases "P x \<and> ys = []")
    case True
    with Cons.prems(1) [of "[]" xs] Cons.prems(2) show ?thesis by simp
  next
    case False
    with Cons.prems(2) obtain ys' where "filter P xs = ys' @ z # zs" "ys = (if P x then x # ys' else ys')"
      by (cases ys) (auto split: if_splits)
    with Cons.IH [of ys'] Cons.prems(1) [of "x # us" for us] show ?thesis by auto
  qed
qed simp

end
