(* ===== verification/Go_Runtime.thy ===== *)
theory Go_Runtime
  imports Prelude "HOL-Library.Word"
begin

text \<open>
  What the code uses of the Go language and of its standard library, other than JSON: 64-bit
  integers, durations and the saturating subtraction of \<open>time.Time\<close> values, \<open>strconv.Atoi\<close>,
  the decimal text of an integer, and the float64 division of two counters.
\<close>

section \<open>Integers, durations and times\<close>

text \<open>A Go \<open>int\<close> is 64 bits wide on the platforms the services run on, and signed.\<close>

type_synonym go_int = "64 word"

definition int64_min :: int where "int64_min = - 9223372036854775808"
definition int64_max :: int where "int64_max = 9223372036854775807"

definition in_int64 :: "int \<Rightarrow> bool" where
  "in_int64 n \<longleftrightarrow> int64_min \<le> n \<and> n \<le> int64_max"

text \<open>
  Times and durations are counted in nanoseconds; a time is its distance from the Unix epoch, and
  the zero value of \<open>time.Time\<close> is the first of January of the year 1.
\<close>

type_synonym time = int
type_synonym duration = int

definition Second :: duration where "Second = 1000000000"
definition Minute :: duration where "Minute = 60 * Second"
definition Hour :: duration where "Hour = 60 * Minute"

definition zero_time :: time where "zero_time = - 62135596800 * Second"

text \<open>
  \<open>t.Sub(u)\<close> is a \<open>Duration\<close>, an int64: it saturates when the distance does not fit.
  \<open>time.Since(u)\<close> is \<open>time.Now().Sub(u)\<close>.
\<close>

definition time_sub :: "time \<Rightarrow> time \<Rightarrow> duration" where
  "time_sub t u = max int64_min (min int64_max (t - u))"

lemma time_sub_exact: "in_int64 (t - u) \<Longrightarrow> time_sub t u = t - u"
  by (simp add: time_sub_def in_int64_def)

lemma time_sub_in_int64: "in_int64 (time_sub t u)"
  by (auto simp: time_sub_def in_int64_def int64_min_def int64_max_def)

lemma time_sub_gt_iff:
  assumes "int64_min \<le> d" and "d < int64_max"
  shows "d < time_sub t u \<longleftrightarrow> d < t - u"
  using assms by (auto simp: time_sub_def int64_min_def int64_max_def)

lemma time_sub_antimono: "u \<le> u' \<Longrightarrow> time_sub t u' \<le> time_sub t u"
  by (auto simp: time_sub_def int64_min_def int64_max_def)

lemma time_sub_mono: "t \<le> t' \<Longrightarrow> time_sub t u \<le> time_sub t' u"
  by (auto simp: time_sub_def int64_min_def int64_max_def)

section \<open>Decimal text\<close>

definition digit_char :: "nat \<Rightarrow> char" where
  "digit_char d = char_of (48 + d)"

definition is_digit :: "char \<Rightarrow> bool" where
  "is_digit c \<longleftrightarrow> 48 \<le> (of_char c :: nat) \<and> (of_char c :: nat) \<le> 57"

definition digit_val :: "char \<Rightarrow> nat" where
  "digit_val c = of_char c - 48"

fun show_nat :: "nat \<Rightarrow> string" where
  "show_nat n = (if n < 10 then [digit_char n] else show_nat (n div 10) @ [digit_char (n mod 10)])"

declare show_nat.simps [simp del]

definition show_int :: "int \<Rightarrow> string" where
  "show_int i = (if i < 0 then CHR ''-'' # show_nat (nat (- i)) else show_nat (nat i))"

definition digits_val :: "string \<Rightarrow> nat" where
  "digits_val s = foldl (\<lambda>n c. 10 * n + digit_val c) 0 s"

lemma digit_char_digit:
  assumes "d < 10"
  shows "is_digit (digit_char d)" and "digit_val (digit_char d) = d"
  using assms by (simp_all add: is_digit_def digit_char_def digit_val_def)

lemma show_nat_nonempty [simp]: "show_nat n \<noteq> []"
  by (subst show_nat.simps) simp

lemma show_nat_digits: "c \<in> set (show_nat n) \<Longrightarrow> is_digit c"
proof (induction n rule: show_nat.induct)
  case (1 n)
  show ?case
  proof (cases "n < 10")
    case True
    with 1 show ?thesis by (simp add: show_nat.simps [of n] digit_char_digit)
  next
    case False
    with 1 show ?thesis by (auto simp: show_nat.simps [of n] digit_char_digit)
  qed
qed

lemma digits_val_append1: "digits_val (s @ [c]) = 10 * digits_val s + digit_val c"
  by (simp add: digits_val_def)

lemma digits_val_show_nat [simp]: "digits_val (show_nat n) = n"
proof (induction n rule: show_nat.induct)
  case (1 n)
  show ?case
  proof (cases "n < 10")
    case True
    then show ?thesis
      by (simp add: show_nat.simps [of n] digits_val_def digit_char_digit)
  next
    case False
    with 1 show ?thesis
      by (simp add: show_nat.simps [of n] digits_val_append1 digit_char_digit)
  qed
qed

text \<open>The first digit of a printed number is a zero only when the number is zero.\<close>

lemma show_nat_hd: "0 < n \<Longrightarrow> hd (show_nat n) \<noteq> CHR ''0''"
proof (induction n rule: show_nat.induct)
  case (1 n)
  show ?case
  proof (cases "n < 10")
    case True
    then have "digit_val (digit_char n) \<noteq> digit_val (CHR ''0'')"
      using 1(2) digit_char_digit(2) [of n] by (simp add: digit_val_def)
    then have "digit_char n \<noteq> CHR ''0''" by metis
    with True show ?thesis by (simp add: show_nat.simps [of n])
  next
    case False
    then have "hd (show_nat (n div 10)) \<noteq> CHR ''0''" using 1 by simp
    with False show ?thesis by (simp add: show_nat.simps [of n] hd_append)
  qed
qed

lemma show_nat_zero: "show_nat 0 = ''0''"
  by code_simp

section \<open>strconv\<close>

text \<open>
  \<open>strconv.Atoi\<close> and \<open>strconv.ParseInt(s, 10, 64)\<close>: an optional sign, at least one digit,
  digits only, and a value that fits in 64 bits.
\<close>

definition parse_digits :: "string \<Rightarrow> nat option" where
  "parse_digits s = (if s \<noteq> [] \<and> list_all is_digit s then Some (digits_val s) else None)"

fun parse_int :: "string \<Rightarrow> int option" where
  "parse_int [] = None"
| "parse_int (c # cs) =
     (if c = CHR ''-'' then map_option (\<lambda>n. - int n) (parse_digits cs)
      else if c = CHR ''+'' then map_option int (parse_digits cs)
      else map_option int (parse_digits (c # cs)))"

definition Atoi :: "string \<Rightarrow> go_int result" where
  "Atoi s =
     (case parse_int s of
        None \<Rightarrow> Inl (GoErr ''invalid syntax'')
      | Some n \<Rightarrow> if in_int64 n then Inr (word_of_int n) else Inl (GoErr ''value out of range''))"

lemma parse_digits_show_nat [simp]: "parse_digits (show_nat n) = Some n"
  by (auto simp: parse_digits_def list_all_iff show_nat_digits)

lemma parse_int_show_int [simp]: "parse_int (show_int i) = Some i"
proof (cases "i < 0")
  case True
  then show ?thesis by (simp add: show_int_def)
next
  case False
  obtain c cs where s: "show_nat (nat i) = c # cs"
    by (cases "show_nat (nat i)") auto
  then have "is_digit c" using show_nat_digits [of c "nat i"] by simp
  then have "c \<noteq> CHR ''-''" and "c \<noteq> CHR ''+''" by (auto simp: is_digit_def)
  with False s have "parse_int (show_int i) = map_option int (parse_digits (show_nat (nat i)))"
    by (simp add: show_int_def)
  with False show ?thesis by simp
qed

lemma sint_word_of_int_64: "in_int64 n \<Longrightarrow> sint (word_of_int n :: go_int) = n"
  by (simp add: in_int64_def int64_min_def int64_max_def sint_sbintrunc' signed_take_bit_int_eq_self)

lemma sint_in_int64: "in_int64 (sint (w :: go_int))"
  using sint_greater_eq [of w] sint_less [of w]
  by (simp add: in_int64_def int64_min_def int64_max_def)

lemma Atoi_show_int: "in_int64 n \<Longrightarrow> Atoi (show_int n) = Inr (word_of_int n)"
  by (simp add: Atoi_def)

end
