(* ===== verification/Models.thy ===== *)
theory Models
  imports Go_Runtime
begin

text \<open>
  The data both services share: \<open>shared/models/message.go\<close>, the queue contract and the queue
  names of \<open>shared/ports/rabbitmq/contracts\<close>, and the values the external services exchange
  with the code (MongoDB updates and queries, AMQP publishings and deliveries).
\<close>

section \<open>Messages\<close>

text \<open>
  An \<open>ObjectID\<close> of the MongoDB driver is an array of twelve bytes; its zero value is
  \<open>NilObjectID\<close>, and \<open>IsZero\<close> compares with it.
\<close>

type_synonym oid = "96 word"

abbreviation NilObjectID :: oid where "NilObjectID \<equiv> 0"

definition IsZero :: "oid \<Rightarrow> bool" where
  "IsZero i \<longleftrightarrow> i = NilObjectID"

datatype message_status =
    StatusUnsent
  | StatusProcessing
  | StatusSent
  | StatusFailed
  | StatusDuplicate

primrec status_text :: "message_status \<Rightarrow> string" where
  "status_text StatusUnsent = ''unsent''"
| "status_text StatusProcessing = ''processing''"
| "status_text StatusSent = ''sent''"
| "status_text StatusFailed = ''failed''"
| "status_text StatusDuplicate = ''duplicate''"

lemma status_text_inject: "status_text s = status_text t \<longleftrightarrow> s = t"
  by (cases s; cases t) simp_all

record message =
  msg_ID :: oid
  msg_To :: string
  msg_Content :: string
  msg_Status :: message_status
  msg_RetryCount :: int
  msg_CreatedAt :: time
  msg_UpdatedAt :: time

section \<open>The queue contract\<close>

record queue_message =
  qm_ID :: string
  qm_Content :: string
  qm_To :: string
  qm_Retry :: int

text \<open>The zero value \<open>contracts.QueueMessage{}\<close>.\<close>

definition empty_queue_message :: queue_message where
  "empty_queue_message = \<lparr>qm_ID = [], qm_Content = [], qm_To = [], qm_Retry = 0\<rparr>"

definition MainQueueName :: string where "MainQueueName = ''messages''"
definition RetryQueueName :: string where "RetryQueueName = ''messages.retry''"
definition DLQQueueName :: string where "DLQQueueName = ''messages.dlq''"
definition MainExchange :: string where "MainExchange = ''messages.exchange''"
definition RetryExchange :: string where "RetryExchange = ''messages.retry.exchange''"
definition MaxRetryAttempts :: int where "MaxRetryAttempts = 5"

lemmas queue_names =
  MainQueueName_def RetryQueueName_def DLQQueueName_def MainExchange_def RetryExchange_def

text \<open>The response of the webhook, \<open>ports.WebhookResponse\<close>.\<close>

record webhook_response =
  wr_Message :: string
  wr_MessageID :: string

definition empty_webhook_response :: webhook_response where
  "empty_webhook_response = \<lparr>wr_Message = [], wr_MessageID = []\<rparr>"

section \<open>Values exchanged with the external services\<close>

text \<open>
  A MongoDB update document, as the code builds them: the fields of its \<open>$set\<close> and the amount
  of its \<open>$inc\<close> of \<open>retry_count\<close>. A query is a filter on the status, on an upper bound of
  \<open>updated_at\<close> (\<open>$lt\<close>), and a limit.
\<close>

record mongo_update =
  set_status :: "message_status option"
  set_updated_at :: "time option"
  inc_retry_count :: int

record mongo_query =
  where_status :: "message_status option"
  where_updated_before :: "time option"
  query_limit :: "int option"

text \<open>
  An AMQP publishing: the fields the code sets. \<open>DeliveryMode\<close> is 2 (\<open>amqp.Persistent\<close>) or the
  zero value 0 (transient); headers are the opaque table of a delivery, \<open>None\<close> for \<open>nil\<close>.
\<close>

type_synonym headers = "(string \<times> string) list"

record publishing =
  pub_DeliveryMode :: nat
  pub_Headers :: "headers option"
  pub_ContentType :: string
  pub_Body :: string
  pub_Timestamp :: time

record delivery =
  DeliveryTag :: nat
  Headers :: "headers option"
  ContentType :: string
  Body :: string

text \<open>The zero value \<open>amqp.Delivery{}\<close>, which a receive on a closed Go channel yields.\<close>

definition zero_delivery :: delivery where
  "zero_delivery = \<lparr>DeliveryTag = 0, Headers = None, ContentType = [], Body = []\<rparr>"

definition Persistent :: nat where "Persistent = 2"

text \<open>Arguments of a queue declaration: time to live, dead letter exchange and routing key.\<close>

record queue_args =
  x_message_ttl :: "int option"
  x_dead_letter_exchange :: "string option"
  x_dead_letter_routing_key :: "string option"

text \<open>
  The two pure functions of the driver's package \<open>primitive\<close> the code calls. They are not under
  \<open>src/\<close>: they are a parameter of the definitions that use them, and the law below is their
  documented behaviour (the hexadecimal text of an id parses back to it).
\<close>

record oid_codec =
  Hex :: "oid \<Rightarrow> string"
  ObjectIDFromHex :: "string \<Rightarrow> oid result"

definition oid_codec_ok :: "oid_codec \<Rightarrow> bool" where
  "oid_codec_ok L \<longleftrightarrow> (\<forall>i. ObjectIDFromHex L (Hex L i) = Inr i)"

end
