(* ===== verification/Programs.thy ===== *)
theory Programs
  imports Models
begin

text \<open>
  Programs: the effectful code as trees whose nodes are the calls it makes to the world outside
  the repository (MongoDB, Redis, RabbitMQ, the HTTP client, the circuit breakers, the limiter,
  the clock). Each node has one branch per answer the call may give; nothing is assumed of the
  answers. \<open>replay\<close> runs a program against a history of calls and answers, \<open>run\<close> runs it
  against an environment, a function that answers every call and changes its own state, and
  \<open>step\<close> is one call, the unit of interleaving of concurrent goroutines.
\<close>

section \<open>External calls\<close>

text \<open>Calls whose result is a Go \<open>error\<close> and nothing else the code looks at.\<close>

datatype eff =
    MongoInsertOne message
  | MongoUpdateOne oid mongo_update
  | MongoFind mongo_query
  | CursorClose mongo_query
  | MongoConnect string
  | MongoDisconnect
  | RedisSet string string duration
  | RedisClose
  | AmqpDial string
  | AmqpOpenChannel
  | AmqpExchangeDeclare string string bool
  | AmqpQueueDeclare string bool queue_args
  | AmqpQueueBind string string string
  | AmqpPublish string string publishing
  | AmqpConsume string
  | AmqpAck nat
  | AmqpNack nat bool
  | AmqpCloseChannel
  | AmqpCloseConnection
  | HttpNewRequest string string string
  | HttpCloseBody
  | LimiterWait
  | BreakerAdmit string
  | BreakerReport string bool
  | SchedulerStart
  | SchedulerStop

text \<open>Answers of the calls that return a value.\<close>

datatype find_one_result = Found message | ErrNoDocuments | FindOneError go_error

datatype redis_reply = RedisNil | RedisValue string | RedisError go_error

datatype halt = NilDereference | LogFatal go_error | CloseOfClosedChannel

datatype 'a prog =
    Return 'a
  | Halt halt
  | Do eff "go_error option \<Rightarrow> 'a prog"
  | Now "time \<Rightarrow> 'a prog"
  | NewObjectID "oid \<Rightarrow> 'a prog"
  | MongoFindOne oid "find_one_result \<Rightarrow> 'a prog"
  | CursorAll mongo_query "message list result \<Rightarrow> 'a prog"
  | RedisGet string "redis_reply \<Rightarrow> 'a prog"
  | HttpDo string string string "int result \<Rightarrow> 'a prog"
  | HttpReadBody "string result \<Rightarrow> 'a prog"
  | LimiterAllow "bool \<Rightarrow> 'a prog"
  | QueueInspect string "int result \<Rightarrow> 'a prog"

datatype event =
    Did eff "go_error option"
  | Clock time
  | MadeObjectID oid
  | FoundOne oid find_one_result
  | FetchedAll mongo_query "message list result"
  | GotKey string redis_reply
  | HttpDone string string string "int result"
  | ReadBody "string result"
  | Allowed bool
  | Inspected string "int result"

type_synonym history = "event list"

section \<open>Sequencing\<close>

primrec bind :: "'a prog \<Rightarrow> ('a \<Rightarrow> 'b prog) \<Rightarrow> 'b prog" where
  "bind (Return x) f = f x"
| "bind (Halt h) f = Halt h"
| "bind (Do e k) f = Do e (\<lambda>r. bind (k r) f)"
| "bind (Now k) f = Now (\<lambda>r. bind (k r) f)"
| "bind (NewObjectID k) f = NewObjectID (\<lambda>r. bind (k r) f)"
| "bind (MongoFindOne i k) f = MongoFindOne i (\<lambda>r. bind (k r) f)"
| "bind (CursorAll q k) f = CursorAll q (\<lambda>r. bind (k r) f)"
| "bind (RedisGet s k) f = RedisGet s (\<lambda>r. bind (k r) f)"
| "bind (HttpDo m u b k) f = HttpDo m u b (\<lambda>r. bind (k r) f)"
| "bind (HttpReadBody k) f = HttpReadBody (\<lambda>r. bind (k r) f)"
| "bind (LimiterAllow k) f = LimiterAllow (\<lambda>r. bind (k r) f)"
| "bind (QueueInspect s k) f = QueueInspect s (\<lambda>r. bind (k r) f)"

lemma bind_Return [simp]: "bind p Return = p"
  by (induction p) simp_all

lemma bind_assoc: "bind (bind p f) g = bind p (\<lambda>x. bind (f x) g)"
  by (induction p) simp_all

abbreviation perform :: "eff \<Rightarrow> go_error option prog" where
  "perform e \<equiv> Do e Return"

text \<open>A call whose error the code drops or only logs.\<close>

abbreviation perform_ignoring :: "eff \<Rightarrow> 'a prog \<Rightarrow> 'a prog" where
  "perform_ignoring e p \<equiv> Do e (\<lambda>_. p)"

text \<open>\<open>for _, x := range xs { body(x) }\<close> with a body whose result is dropped.\<close>

primrec for_each :: "'x list \<Rightarrow> ('x \<Rightarrow> 'a prog) \<Rightarrow> unit prog" where
  "for_each [] body = Return ()"
| "for_each (x # xs) body = bind (body x) (\<lambda>_. for_each xs body)"

section \<open>One call, and histories of calls\<close>

primrec resume :: "'a prog \<Rightarrow> event \<Rightarrow> 'a prog option" where
  "resume (Return x) ev = None"
| "resume (Halt x) ev = None"
| "resume (Do e k) ev = (case ev of Did e' r \<Rightarrow> if e' = e then Some (k r) else None | _ \<Rightarrow> None)"
| "resume (Now k) ev = (case ev of Clock t \<Rightarrow> Some (k t) | _ \<Rightarrow> None)"
| "resume (NewObjectID k) ev = (case ev of MadeObjectID i \<Rightarrow> Some (k i) | _ \<Rightarrow> None)"
| "resume (MongoFindOne i k) ev =
     (case ev of FoundOne i' r \<Rightarrow> if i' = i then Some (k r) else None | _ \<Rightarrow> None)"
| "resume (CursorAll q k) ev =
     (case ev of FetchedAll q' r \<Rightarrow> if q' = q then Some (k r) else None | _ \<Rightarrow> None)"
| "resume (RedisGet s k) ev =
     (case ev of GotKey s' r \<Rightarrow> if s' = s then Some (k r) else None | _ \<Rightarrow> None)"
| "resume (HttpDo m u b k) ev =
     (case ev of HttpDone m' u' b' r \<Rightarrow> if m' = m \<and> u' = u \<and> b' = b then Some (k r) else None
      | _ \<Rightarrow> None)"
| "resume (HttpReadBody k) ev = (case ev of ReadBody r \<Rightarrow> Some (k r) | _ \<Rightarrow> None)"
| "resume (LimiterAllow k) ev = (case ev of Allowed b \<Rightarrow> Some (k b) | _ \<Rightarrow> None)"
| "resume (QueueInspect s k) ev =
     (case ev of Inspected s' r \<Rightarrow> if s' = s then Some (k r) else None | _ \<Rightarrow> None)"

primrec replay :: "'a prog \<Rightarrow> history \<Rightarrow> 'a prog option" where
  "replay p [] = Some p"
| "replay p (e # es) = (case resume p e of None \<Rightarrow> None | Some p' \<Rightarrow> replay p' es)"

text \<open>\<open>replay p h = Some q\<close>: \<open>h\<close> is what \<open>p\<close> has done so far, and \<open>q\<close> what is left to do.\<close>

datatype 'a outcome = Done 'a | Stopped halt

primrec of_outcome :: "'a outcome \<Rightarrow> 'a prog" where
  "of_outcome (Done x) = Return x"
| "of_outcome (Stopped h) = Halt h"

text \<open>\<open>ends p h out\<close>: with the history \<open>h\<close> the program is over, with the outcome \<open>out\<close>.\<close>

definition ends :: "'a prog \<Rightarrow> history \<Rightarrow> 'a outcome \<Rightarrow> bool" where
  "ends p h out \<longleftrightarrow> replay p h = Some (of_outcome out)"

lemma replay_Return [simp]: "replay (Return x) h = Some q \<longleftrightarrow> h = [] \<and> q = Return x"
  by (cases h) auto

lemma replay_Halt [simp]: "replay (Halt x) h = Some q \<longleftrightarrow> h = [] \<and> q = Halt x"
  by (cases h) auto

lemma of_outcome_simps [simp]:
  "Return x = of_outcome out \<longleftrightarrow> out = Done x" "Halt y = of_outcome out \<longleftrightarrow> out = Stopped y"
  "of_outcome out = Return x \<longleftrightarrow> out = Done x" "of_outcome out = Halt y \<longleftrightarrow> out = Stopped y"
  "Do e k1 \<noteq> of_outcome out" "Now k2 \<noteq> of_outcome out" "NewObjectID k3 \<noteq> of_outcome out"
  "MongoFindOne i k4 \<noteq> of_outcome out" "CursorAll q k5 \<noteq> of_outcome out"
  "RedisGet s k6 \<noteq> of_outcome out" "HttpDo m u b k7 \<noteq> of_outcome out"
  "HttpReadBody k8 \<noteq> of_outcome out" "LimiterAllow k9 \<noteq> of_outcome out"
  "QueueInspect s' k10 \<noteq> of_outcome out"
  by (cases out; auto)+

lemma resume_iffs:
  "resume (Do e k1) ev = Some p \<longleftrightarrow> (\<exists>r. ev = Did e r \<and> p = k1 r)"
  "resume (Now k2) ev = Some p \<longleftrightarrow> (\<exists>t. ev = Clock t \<and> p = k2 t)"
  "resume (NewObjectID k3) ev = Some p \<longleftrightarrow> (\<exists>i. ev = MadeObjectID i \<and> p = k3 i)"
  "resume (MongoFindOne i k4) ev = Some p \<longleftrightarrow> (\<exists>r. ev = FoundOne i r \<and> p = k4 r)"
  "resume (CursorAll q k5) ev = Some p \<longleftrightarrow> (\<exists>r. ev = FetchedAll q r \<and> p = k5 r)"
  "resume (RedisGet s k6) ev = Some p \<longleftrightarrow> (\<exists>r. ev = GotKey s r \<and> p = k6 r)"
  "resume (HttpDo m u b k7) ev = Some p \<longleftrightarrow> (\<exists>r. ev = HttpDone m u b r \<and> p = k7 r)"
  "resume (HttpReadBody k8) ev = Some p \<longleftrightarrow> (\<exists>r. ev = ReadBody r \<and> p = k8 r)"
  "resume (LimiterAllow k9) ev = Some p \<longleftrightarrow> (\<exists>b. ev = Allowed b \<and> p = k9 b)"
  "resume (QueueInspect s' k10) ev = Some p \<longleftrightarrow> (\<exists>r. ev = Inspected s' r \<and> p = k10 r)"
  by (cases ev; auto)+

lemma ends_unfold:
  "ends p h out \<longleftrightarrow>
     h = [] \<and> p = of_outcome out \<or> (\<exists>ev h' p'. h = ev # h' \<and> resume p ev = Some p' \<and> ends p' h' out)"
  by (cases h) (auto simp: ends_def split: option.splits)

text \<open>A complete run of a node starts with its call, and goes on with the branch of the answer.\<close>

lemma ends_Return [replay_simps]: "ends (Return x) h out \<longleftrightarrow> h = [] \<and> Done x = out"
  by (auto simp: ends_def)
lemma ends_Halt [replay_simps]: "ends (Halt y) h out \<longleftrightarrow> h = [] \<and> Stopped y = out"
  by (auto simp: ends_def)
lemma ends_Do [replay_simps]:
  "ends (Do e k) h out \<longleftrightarrow> (\<exists>r h'. h = Did e r # h' \<and> ends (k r) h' out)"
  by (subst ends_unfold) (auto simp: resume_iffs simp del: resume.simps)
lemma ends_Now [replay_simps]:
  "ends (Now k) h out \<longleftrightarrow> (\<exists>t h'. h = Clock t # h' \<and> ends (k t) h' out)"
  by (subst ends_unfold) (auto simp: resume_iffs simp del: resume.simps)
lemma ends_NewObjectID [replay_simps]:
  "ends (NewObjectID k) h out \<longleftrightarrow> (\<exists>i h'. h = MadeObjectID i # h' \<and> ends (k i) h' out)"
  by (subst ends_unfold) (auto simp: resume_iffs simp del: resume.simps)
lemma ends_MongoFindOne [replay_simps]:
  "ends (MongoFindOne i k) h out \<longleftrightarrow> (\<exists>r h'. h = FoundOne i r # h' \<and> ends (k r) h' out)"
  by (subst ends_unfold) (auto simp: resume_iffs simp del: resume.simps)
lemma ends_CursorAll [replay_simps]:
  "ends (CursorAll q k) h out \<longleftrightarrow> (\<exists>r h'. h = FetchedAll q r # h' \<and> ends (k r) h' out)"
  by (subst ends_unfold) (auto simp: resume_iffs simp del: resume.simps)
lemma ends_RedisGet [replay_simps]:
  "ends (RedisGet s k) h out \<longleftrightarrow> (\<exists>r h'. h = GotKey s r # h' \<and> ends (k r) h' out)"
  by (subst ends_unfold) (auto simp: resume_iffs simp del: resume.simps)
lemma ends_HttpDo [replay_simps]:
  "ends (HttpDo m u b k) h out \<longleftrightarrow> (\<exists>r h'. h = HttpDone m u b r # h' \<and> ends (k r) h' out)"
  by (subst ends_unfold) (auto simp: resume_iffs simp del: resume.simps)
lemma ends_HttpReadBody [replay_simps]:
  "ends (HttpReadBody k) h out \<longleftrightarrow> (\<exists>r h'. h = ReadBody r # h' \<and> ends (k r) h' out)"
  by (subst ends_unfold) (auto simp: resume_iffs simp del: resume.simps)
lemma ends_LimiterAllow [replay_simps]:
  "ends (LimiterAllow k) h out \<longleftrightarrow> (\<exists>b h'. h = Allowed b # h' \<and> ends (k b) h' out)"
  by (subst ends_unfold) (auto simp: resume_iffs simp del: resume.simps)
lemma ends_QueueInspect [replay_simps]:
  "ends (QueueInspect s k) h out \<longleftrightarrow> (\<exists>r h'. h = Inspected s r # h' \<and> ends (k r) h' out)"
  by (subst ends_unfold) (auto simp: resume_iffs simp del: resume.simps)

text \<open>Branches are disjunctions.\<close>

lemma ends_if [replay_simps]:
  "ends (if c then p else q) h out \<longleftrightarrow> c \<and> ends p h out \<or> \<not> c \<and> ends q h out"
  by simp
lemma ends_case_option [replay_simps]:
  "ends (case r of None \<Rightarrow> p | Some x \<Rightarrow> f x) h out \<longleftrightarrow>
     r = None \<and> ends p h out \<or> (\<exists>x. r = Some x \<and> ends (f x) h out)"
  by (cases r) simp_all
lemma ends_case_sum [replay_simps]:
  "ends (case r of Inl e \<Rightarrow> f e | Inr x \<Rightarrow> g x) h out \<longleftrightarrow>
     (\<exists>e. r = Inl e \<and> ends (f e) h out) \<or> (\<exists>x. r = Inr x \<and> ends (g x) h out)"
  by (cases r) simp_all
lemma ends_case_find_one [replay_simps]:
  "ends (case r of Found m \<Rightarrow> f m | ErrNoDocuments \<Rightarrow> p | FindOneError e \<Rightarrow> g e) h out \<longleftrightarrow>
     (\<exists>m. r = Found m \<and> ends (f m) h out) \<or> r = ErrNoDocuments \<and> ends p h out \<or>
     (\<exists>e. r = FindOneError e \<and> ends (g e) h out)"
  by (cases r) simp_all
lemma ends_case_redis_reply [replay_simps]:
  "ends (case r of RedisNil \<Rightarrow> p | RedisValue v \<Rightarrow> f v | RedisError e \<Rightarrow> g e) h out \<longleftrightarrow>
     r = RedisNil \<and> ends p h out \<or> (\<exists>v. r = RedisValue v \<and> ends (f v) h out) \<or>
     (\<exists>e. r = RedisError e \<and> ends (g e) h out)"
  by (cases r) simp_all

text \<open>
  A complete run of a sequence is a complete run of its first part followed by one of its second,
  or a run of the first part that stops.
\<close>

lemma replay_append:
  "replay p (h1 @ h2) = (case replay p h1 of None \<Rightarrow> None | Some q \<Rightarrow> replay q h2)"
  by (induction h1 arbitrary: p) (auto split: option.splits)

lemma replay_take:
  assumes "ends p h out"
  obtains q where "replay p (take k h) = Some q"
  using assms replay_append [of p "take k h" "drop k h"] by (auto simp: ends_def split: option.splits)

lemma resume_bind: "resume p ev = Some p' \<Longrightarrow> resume (bind p f) ev = Some (bind p' f)"
  by (cases p) (auto simp: resume_iffs simp del: resume.simps(3-))

lemma resume_bind_conv:
  "(\<nexists>x. p = Return x) \<Longrightarrow> resume (bind p f) ev = map_option (\<lambda>q. bind q f) (resume p ev)"
  by (cases p) (auto split: event.splits)

lemma replay_bind: "replay p h = Some q \<Longrightarrow> replay (bind p f) h = Some (bind q f)"
  by (induction h arbitrary: p) (auto split: option.splits simp: resume_bind)

lemma bind_eq_of_outcome:
  "bind p f = of_outcome out \<longleftrightarrow>
     (\<exists>x. p = Return x \<and> f x = of_outcome out) \<or> (\<exists>y. p = Halt y \<and> out = Stopped y)"
  by (cases p; cases out) auto

lemma ends_bind [replay_simps]:
  "ends (bind p f) h out \<longleftrightarrow>
     (\<exists>h1 h2 x. h = h1 @ h2 \<and> ends p h1 (Done x) \<and> ends (f x) h2 out) \<or>
     (\<exists>y. out = Stopped y \<and> ends p h (Stopped y))"
proof
  show "ends (bind p f) h out \<Longrightarrow>
     (\<exists>h1 h2 x. h = h1 @ h2 \<and> ends p h1 (Done x) \<and> ends (f x) h2 out) \<or>
     (\<exists>y. out = Stopped y \<and> ends p h (Stopped y))"
  proof (induction h arbitrary: p)
    case Nil
    then show ?case by (auto simp: ends_def bind_eq_of_outcome)
  next
    case (Cons ev h)
    show ?case
    proof (cases "\<exists>x. p = Return x")
      case True
      then obtain x where "p = Return x" by blast
      with Cons.prems have "ev # h = [] @ (ev # h) \<and> ends p [] (Done x) \<and> ends (f x) (ev # h) out"
        by (simp add: ends_def)
      then show ?thesis by blast
    next
      case False
      with Cons.prems obtain p' where p': "resume p ev = Some p'" and e: "ends (bind p' f) h out"
        by (auto simp: ends_def resume_bind_conv split: option.splits)
      have hd: "ends p (ev # h') o' \<longleftrightarrow> ends p' h' o'" for h' o'
        using p' by (simp add: ends_def)
      from Cons.IH [OF e] show ?thesis
        by (metis append_Cons hd)
    qed
  qed
next
  assume "(\<exists>h1 h2 x. h = h1 @ h2 \<and> ends p h1 (Done x) \<and> ends (f x) h2 out) \<or>
     (\<exists>y. out = Stopped y \<and> ends p h (Stopped y))"
  then show "ends (bind p f) h out"
    by (auto simp: ends_def replay_append dest: replay_bind [of p _ _ f])
qed

text \<open>The outcome of a history is unique: the program is deterministic but for the answers.\<close>

lemma ends_functional: "ends p h out \<Longrightarrow> ends p h out' \<Longrightarrow> out = out'"
  by (cases out; cases out') (auto simp: ends_def)

section \<open>Environments\<close>

text \<open>
  An environment answers every call and changes its own state \<open>'w\<close>: the services and the
  libraries the code is linked with. It is a parameter of every statement that speaks of one.
\<close>

record 'w env =
  on_do :: "eff \<Rightarrow> 'w \<Rightarrow> go_error option \<times> 'w"
  on_now :: "'w \<Rightarrow> time \<times> 'w"
  on_new_oid :: "'w \<Rightarrow> oid \<times> 'w"
  on_find_one :: "oid \<Rightarrow> 'w \<Rightarrow> find_one_result \<times> 'w"
  on_cursor_all :: "mongo_query \<Rightarrow> 'w \<Rightarrow> message list result \<times> 'w"
  on_redis_get :: "string \<Rightarrow> 'w \<Rightarrow> redis_reply \<times> 'w"
  on_http_do :: "string \<Rightarrow> string \<Rightarrow> string \<Rightarrow> 'w \<Rightarrow> int result \<times> 'w"
  on_http_read :: "'w \<Rightarrow> string result \<times> 'w"
  on_allow :: "'w \<Rightarrow> bool \<times> 'w"
  on_inspect :: "string \<Rightarrow> 'w \<Rightarrow> int result \<times> 'w"

primrec run :: "'w env \<Rightarrow> 'a prog \<Rightarrow> 'w \<Rightarrow> 'a outcome \<times> history \<times> 'w" where
  "run E (Return x) w = (Done x, [], w)"
| "run E (Halt y) w = (Stopped y, [], w)"
| "run E (Do e k) w =
     (case on_do E e w of (r, w') \<Rightarrow> case run E (k r) w' of (out, h, w'') \<Rightarrow> (out, Did e r # h, w''))"
| "run E (Now k) w =
     (case on_now E w of (r, w') \<Rightarrow> case run E (k r) w' of (out, h, w'') \<Rightarrow> (out, Clock r # h, w''))"
| "run E (NewObjectID k) w =
     (case on_new_oid E w of (r, w') \<Rightarrow>
        case run E (k r) w' of (out, h, w'') \<Rightarrow> (out, MadeObjectID r # h, w''))"
| "run E (MongoFindOne i k) w =
     (case on_find_one E i w of (r, w') \<Rightarrow>
        case run E (k r) w' of (out, h, w'') \<Rightarrow> (out, FoundOne i r # h, w''))"
| "run E (CursorAll q k) w =
     (case on_cursor_all E q w of (r, w') \<Rightarrow>
        case run E (k r) w' of (out, h, w'') \<Rightarrow> (out, FetchedAll q r # h, w''))"
| "run E (RedisGet s k) w =
     (case on_redis_get E s w of (r, w') \<Rightarrow>
        case run E (k r) w' of (out, h, w'') \<Rightarrow> (out, GotKey s r # h, w''))"
| "run E (HttpDo m u b k) w =
     (case on_http_do E m u b w of (r, w') \<Rightarrow>
        case run E (k r) w' of (out, h, w'') \<Rightarrow> (out, HttpDone m u b r # h, w''))"
| "run E (HttpReadBody k) w =
     (case on_http_read E w of (r, w') \<Rightarrow>
        case run E (k r) w' of (out, h, w'') \<Rightarrow> (out, ReadBody r # h, w''))"
| "run E (LimiterAllow k) w =
     (case on_allow E w of (r, w') \<Rightarrow>
        case run E (k r) w' of (out, h, w'') \<Rightarrow> (out, Allowed r # h, w''))"
| "run E (QueueInspect s k) w =
     (case on_inspect E s w of (r, w') \<Rightarrow>
        case run E (k r) w' of (out, h, w'') \<Rightarrow> (out, Inspected s r # h, w''))"

text \<open>
  Against any environment every program ends, and its history is one of the program: what is
  proved of all histories holds of all environments.
\<close>

lemma run_ends: "run E p w = (out, h, w') \<Longrightarrow> ends p h out"
  by (induction p arbitrary: w out h w') (fastforce simp: replay_simps split: prod.splits)+

lemma run_bind:
  "run E (bind p f) w =
     (case run E p w of
        (Done x, h, w') \<Rightarrow> (case run E (f x) w' of (out, h', w'') \<Rightarrow> (out, h @ h', w''))
      | (Stopped y, h, w') \<Rightarrow> (Stopped y, h, w'))"
  by (induction p arbitrary: w) (auto split: prod.splits outcome.splits)

section \<open>Programs that cannot stop\<close>

text \<open>
  \<open>no_halt p\<close>: no run of \<open>p\<close> panics or exits; whatever the answers, it goes on to return.
\<close>

definition no_halt :: "'a prog \<Rightarrow> bool" where
  "no_halt p \<longleftrightarrow> (\<forall>h y. \<not> ends p h (Stopped y))"

lemma no_halt_iffs [simp]:
  "no_halt (Return x)" "\<not> no_halt (Halt y)"
  "no_halt (Do e k1) \<longleftrightarrow> (\<forall>r. no_halt (k1 r))" "no_halt (Now k2) \<longleftrightarrow> (\<forall>r. no_halt (k2 r))"
  "no_halt (NewObjectID k3) \<longleftrightarrow> (\<forall>r. no_halt (k3 r))"
  "no_halt (MongoFindOne i k4) \<longleftrightarrow> (\<forall>r. no_halt (k4 r))"
  "no_halt (CursorAll q k5) \<longleftrightarrow> (\<forall>r. no_halt (k5 r))"
  "no_halt (RedisGet s k6) \<longleftrightarrow> (\<forall>r. no_halt (k6 r))"
  "no_halt (HttpDo m u b k7) \<longleftrightarrow> (\<forall>r. no_halt (k7 r))"
  "no_halt (HttpReadBody k8) \<longleftrightarrow> (\<forall>r. no_halt (k8 r))"
  "no_halt (LimiterAllow k9) \<longleftrightarrow> (\<forall>r. no_halt (k9 r))"
  "no_halt (QueueInspect s' k10) \<longleftrightarrow> (\<forall>r. no_halt (k10 r))"
  by (auto simp: no_halt_def replay_simps)

lemma no_halt_bind: "no_halt p \<Longrightarrow> (\<And>h x. ends p h (Done x) \<Longrightarrow> no_halt (f x)) \<Longrightarrow> no_halt (bind p f)"
  by (auto simp: no_halt_def replay_simps)

lemma no_halt_for_each: "(\<And>x. x \<in> set xs \<Longrightarrow> no_halt (body x)) \<Longrightarrow> no_halt (for_each xs body)"
  by (induction xs) (auto intro: no_halt_bind)

lemma no_halt_run: "no_halt p \<Longrightarrow> \<exists>x h w'. run E p w = (Done x, h, w')"
  by (cases "run E p w"; cases "fst (run E p w)") (auto simp: no_halt_def dest: run_ends)

lemma ends_bind_no_halt:
  "no_halt p \<Longrightarrow> ends (bind p f) h out \<longleftrightarrow>
     (\<exists>h\<^sub>1 h\<^sub>2 x. h = h\<^sub>1 @ h\<^sub>2 \<and> ends p h\<^sub>1 (Done x) \<and> ends (f x) h\<^sub>2 out)"
  by (auto simp: ends_bind no_halt_def)

lemma ends_bind_sumE:
  assumes "ends (bind p (\<lambda>r. case r of Inl e \<Rightarrow> f e | Inr x \<Rightarrow> g x)) h out" and "no_halt p"
  obtains (failed) h\<^sub>1 h\<^sub>2 e where
      "h = h\<^sub>1 @ h\<^sub>2" "ends p h\<^sub>1 (Done (Inl e))" "ends (f e) h\<^sub>2 out"
    | (answered) h\<^sub>1 h\<^sub>2 x where
      "h = h\<^sub>1 @ h\<^sub>2" "ends p h\<^sub>1 (Done (Inr x))" "ends (g x) h\<^sub>2 out"
  using assms by (auto simp: ends_bind ends_case_sum no_halt_def)

section \<open>Every history can be completed\<close>

lemma ends_exists: "\<exists>h out. ends p h out"
proof -
  define E :: "unit env" where
    "E = \<lparr>on_do = (\<lambda>_ w. (None, w)), on_now = (\<lambda>w. (0, w)), on_new_oid = (\<lambda>w. (0, w)),
          on_find_one = (\<lambda>_ w. (ErrNoDocuments, w)), on_cursor_all = (\<lambda>_ w. (Inr [], w)),
          on_redis_get = (\<lambda>_ w. (RedisNil, w)), on_http_do = (\<lambda>_ _ _ w. (Inr 0, w)),
          on_http_read = (\<lambda>w. (Inr [], w)), on_allow = (\<lambda>w. (True, w)),
          on_inspect = (\<lambda>_ w. (Inr 0, w))\<rparr>"
  obtain out h w where "run E p () = (out, h, w)" by (cases "run E p ()")
  then have "ends p h out" by (rule run_ends)
  then show ?thesis by blast
qed

text \<open>
  A property of complete histories that is kept by prefixes holds of whatever a program has done
  at any point, so also when the process is killed there.
\<close>

lemma replay_extends:
  assumes "replay p h = Some q"
  shows "\<exists>h' out. ends p (h @ h') out"
proof -
  obtain h' out where "ends q h' out" using ends_exists by blast
  with assms have "ends p (h @ h') out" by (simp add: ends_def replay_append)
  then show ?thesis by blast
qed

lemma preceded_at_any_time:
  assumes "\<And>h out. ends p h out \<Longrightarrow> preceded P Q h" and "replay p h = Some q"
  shows "preceded P Q h"
  using assms replay_extends preceded_prefix by metis

end
