(* ===== verification/Services.thy ===== *)
theory Services
  imports Programs
begin

text \<open>
  Which external service an event belongs to. The contracts of the ports say which services an
  operation talks to; what an operation leaves alone follows from that.
\<close>

datatype service = Mongo | Redis | Amqp | Http | Limiter | Breaker | Runtime

primrec service_of_eff :: "eff \<Rightarrow> service" where
  "service_of_eff (MongoInsertOne m) = Mongo"
| "service_of_eff (MongoUpdateOne i u) = Mongo"
| "service_of_eff (MongoFind q) = Mongo"
| "service_of_eff (CursorClose q) = Mongo"
| "service_of_eff (MongoConnect u) = Mongo"
| "service_of_eff MongoDisconnect = Mongo"
| "service_of_eff (RedisSet k v d) = Redis"
| "service_of_eff RedisClose = Redis"
| "service_of_eff (AmqpDial u) = Amqp"
| "service_of_eff AmqpOpenChannel = Amqp"
| "service_of_eff (AmqpExchangeDeclare n t d) = Amqp"
| "service_of_eff (AmqpQueueDeclare n d a) = Amqp"
| "service_of_eff (AmqpQueueBind q k x) = Amqp"
| "service_of_eff (AmqpPublish x k p) = Amqp"
| "service_of_eff (AmqpConsume q) = Amqp"
| "service_of_eff (AmqpAck t) = Amqp"
| "service_of_eff (AmqpNack t r) = Amqp"
| "service_of_eff AmqpCloseChannel = Amqp"
| "service_of_eff AmqpCloseConnection = Amqp"
| "service_of_eff (HttpNewRequest m u b) = Http"
| "service_of_eff HttpCloseBody = Http"
| "service_of_eff LimiterWait = Limiter"
| "service_of_eff (BreakerAdmit n) = Breaker"
| "service_of_eff (BreakerReport n ok) = Breaker"
| "service_of_eff SchedulerStart = Runtime"
| "service_of_eff SchedulerStop = Runtime"

primrec service_of :: "event \<Rightarrow> service" where
  "service_of (Did e r) = service_of_eff e"
| "service_of (Clock t) = Runtime"
| "service_of (MadeObjectID i) = Runtime"
| "service_of (FoundOne i r) = Mongo"
| "service_of (FetchedAll q r) = Mongo"
| "service_of (GotKey k r) = Redis"
| "service_of (HttpDone m u b r) = Http"
| "service_of (ReadBody r) = Http"
| "service_of (Allowed b) = Limiter"
| "service_of (Inspected q r) = Amqp"

text \<open>\<open>uses p S\<close>: whatever happens, \<open>p\<close> only talks to the services \<open>S\<close>.\<close>

definition uses :: "'a prog \<Rightarrow> service set \<Rightarrow> bool" where
  "uses p S \<longleftrightarrow> (\<forall>h out. ends p h out \<longrightarrow> (\<forall>e\<in>set h. service_of e \<in> S))"

lemma usesD: "uses p S \<Longrightarrow> ends p h out \<Longrightarrow> e \<in> set h \<Longrightarrow> service_of e \<in> S"
  by (auto simp: uses_def)

lemma uses_iffs [simp]:
  "uses (Return x) S" "uses (Halt y) S"
  "uses (Do e k1) S \<longleftrightarrow> service_of_eff e \<in> S \<and> (\<forall>r. uses (k1 r) S)"
  "uses (Now k2) S \<longleftrightarrow> Runtime \<in> S \<and> (\<forall>r. uses (k2 r) S)"
  "uses (NewObjectID k3) S \<longleftrightarrow> Runtime \<in> S \<and> (\<forall>r. uses (k3 r) S)"
  "uses (MongoFindOne i k4) S \<longleftrightarrow> Mongo \<in> S \<and> (\<forall>r. uses (k4 r) S)"
  "uses (CursorAll q k5) S \<longleftrightarrow> Mongo \<in> S \<and> (\<forall>r. uses (k5 r) S)"
  "uses (RedisGet s k6) S \<longleftrightarrow> Redis \<in> S \<and> (\<forall>r. uses (k6 r) S)"
  "uses (HttpDo m u b k7) S \<longleftrightarrow> Http \<in> S \<and> (\<forall>r. uses (k7 r) S)"
  "uses (HttpReadBody k8) S \<longleftrightarrow> Http \<in> S \<and> (\<forall>r. uses (k8 r) S)"
  "uses (LimiterAllow k9) S \<longleftrightarrow> Limiter \<in> S \<and> (\<forall>r. uses (k9 r) S)"
  "uses (QueueInspect s' k10) S \<longleftrightarrow> Amqp \<in> S \<and> (\<forall>r. uses (k10 r) S)"
  unfolding uses_def replay_simps using ends_exists by fastforce+

lemma uses_bind: "uses p S \<Longrightarrow> (\<And>x. uses (f x) S) \<Longrightarrow> uses (bind p f) S"
  unfolding uses_def replay_simps by fastforce

lemma uses_for_each: "(\<And>x. x \<in> set xs \<Longrightarrow> uses (body x) S) \<Longrightarrow> uses (for_each xs body) S"
  by (induction xs) (auto intro: uses_bind)

lemma uses_mono: "uses p S \<Longrightarrow> S \<subseteq> T \<Longrightarrow> uses p T"
  by (auto simp: uses_def)

section \<open>Traces\<close>

text \<open>
  The calls that matter to the protocol: those that change something outside the process (writes
  to MongoDB and Redis, publishes, acknowledgements, posts) and the lookups in the two stores,
  whose answers decide what is done next. The rest is bookkeeping of the libraries (breakers,
  limiter, cursors, connections) and reading the clock. The trace of a history is the list of
  its observed events.
\<close>

primrec observed_eff :: "eff \<Rightarrow> bool" where
  "observed_eff (MongoInsertOne m) = True"
| "observed_eff (MongoUpdateOne i u) = True"
| "observed_eff (MongoFind q) = False"
| "observed_eff (CursorClose q) = False"
| "observed_eff (MongoConnect u) = False"
| "observed_eff MongoDisconnect = False"
| "observed_eff (RedisSet k v d) = True"
| "observed_eff RedisClose = False"
| "observed_eff (AmqpDial u) = False"
| "observed_eff AmqpOpenChannel = False"
| "observed_eff (AmqpExchangeDeclare n t d) = True"
| "observed_eff (AmqpQueueDeclare n d a) = True"
| "observed_eff (AmqpQueueBind q k x) = True"
| "observed_eff (AmqpPublish x k p) = True"
| "observed_eff (AmqpConsume q) = True"
| "observed_eff (AmqpAck t) = True"
| "observed_eff (AmqpNack t r) = True"
| "observed_eff AmqpCloseChannel = False"
| "observed_eff AmqpCloseConnection = False"
| "observed_eff (HttpNewRequest m u b) = False"
| "observed_eff HttpCloseBody = False"
| "observed_eff LimiterWait = False"
| "observed_eff (BreakerAdmit n) = False"
| "observed_eff (BreakerReport n ok) = False"
| "observed_eff SchedulerStart = True"
| "observed_eff SchedulerStop = True"

primrec observed :: "event \<Rightarrow> bool" where
  "observed (Did e r) = observed_eff e"
| "observed (Clock t) = False"
| "observed (MadeObjectID i) = False"
| "observed (FoundOne i r) = True"
| "observed (FetchedAll q r) = True"
| "observed (GotKey k r) = True"
| "observed (HttpDone m u b r) = True"
| "observed (ReadBody r) = False"
| "observed (Allowed b) = False"
| "observed (Inspected q r) = True"

abbreviation trace :: "history \<Rightarrow> history" where
  "trace h \<equiv> filter observed h"

definition is_http_call :: "event \<Rightarrow> bool" where
  "is_http_call e \<longleftrightarrow> (\<exists>m u b r. e = HttpDone m u b r)"

definition is_publish :: "event \<Rightarrow> bool" where
  "is_publish e \<longleftrightarrow> (\<exists>x k p r. e = Did (AmqpPublish x k p) r)"

lemma is_http_call_code [code]:
  "is_http_call e = (case e of HttpDone _ _ _ _ \<Rightarrow> True | _ \<Rightarrow> False)"
  by (cases e) (auto simp: is_http_call_def)

lemma is_publish_code [code]:
  "is_publish e = (case e of Did (AmqpPublish _ _ _) _ \<Rightarrow> True | _ \<Rightarrow> False)"
  by (auto simp: is_publish_def split: event.splits eff.splits)

lemma is_http_call_observed: "is_http_call e \<Longrightarrow> observed e"
  by (auto simp: is_http_call_def)

lemma is_publish_observed: "is_publish e \<Longrightarrow> observed e"
  by (auto simp: is_publish_def)

text \<open>What is said of observed events only can be read off the trace.\<close>

lemma set_trace: "observed e \<Longrightarrow> e \<in> set h \<longleftrightarrow> e \<in> set (trace h)"
  by simp

lemma filter_trace: "(\<And>e. P e \<Longrightarrow> observed e) \<Longrightarrow> filter P (trace h) = filter P h"
  by (induction h) auto

lemma count_trace:
  "(\<And>e. P e \<Longrightarrow> observed e) \<Longrightarrow> count_events P (trace h) = count_events P h"
  by (simp only: filter_trace)

lemma preceded_trace:
  assumes "\<And>e. P e \<Longrightarrow> observed e" and "preceded P Q (trace h)"
  shows "preceded P Q h"
  using assms(2)
proof (induction h)
  case (Cons e h)
  then show ?case using assms(1) by (auto simp: preceded_Cons split: if_splits)
qed simp

text \<open>
  One attempt at a write: it fails before it reaches the service and leaves no event, or it is
  one event, and it is done exactly when the service reports no error.
\<close>

definition attempt :: "(go_error option \<Rightarrow> event \<Rightarrow> bool) \<Rightarrow> history \<Rightarrow> bool \<Rightarrow> bool" where
  "attempt W es done \<longleftrightarrow>
     es = [] \<and> \<not> done \<or> (\<exists>e u. es = [e] \<and> W u e \<and> (done \<longleftrightarrow> u = None))"

lemma attempt_done: "attempt W es True \<Longrightarrow> \<exists>e. es = [e] \<and> W None e"
  by (auto simp: attempt_def)

lemma attempt_elements: "attempt W es done \<Longrightarrow> e \<in> set es \<Longrightarrow> \<exists>u. W u e"
  by (auto simp: attempt_def)

lemma attempt_length: "attempt W es done \<Longrightarrow> length es \<le> 1"
  by (auto simp: attempt_def)

section \<open>Histories without failures\<close>

text \<open>
  The calls whose error is looked at by no caller: acknowledgements, the deferred closes and the
  reports to the breaker.
\<close>

primrec error_ignored :: "eff \<Rightarrow> bool" where
  "error_ignored (MongoInsertOne m) = False"
| "error_ignored (MongoUpdateOne i u) = False"
| "error_ignored (MongoFind q) = False"
| "error_ignored (CursorClose q) = True"
| "error_ignored (MongoConnect u) = False"
| "error_ignored MongoDisconnect = True"
| "error_ignored (RedisSet k v d) = False"
| "error_ignored RedisClose = True"
| "error_ignored (AmqpDial u) = False"
| "error_ignored AmqpOpenChannel = False"
| "error_ignored (AmqpExchangeDeclare n t d) = False"
| "error_ignored (AmqpQueueDeclare n d a) = False"
| "error_ignored (AmqpQueueBind q k x) = False"
| "error_ignored (AmqpPublish x k p) = False"
| "error_ignored (AmqpConsume q) = False"
| "error_ignored (AmqpAck t) = True"
| "error_ignored (AmqpNack t r) = True"
| "error_ignored AmqpCloseChannel = True"
| "error_ignored AmqpCloseConnection = True"
| "error_ignored (HttpNewRequest m u b) = False"
| "error_ignored HttpCloseBody = True"
| "error_ignored LimiterWait = False"
| "error_ignored (BreakerAdmit n) = False"
| "error_ignored (BreakerReport n ok) = True"
| "error_ignored SchedulerStart = True"
| "error_ignored SchedulerStop = True"

text \<open>
  An event that is a failure: an error that is looked at, a refusal of the limiter, an answer of
  the webhook from 400 on. A document or a key that is not there is not a failure.
\<close>

primrec failed :: "event \<Rightarrow> bool" where
  "failed (Did e r) \<longleftrightarrow> r \<noteq> None \<and> \<not> error_ignored e"
| "failed (Clock t) \<longleftrightarrow> False"
| "failed (MadeObjectID i) \<longleftrightarrow> False"
| "failed (FoundOne i r) \<longleftrightarrow> (case r of FindOneError e \<Rightarrow> True | _ \<Rightarrow> False)"
| "failed (FetchedAll q r) \<longleftrightarrow> isl r"
| "failed (GotKey k r) \<longleftrightarrow> (case r of RedisError e \<Rightarrow> True | _ \<Rightarrow> False)"
| "failed (HttpDone m u b r) \<longleftrightarrow> (case r of Inl e \<Rightarrow> True | Inr status \<Rightarrow> 400 \<le> status)"
| "failed (ReadBody r) \<longleftrightarrow> isl r"
| "failed (Allowed b) \<longleftrightarrow> \<not> b"
| "failed (Inspected q r) \<longleftrightarrow> isl r"

definition healthy :: "history \<Rightarrow> bool" where
  "healthy h \<longleftrightarrow> list_all (\<lambda>e. \<not> failed e) h"

lemma healthy_simps [simp]:
  "healthy []" "healthy (e # h) \<longleftrightarrow> \<not> failed e \<and> healthy h"
  "healthy (h\<^sub>1 @ h\<^sub>2) \<longleftrightarrow> healthy h\<^sub>1 \<and> healthy h\<^sub>2"
  by (simp_all add: healthy_def)

text \<open>
  The calls the webhook client makes: the limiter, its own breaker, the request. In a steady history
  nothing but these fails: the webhook may be down, the system is not.
\<close>

definition of_webhook :: "event \<Rightarrow> bool" where
  "of_webhook e \<longleftrightarrow> service_of e \<in> {Http, Limiter} \<or> (\<exists>r. e = Did (BreakerAdmit ''webhook-client'') r)"

definition steady :: "history \<Rightarrow> bool" where
  "steady h \<longleftrightarrow> list_all (\<lambda>e. failed e \<longrightarrow> of_webhook e) h"

lemma steady_simps [simp]:
  "steady []" "steady (e # h) \<longleftrightarrow> (failed e \<longrightarrow> of_webhook e) \<and> steady h"
  "steady (h\<^sub>1 @ h\<^sub>2) \<longleftrightarrow> steady h\<^sub>1 \<and> steady h\<^sub>2"
  by (simp_all add: steady_def)

lemma of_webhook_simps [simp]:
  "of_webhook (Did e r) \<longleftrightarrow> service_of_eff e \<in> {Http, Limiter} \<or> e = BreakerAdmit ''webhook-client''"
  "\<not> of_webhook (FoundOne i a)" "\<not> of_webhook (FetchedAll q res)" "\<not> of_webhook (GotKey k reply)"
  by (auto simp: of_webhook_def)

lemma of_webhook_code [code]:
  "of_webhook e \<longleftrightarrow> service_of e \<in> {Http, Limiter} \<or>
     (case e of Did (BreakerAdmit n) r \<Rightarrow> n = ''webhook-client'' | _ \<Rightarrow> False)"
  by (auto simp: of_webhook_def split: event.splits eff.splits)

lemma healthy_steady: "healthy h \<Longrightarrow> steady h"
  by (auto simp: healthy_def steady_def list_all_iff)

lemma healthy_trace: "healthy h \<Longrightarrow> healthy (trace h)"
  by (auto simp: healthy_def list_all_iff)

section \<open>Loops over a list\<close>

text \<open>When every body refines a specification of its trace, so does the loop.\<close>

lemma for_each_trace:
  assumes "ends (for_each xs body) h (Done u)"
    and "\<And>x h r. x \<in> set xs \<Longrightarrow> ends (body x) h (Done r) \<Longrightarrow> S x (trace h)"
  shows "\<exists>ess. trace h = concat ess \<and> list_all2 S xs ess"
  using assms
proof (induction xs arbitrary: h)
  case (Cons x xs)
  from Cons.prems(1) obtain h\<^sub>1 h\<^sub>2 r where h: "h = h\<^sub>1 @ h\<^sub>2" and "ends (body x) h\<^sub>1 (Done r)"
    and rest: "ends (for_each xs body) h\<^sub>2 (Done u)"
    by (auto simp: ends_bind)
  then have "S x (trace h\<^sub>1)" using Cons.prems(2) by simp
  moreover from Cons.IH [OF rest] Cons.prems(2) obtain ess where
    "trace h\<^sub>2 = concat ess" "list_all2 S xs ess" by auto
  ultimately have "trace h = concat (trace h\<^sub>1 # ess) \<and> list_all2 S (x # xs) (trace h\<^sub>1 # ess)"
    using h by simp
  then show ?case by blast
qed (auto simp: ends_Return)

text \<open>The same for a loop in which nothing fails.\<close>

lemma steady_for_each:
  assumes "ends (for_each xs body) h (Done u)" and "steady h"
    and "\<And>x h r. x \<in> set xs \<Longrightarrow> ends (body x) h (Done r) \<Longrightarrow> steady h \<Longrightarrow> S x (trace h)"
  shows "\<exists>ess. trace h = concat ess \<and> list_all2 S xs ess"
  using assms
proof (induction xs arbitrary: h)
  case (Cons x xs)
  from Cons.prems(1) obtain h\<^sub>1 h\<^sub>2 r where h: "h = h\<^sub>1 @ h\<^sub>2" and "ends (body x) h\<^sub>1 (Done r)"
    and rest: "ends (for_each xs body) h\<^sub>2 (Done u)"
    by (auto simp: ends_bind)
  then have "S x (trace h\<^sub>1)" using Cons.prems(2,3) by simp
  moreover from Cons.IH [OF rest] Cons.prems(2,3) h obtain ess where
    "trace h\<^sub>2 = concat ess" "list_all2 S xs ess" by auto
  ultimately have "trace h = concat (trace h\<^sub>1 # ess) \<and> list_all2 S (x # xs) (trace h\<^sub>1 # ess)"
    using h by simp
  then show ?case by blast
qed (auto simp: ends_Return)

end
