(* ===== verification/Go_Float.thy ===== *)
theory Go_Float
  imports Prelude "HOL-Library.Log_Nat" Complex_Main
begin

text \<open>
  The float64 division of two 32-bit counters and the comparison of its result with the constant
  0.6, as the \<open>ReadyToTrip\<close> callbacks compute them: IEEE 754 double precision, rounding to
  nearest with ties to even, a NaN for 0/0 and an infinity for n/0.
\<close>

datatype float64 = NaN | PosInf | Finite rat

definition round_half_even :: "rat \<Rightarrow> int" where
  "round_half_even y =
     (let f = \<lfloor>y\<rfloor>; d = y - of_int f
      in if d < 1/2 then f else if 1/2 < d then f + 1 else if even f then f else f + 1)"

text \<open>
  The exponent that brings \<open>a/b\<close> between \<open>2^52\<close> and \<open>2^53\<close>: one of two candidates that the bit
  lengths of \<open>a\<close> and \<open>b\<close> leave. It is not negative because the counters have 32 bits.
\<close>

definition quot_scale :: "nat \<Rightarrow> nat \<Rightarrow> nat" where
  "quot_scale a b =
     (let k = 53 + floorlog 2 b - floorlog 2 a
      in if 2 ^ 53 * b \<le> a * 2 ^ k then k - 1 else k)"

definition fdiv :: "nat \<Rightarrow> nat \<Rightarrow> float64" where
  "fdiv a b =
     (if b = 0 then (if a = 0 then NaN else PosInf)
      else if a = 0 then Finite 0
      else let k = quot_scale a b
           in Finite (of_int (round_half_even (of_nat a * 2 ^ k / of_nat b)) / 2 ^ k))"

text \<open>The double nearest to 0.6, and the comparison \<open>x >= 0.6\<close>, false on a NaN.\<close>

definition const_0_6 :: rat where "const_0_6 = 5404319552844595 / 2 ^ 53"

primrec fge :: "float64 \<Rightarrow> rat \<Rightarrow> bool" where
  "fge NaN c = False"
| "fge PosInf c = True"
| "fge (Finite x) c = (c \<le> x)"

section \<open>Rounding\<close>

lemma round_half_even_ge:
  assumes "of_int n - 1/2 < y"
  shows "n \<le> round_half_even y"
proof -
  have "n - 1 \<le> \<lfloor>y\<rfloor>" using assms by linarith
  moreover have "1/2 < y - of_int \<lfloor>y\<rfloor>" if "\<lfloor>y\<rfloor> = n - 1" using assms that by simp
  ultimately show ?thesis
    by (auto simp: round_half_even_def Let_def; linarith)
qed

lemma round_half_even_le:
  assumes "y < of_int n + 1/2"
  shows "round_half_even y \<le> n"
proof -
  have "\<lfloor>y\<rfloor> \<le> n" using assms by linarith
  moreover have "y - of_int \<lfloor>y\<rfloor> < 1/2" if "\<lfloor>y\<rfloor> = n" using assms that by simp
  ultimately show ?thesis
    by (auto simp: round_half_even_def Let_def; linarith)
qed

section \<open>The scale\<close>

lemma floorlog2_bounds:
  assumes "0 < a"
  shows "2 ^ (floorlog 2 a - 1) \<le> a" and "a < 2 ^ floorlog 2 a" and "0 < floorlog 2 a"
proof -
  show lo: "2 ^ (floorlog 2 a - 1) \<le> a" and hi: "a < 2 ^ floorlog 2 a"
    using assms floorlog_bounds [of a 2] by auto
  from hi assms show "0 < floorlog 2 a" by (cases "floorlog 2 a") auto
qed

lemma floorlog2_le32: "a < 2 ^ 32 \<Longrightarrow> floorlog 2 a \<le> 32"
  by (rule floorlog_leI) auto

lemma quot_scale_bounds:
  assumes a: "0 < a" "a < 2 ^ 32" and b: "0 < b" "b < 2 ^ 32"
  shows "2 ^ 52 * b \<le> a * 2 ^ quot_scale a b" and "a * 2 ^ quot_scale a b < 2 ^ 53 * b"
proof -
  define m n where "m = floorlog 2 a" and "n = floorlog 2 b"
  define k where "k = 53 + n - m"
  have m: "2 ^ (m - 1) \<le> a" "a < 2 ^ m" "0 < m" "m \<le> 32"
    using floorlog2_bounds [OF a(1)] floorlog2_le32 [OF a(2)] by (auto simp: m_def)
  have n: "2 ^ (n - 1) \<le> b" "b < 2 ^ n" "0 < n"
    using floorlog2_bounds [OF b(1)] by (auto simp: n_def)
  have k: "k + (m - 1) = 52 + n" "k + m = 54 + (n - 1)" "0 < k"
    using m n by (auto simp: k_def)
  have "2 ^ 52 * b \<le> 2 ^ (52 + n)" using n by (simp add: power_add)
  also have "\<dots> = 2 ^ (m - 1) * 2 ^ k" using k(1) by (simp add: power_add [symmetric] add.commute)
  also have "\<dots> \<le> a * 2 ^ k" using m(1) by simp
  finally have lo: "2 ^ 52 * b \<le> a * 2 ^ k" .
  have "a * 2 ^ k < 2 ^ m * 2 ^ k" using m(2) by simp
  also have "\<dots> = 2 ^ (54 + (n - 1))" using k(2) by (simp add: power_add [symmetric] add.commute)
  also have "\<dots> \<le> 2 ^ 54 * b" using n(1) by (simp only: power_add) simp
  finally have hi: "a * 2 ^ k < 2 ^ 54 * b" .
  obtain j where j: "k = Suc j" using k(3) by (cases k) auto
  have q: "quot_scale a b = (if 2 ^ 53 * b \<le> a * 2 ^ k then j else k)"
    by (simp add: quot_scale_def Let_def k_def [unfolded n_def m_def, symmetric] j)
  from lo hi show "2 ^ 52 * b \<le> a * 2 ^ quot_scale a b" and "a * 2 ^ quot_scale a b < 2 ^ 53 * b"
    by (auto simp: q j)
qed

section \<open>The comparison with 0.6 is exact\<close>

lemma fdiv_ge_0_6:
  assumes b: "0 < b" "b < 2 ^ 32" and a: "a < 2 ^ 32"
  shows "fge (fdiv a b) const_0_6 \<longleftrightarrow> 3 * b \<le> 5 * a"
proof (cases "a = 0")
  case True
  with b show ?thesis by (simp add: fdiv_def const_0_6_def)
next
  case False
  define k where "k = quot_scale a b"
  define y :: rat where "y = of_nat a * 2 ^ k / of_nat b"
  define r where "r = round_half_even y"
  from False have a0: "0 < a" by simp
  have b0: "(0::rat) < of_nat b" using b by simp
  have lo: "2 ^ 52 \<le> y" and hi: "y < 2 ^ 53"
  proof -
    have "(of_nat (2 ^ 52 * b) :: rat) \<le> of_nat (a * 2 ^ k)"
      unfolding k_def by (rule of_nat_mono, rule quot_scale_bounds(1) [OF a0 a b])
    then show "2 ^ 52 \<le> y" using b0 by (simp add: y_def pos_le_divide_eq)
    have "(of_nat (a * 2 ^ k) :: rat) < of_nat (2 ^ 53 * b)"
      unfolding k_def of_nat_less_iff by (rule quot_scale_bounds(2) [OF a0 a b])
    then show "y < 2 ^ 53" using b0 by (simp add: y_def pos_divide_less_eq)
  qed
  have r_lo: "2 ^ 52 \<le> r" unfolding r_def by (rule round_half_even_ge) (use lo in simp)
  have r_hi: "r \<le> 2 ^ 53" unfolding r_def by (rule round_half_even_le) (use hi in simp)
  have fd: "fge (fdiv a b) const_0_6 \<longleftrightarrow> const_0_6 \<le> of_int r / 2 ^ k"
    using False b by (simp add: fdiv_def Let_def k_def y_def r_def)
  define q :: rat where "q = of_int r / 2 ^ k"
  have fd': "fge (fdiv a b) const_0_6 \<longleftrightarrow> const_0_6 \<le> q" by (simp add: fd q_def)
  consider (one) "k = 53" | (big) "k \<le> 52" | (small) "54 \<le> k" by linarith
  then show ?thesis
  proof cases
    case one
    have "const_0_6 \<le> of_int r / 2 ^ k \<longleftrightarrow> (of_int 5404319552844595 :: rat) \<le> of_int r"
      by (simp add: one const_0_6_def)
    then have eq: "fge (fdiv a b) const_0_6 \<longleftrightarrow> 5404319552844595 \<le> r"
      unfolding fd of_int_le_iff .
    show ?thesis
    proof
      assume "3 * b \<le> 5 * a"
      then have "(of_nat (3 * b) :: rat) \<le> of_nat (5 * a)" by (rule of_nat_mono)
      then have "3 / 5 * 2 ^ 53 \<le> y" using b0 by (simp add: y_def one pos_le_divide_eq)
      then have "5404319552844595 \<le> r" unfolding r_def by (intro round_half_even_ge) simp
      then show "fge (fdiv a b) const_0_6" by (simp add: eq)
    next
      assume f: "fge (fdiv a b) const_0_6"
      show "3 * b \<le> 5 * a"
      proof (rule ccontr)
        assume "\<not> 3 * b \<le> 5 * a"
        then have "5 * a * 4294967296 + b \<le> 3 * b * 4294967296" using b by simp
        then have "(of_nat (5 * a * 4294967296 + b) :: rat) \<le> of_nat (3 * b * 4294967296)"
          by (rule of_nat_mono)
        then have "y \<le> (3 * 4294967296 - 1) / (5 * 4294967296) * 2 ^ 53"
          using b0 by (simp add: y_def one pos_divide_le_eq)
        then have "r \<le> 5404319552844594" unfolding r_def by (intro round_half_even_le) simp
        with f eq show False by simp
      qed
    qed
  next
    case big
    have "(2::rat) ^ k \<le> 2 ^ 52" using big by (intro power_increasing) auto
    moreover have "(2::rat) ^ 52 \<le> of_int r"
      using r_lo by (metis of_int_le_iff of_int_numeral of_int_power)
    ultimately have "(2::rat) ^ k \<le> of_int r" by (rule order_trans)
    then have "1 \<le> q" by (simp add: q_def le_divide_eq)
    then have "fge (fdiv a b) const_0_6" unfolding fd' by (simp add: const_0_6_def)
    moreover have "2 ^ 52 * b \<le> a * 2 ^ k"
      unfolding k_def by (rule quot_scale_bounds(1) [OF a0 a b])
    then have "2 ^ 52 * b \<le> a * 2 ^ 52"
      using big by (meson le_trans mult_le_mono2 one_le_numeral power_increasing)
    ultimately show ?thesis by simp
  next
    case small
    have "(2::rat) ^ 54 \<le> 2 ^ k" using small by (intro power_increasing) auto
    moreover have "of_int r \<le> (2::rat) ^ 53"
      using r_hi by (metis of_int_le_iff of_int_numeral of_int_power)
    ultimately have "q \<le> 1 / 2" by (simp add: q_def divide_le_eq)
    then have "\<not> fge (fdiv a b) const_0_6" unfolding fd' by (simp add: const_0_6_def)
    moreover have "a * 2 ^ k < 2 ^ 53 * b"
      unfolding k_def by (rule quot_scale_bounds(2) [OF a0 a b])
    then have "a * 2 ^ 54 < 2 ^ 53 * b"
      using small by (meson le_less_trans mult_le_mono2 one_le_numeral power_increasing)
    ultimately show ?thesis by simp
  qed
qed

end
