(* ===== verification/Breaker.thy ===== *)
theory Breaker
  imports Services Go_Float
begin

text \<open>
  The circuit breakers. The breaker itself (\<open>github.com/sony/gobreaker\<close>) is not under \<open>src/\<close>:
  whether it admits a call is an answer of the environment (\<open>BreakerAdmit\<close>), and what it learns
  of the outcome is a report to it (\<open>BreakerReport\<close>). Under \<open>src/\<close> are the settings, the
  \<open>ReadyToTrip\<close> callback the breaker calls with its counters, and the closures given to
  \<open>Execute\<close>.
\<close>

section \<open>Settings\<close>

text \<open>\<open>gobreaker.Counts\<close>, as far as the callback reads it; the counters are \<open>uint32\<close>.\<close>

record counts =
  Requests :: "32 word"
  TotalFailures :: "32 word"

text \<open>
  The callback: the same in the three adapters. The ratio is computed first, and it is a NaN when
  no request was counted.
\<close>

definition ReadyToTrip :: "counts \<Rightarrow> bool" where
  "ReadyToTrip c =
     (let failureRatio = fdiv (unat (TotalFailures c)) (unat (Requests c))
      in 3 \<le> Requests c \<and> fge failureRatio const_0_6)"

record breaker_settings =
  cb_Name :: string
  cb_MaxRequests :: nat
  cb_Interval :: duration
  cb_Timeout :: duration
  cb_ReadyToTrip :: "counts \<Rightarrow> bool"

section \<open>Execute\<close>

text \<open>
  \<open>Execute\<close> runs the closure if the breaker admits the call, reports whether it returned an
  error, and returns its result; a call that is not admitted returns the breaker's error at once.
\<close>

definition Execute :: "breaker_settings \<Rightarrow> 'a result prog \<Rightarrow> 'a result prog" where
  "Execute cb req =
     Do (BreakerAdmit (cb_Name cb)) (\<lambda>r. case r of
       Some err \<Rightarrow> Return (Inl err)
     | None \<Rightarrow> bind req (\<lambda>res. perform_ignoring (BreakerReport (cb_Name cb) (\<not> isl res)) (Return res)))"

text \<open>A closure that only returns an error, \<open>return nil, err\<close>.\<close>

definition of_error :: "go_error option \<Rightarrow> unit result" where
  "of_error r = (case r of None \<Rightarrow> Inr () | Some e \<Rightarrow> Inl e)"

text \<open>\<open>fmt.Errorf("circuit breaker error: %v", err)\<close> on the error of \<open>Execute\<close>.\<close>

definition breaker_error :: "go_error \<Rightarrow> go_error" where
  "breaker_error e = Errorf ''circuit breaker error'' e"

definition error_of :: "'a result \<Rightarrow> go_error option" where
  "error_of res = (case res of Inl e \<Rightarrow> Some (breaker_error e) | Inr _ \<Rightarrow> None)"

definition wrap_result :: "'a result \<Rightarrow> 'a result" where
  "wrap_result res = (case res of Inl e \<Rightarrow> Inl (breaker_error e) | Inr x \<Rightarrow> Inr x)"

lemma of_error_simps [simp]:
  "of_error None = Inr ()" "of_error (Some e) = Inl e"
  "of_error r = Inr u \<longleftrightarrow> r = None" "of_error r = Inl e \<longleftrightarrow> r = Some e"
  by (cases r; simp add: of_error_def)+

lemma error_of_simps [simp]:
  "error_of (Inr x) = None" "error_of (Inl e) = Some (breaker_error e)"
  "error_of r = None \<longleftrightarrow> (\<exists>x. r = Inr x)"
  by (cases r; simp add: error_of_def)+

lemma wrap_result_simps [simp]:
  "wrap_result (Inr x) = Inr x" "wrap_result (Inl e) = Inl (breaker_error e)"
  "wrap_result r = Inr x \<longleftrightarrow> r = Inr x"
  "wrap_result r = Inl e \<longleftrightarrow> (\<exists>e'. r = Inl e' \<and> e = breaker_error e')"
  by (cases r; auto simp: wrap_result_def)+

text \<open>The histories of \<open>Execute\<close>: rejected, or admitted, with the closure's history inside.\<close>

lemma ends_Execute [replay_simps]:
  "ends (Execute cb req) h out \<longleftrightarrow>
     (\<exists>e. h = [Did (BreakerAdmit (cb_Name cb)) (Some e)] \<and> out = Done (Inl e)) \<or>
     (\<exists>h' res r. h = Did (BreakerAdmit (cb_Name cb)) None # h' @ [Did (BreakerReport (cb_Name cb) (\<not> isl res)) r]
        \<and> ends req h' (Done res) \<and> out = Done res) \<or>
     (\<exists>h' y. h = Did (BreakerAdmit (cb_Name cb)) None # h' \<and> ends req h' (Stopped y) \<and> out = Stopped y)"
  unfolding Execute_def
  by (auto simp: replay_simps split: option.splits) blast

lemma no_halt_Execute [simp]: "no_halt req \<Longrightarrow> no_halt (Execute cb req)"
  by (auto simp: no_halt_def replay_simps)

lemma uses_Execute [intro!]:
  "uses req S \<Longrightarrow> service.Breaker \<in> S \<Longrightarrow> uses (Execute cb req) S"
  unfolding Execute_def by (auto intro: uses_bind split: option.splits)

lemma no_halt_map [intro!]: "no_halt p \<Longrightarrow> no_halt (bind p (\<lambda>x. Return (f x)))"
  by (rule no_halt_bind) simp_all

lemma uses_map [intro!]: "uses p S \<Longrightarrow> uses (bind p (\<lambda>x. Return (f x))) S"
  by (rule uses_bind) simp_all

section \<open>The trip decision\<close>

text \<open>
  The float64 computation decides exactly whether at least three requests were counted and at
  least 60 percent of them failed: no rounding moves the boundary, at any value of the counters.
\<close>

lemma ReadyToTrip_exact:
  "ReadyToTrip c \<longleftrightarrow> 3 \<le> unat (Requests c) \<and> 3 * unat (Requests c) \<le> 5 * unat (TotalFailures c)"
proof -
  have lt: "unat w < 2 ^ 32" for w :: "32 word" using unsigned_less [of w] by simp
  have "3 \<le> Requests c \<longleftrightarrow> 3 \<le> unat (Requests c)" by (simp add: word_le_nat_alt)
  then show ?thesis
    using fdiv_ge_0_6 [OF _ lt lt, of "Requests c" "TotalFailures c"]
    by (cases "0 < unat (Requests c)") (auto simp: ReadyToTrip_def Let_def)
qed

end
