(* ===== verification/Repository.thy ===== *)
theory Repository
  imports Breaker
begin

text \<open>
  \<open>shared/ports/mongodb/interfaces\<close> and \<open>shared/adapters/message_repository_adapter.go\<close>: the
  repository port (the outbox) and its MongoDB adapter. Some operations go through the circuit
  breaker and some do not, as in the code.
\<close>

section \<open>The port\<close>

text \<open>
  \<open>CreateMessage\<close> takes a pointer: the callee may change the message, so the operation returns
  the message as it is afterwards, with the error. A nil pointer result is \<open>Inr None\<close>.
\<close>

record message_repository =
  FindUnsentMessages :: "int \<Rightarrow> message list result prog"
  UpdateStatus :: "oid \<Rightarrow> message_status \<Rightarrow> go_error option prog"
  IncrementRetryCount :: "oid \<Rightarrow> go_error option prog"
  GetByID :: "oid \<Rightarrow> message option result prog"
  CreateMessage :: "message \<Rightarrow> (message \<times> go_error option) prog"
  ListMessages :: "message list result prog"
  FindStaleProcessingMessages :: "duration \<Rightarrow> message list result prog"

section \<open>The adapter\<close>

definition mongo_breaker :: breaker_settings where
  "mongo_breaker =
     \<lparr>cb_Name = ''mongodb-repository'', cb_MaxRequests = 3, cb_Interval = 10 * Second,
      cb_Timeout = 30 * Second, cb_ReadyToTrip = ReadyToTrip\<rparr>"

text \<open>The update documents and the queries.\<close>

definition status_update :: "message_status \<Rightarrow> time \<Rightarrow> mongo_update" where
  "status_update status t =
     \<lparr>set_status = Some status, set_updated_at = Some t, inc_retry_count = 0\<rparr>"

definition retry_update :: "time \<Rightarrow> mongo_update" where
  "retry_update t = \<lparr>set_status = None, set_updated_at = Some t, inc_retry_count = 1\<rparr>"

definition unsent_query :: "int \<Rightarrow> mongo_query" where
  "unsent_query limit =
     \<lparr>where_status = Some StatusUnsent, where_updated_before = None, query_limit = Some limit\<rparr>"

definition all_query :: mongo_query where
  "all_query = \<lparr>where_status = None, where_updated_before = None, query_limit = None\<rparr>"

definition stale_query :: "time \<Rightarrow> mongo_query" where
  "stale_query staleTime =
     \<lparr>where_status = Some StatusProcessing, where_updated_before = Some staleTime,
      query_limit = None\<rparr>"

text \<open>\<open>Find\<close>, \<open>cursor.All\<close> and the deferred \<open>cursor.Close\<close>.\<close>

definition find_all :: "mongo_query \<Rightarrow> message list result prog" where
  "find_all q =
     Do (MongoFind q) (\<lambda>r. case r of
       Some err \<Rightarrow> Return (Inl err)
     | None \<Rightarrow> CursorAll q (\<lambda>res. perform_ignoring (CursorClose q) (Return res)))"

definition mongo_Save :: "message \<Rightarrow> (message \<times> go_error option) prog" where
  "mongo_Save message =
     (let assign_id = (if IsZero (msg_ID message)
                       then NewObjectID (\<lambda>i. Return (message\<lparr>msg_ID := i\<rparr>))
                       else Return message) in
      Do (BreakerAdmit (cb_Name mongo_breaker)) (\<lambda>r. case r of
        Some err \<Rightarrow> Return (message, Some (breaker_error err))
      | None \<Rightarrow>
          bind assign_id (\<lambda>message'.
          Now (\<lambda>t.
            let message'' = message'\<lparr>msg_CreatedAt := t\<rparr> in
            Do (MongoInsertOne message'') (\<lambda>err.
              perform_ignoring (BreakerReport (cb_Name mongo_breaker) (err = None))
                (Return (message'', error_of (of_error err))))))))"

definition mongo_FindByID :: "oid \<Rightarrow> message option result prog" where
  "mongo_FindByID i =
     bind
       (Execute mongo_breaker
          (MongoFindOne i (\<lambda>r. case r of
             Found message \<Rightarrow> Return (Inr (Some message))
           | ErrNoDocuments \<Rightarrow> Return (Inr None)
           | FindOneError err \<Rightarrow> Return (Inl err))))
       (\<lambda>result. Return (wrap_result result))"

definition mongo_FindUnsentMessages :: "int \<Rightarrow> message list result prog" where
  "mongo_FindUnsentMessages limit =
     bind (Execute mongo_breaker (find_all (unsent_query limit)))
       (\<lambda>result. Return (wrap_result result))"

definition mongo_UpdateStatus :: "oid \<Rightarrow> message_status \<Rightarrow> go_error option prog" where
  "mongo_UpdateStatus i status =
     bind
       (Execute mongo_breaker
          (Now (\<lambda>t. Do (MongoUpdateOne i (status_update status t)) (\<lambda>r. Return (of_error r)))))
       (\<lambda>result. Return (error_of result))"

definition mongo_IncrementRetryCount :: "oid \<Rightarrow> go_error option prog" where
  "mongo_IncrementRetryCount i =
     bind
       (Execute mongo_breaker
          (Now (\<lambda>t. Do (MongoUpdateOne i (retry_update t)) (\<lambda>r. Return (of_error r)))))
       (\<lambda>result. Return (error_of result))"

definition mongo_GetByID :: "oid \<Rightarrow> message option result prog" where
  "mongo_GetByID i =
     MongoFindOne i (\<lambda>r. case r of
       Found message \<Rightarrow> Return (Inr (Some message))
     | ErrNoDocuments \<Rightarrow> Return (Inr None)
     | FindOneError err \<Rightarrow> Return (Inl err))"

text \<open>
  \<open>CreateMessage\<close> inserts the message it is given and changes nothing in it: with a zero id the
  driver sends a document whose \<open>_id\<close> it generates itself (the tag is \<open>omitempty\<close>), and the id it
  reports back is dropped.
\<close>

definition mongo_CreateMessage :: "message \<Rightarrow> (message \<times> go_error option) prog" where
  "mongo_CreateMessage msg = Do (MongoInsertOne msg) (\<lambda>err. Return (msg, err))"

definition mongo_ListMessages :: "message list result prog" where
  "mongo_ListMessages = find_all all_query"

definition mongo_FindStaleProcessingMessages :: "duration \<Rightarrow> message list result prog" where
  "mongo_FindStaleProcessingMessages staleDuration =
     Now (\<lambda>t. let staleTime = t - staleDuration in find_all (stale_query staleTime))"

definition mongoMessageRepository :: message_repository where
  "mongoMessageRepository =
     \<lparr>FindUnsentMessages = mongo_FindUnsentMessages, UpdateStatus = mongo_UpdateStatus,
      IncrementRetryCount = mongo_IncrementRetryCount, GetByID = mongo_GetByID,
      CreateMessage = mongo_CreateMessage, ListMessages = mongo_ListMessages,
      FindStaleProcessingMessages = mongo_FindStaleProcessingMessages\<rparr>"

lemmas mongo_defs =
  mongo_FindUnsentMessages_def mongo_UpdateStatus_def mongo_IncrementRetryCount_def
  mongo_GetByID_def mongo_CreateMessage_def mongo_ListMessages_def
  mongo_FindStaleProcessingMessages_def find_all_def

section \<open>The contract of the port\<close>

text \<open>An event that sets the status of a message, or increments its retry count, with the answer.\<close>

definition wrote_status :: "oid \<Rightarrow> message_status \<Rightarrow> go_error option \<Rightarrow> event \<Rightarrow> bool" where
  "wrote_status i s r e \<longleftrightarrow> (\<exists>t. e = Did (MongoUpdateOne i (status_update s t)) r)"

definition wrote_retry :: "oid \<Rightarrow> go_error option \<Rightarrow> event \<Rightarrow> bool" where
  "wrote_retry i r e \<longleftrightarrow> (\<exists>t. e = Did (MongoUpdateOne i (retry_update t)) r)"

definition inserted :: "message \<Rightarrow> go_error option \<Rightarrow> event \<Rightarrow> bool" where
  "inserted m r e \<longleftrightarrow> e = Did (MongoInsertOne m) r"

lemma wrote_observed:
  "wrote_status i s r e \<Longrightarrow> observed e" "wrote_retry i r e \<Longrightarrow> observed e"
  by (auto simp: wrote_status_def wrote_retry_def)

lemma wrote_status_not_retry: "wrote_status i s r e \<Longrightarrow> \<not> wrote_retry j r' e"
  by (auto simp: wrote_status_def wrote_retry_def status_update_def retry_update_def)

text \<open>
  An update either fails before it reaches the database, and then writes nothing, or it is one
  write of the right document whose success is the operation's; a lookup is one query whose
  answer it returns. An operation that reports an error has seen a call of its own fail.
\<close>

definition found_answer :: "find_one_result \<Rightarrow> message option result" where
  "found_answer r =
     (case r of Found m \<Rightarrow> Inr (Some m) | ErrNoDocuments \<Rightarrow> Inr None | FindOneError e \<Rightarrow> Inl e)"

locale message_repository_port =
  fixes R :: message_repository
  assumes FindUnsent_no_halt: "no_halt (FindUnsentMessages R n)"
    and UpdateStatus_no_halt: "no_halt (UpdateStatus R i s)"
    and IncrementRetryCount_no_halt: "no_halt (IncrementRetryCount R i)"
    and GetByID_no_halt: "no_halt (GetByID R i)"
    and CreateMessage_no_halt: "no_halt (CreateMessage R m)"
    and ListMessages_no_halt: "no_halt (ListMessages R)"
    and FindStale_no_halt: "no_halt (FindStaleProcessingMessages R d)"
    and UpdateStatus_uses: "uses (UpdateStatus R i s) {Mongo, service.Breaker, Runtime}"
    and IncrementRetryCount_uses: "uses (IncrementRetryCount R i) {Mongo, service.Breaker, Runtime}"
    and GetByID_uses: "uses (GetByID R i) {Mongo, service.Breaker, Runtime}"
    and FindUnsent_uses: "uses (FindUnsentMessages R n) {Mongo, service.Breaker, Runtime}"
    and FindStale_uses: "uses (FindStaleProcessingMessages R d) {Mongo, service.Breaker, Runtime}"
    and ListMessages_uses: "uses (ListMessages R) {Mongo, service.Breaker, Runtime}"
    and UpdateStatus_trace:
      "ends (UpdateStatus R i s) h (Done r) \<Longrightarrow>
         attempt (wrote_status i s) (trace h) (r = None)"
    and IncrementRetryCount_trace:
      "ends (IncrementRetryCount R i) h (Done r) \<Longrightarrow>
         attempt (wrote_retry i) (trace h) (r = None)"
    and CreateMessage_trace:
      "ends (CreateMessage R m) h (Done (m', r)) \<Longrightarrow> attempt (inserted m) (trace h) (r = None)"
    and ListMessages_trace:
      "ends (ListMessages R) h (Done (Inr ms)) \<Longrightarrow> trace h = [FetchedAll all_query (Inr ms)]"
    and ListMessages_error_trace:
      "ends (ListMessages R) h (Done (Inl err)) \<Longrightarrow>
         trace h = [] \<or> (\<exists>e. trace h = [FetchedAll all_query (Inl e)])"
    and GetByID_trace:
      "ends (GetByID R i) h (Done (Inr found)) \<Longrightarrow>
         \<exists>a. trace h = [FoundOne i a] \<and> found_answer a = Inr found"
    and GetByID_error_trace:
      "ends (GetByID R i) h (Done (Inl err)) \<Longrightarrow>
         trace h = [] \<or> (\<exists>e. trace h = [FoundOne i (FindOneError e)])"
    and FindUnsent_trace:
      "ends (FindUnsentMessages R n) h (Done (Inr ms)) \<Longrightarrow>
         trace h = [FetchedAll (unsent_query n) (Inr ms)]"
    and FindUnsent_error_trace:
      "ends (FindUnsentMessages R n) h (Done (Inl err)) \<Longrightarrow>
         trace h = [] \<or> (\<exists>e. trace h = [FetchedAll (unsent_query n) (Inl e)])"
    and FindStale_trace:
      "ends (FindStaleProcessingMessages R d) h (Done (Inr ms)) \<Longrightarrow>
         \<exists>t. Clock t \<in> set h \<and> trace h = [FetchedAll (stale_query (t - d)) (Inr ms)]"
    and FindStale_error_trace:
      "ends (FindStaleProcessingMessages R d) h (Done (Inl err)) \<Longrightarrow>
         trace h = [] \<or> (\<exists>t e. trace h = [FetchedAll (stale_query (t - d)) (Inl e)])"
    and UpdateStatus_fails: "ends (UpdateStatus R i s) h (Done (Some err)) \<Longrightarrow> \<not> steady h"
    and IncrementRetryCount_fails: "ends (IncrementRetryCount R i) h (Done (Some err)) \<Longrightarrow> \<not> steady h"
    and GetByID_fails: "ends (GetByID R i) h (Done (Inl err)) \<Longrightarrow> \<not> steady h"
    and FindUnsent_fails: "ends (FindUnsentMessages R n) h (Done (Inl err)) \<Longrightarrow> \<not> steady h"
    and FindStale_fails: "ends (FindStaleProcessingMessages R d) h (Done (Inl err)) \<Longrightarrow> \<not> steady h"

lemma mongo_no_halt:
  "no_halt (mongo_FindUnsentMessages n)" "no_halt (mongo_UpdateStatus i s)"
  "no_halt (mongo_IncrementRetryCount i)" "no_halt (mongo_GetByID i)"
  "no_halt (mongo_CreateMessage m)" "no_halt mongo_ListMessages"
  "no_halt (mongo_FindStaleProcessingMessages d)"
  unfolding mongo_defs Let_def
  by (auto intro!: no_halt_Execute split: option.splits find_one_result.splits)

lemma mongo_uses:
  "uses (mongo_FindUnsentMessages n) {Mongo, service.Breaker, Runtime}"
  "uses (mongo_UpdateStatus i s) {Mongo, service.Breaker, Runtime}"
  "uses (mongo_IncrementRetryCount i) {Mongo, service.Breaker, Runtime}"
  "uses (mongo_GetByID i) {Mongo, service.Breaker, Runtime}"
  "uses mongo_ListMessages {Mongo, service.Breaker, Runtime}"
  "uses (mongo_FindStaleProcessingMessages d) {Mongo, service.Breaker, Runtime}"
  unfolding mongo_defs Let_def by (auto split: option.splits find_one_result.splits)

interpretation mongo: message_repository_port mongoMessageRepository
  by unfold_locales
    (simp_all add: mongoMessageRepository_def mongo_no_halt mongo_uses,
      auto simp: mongo_defs replay_simps attempt_def inserted_def wrote_status_def wrote_retry_def found_answer_def Let_def mongo_breaker_def)

end
