(* ===== verification/Go_Json.thy ===== *)
theory Go_Json
  imports Go_Runtime
begin

text \<open>
  What the code uses of \<open>encoding/json\<close>: the scanner (a push-down machine over the bytes, as in
  the library), the text of strings and numbers that \<open>Marshal\<close> writes, and the decoding of an
  object's members. Go strings are byte strings, here lists of \<open>char\<close>.
\<close>

abbreviation byte :: "char \<Rightarrow> nat" where "byte c \<equiv> of_char c"

abbreviation quote :: char where "quote \<equiv> CHR 0x22"
abbreviation backslash :: char where "backslash \<equiv> CHR 0x5C"

section \<open>UTF-8\<close>

text \<open>
  \<open>utf8_width s\<close>: the number of bytes of the well-formed UTF-8 sequence \<open>s\<close> starts with, 0 when
  it starts with none (\<open>utf8.DecodeRuneInString\<close> then yields \<open>RuneError\<close> and width 1).
\<close>

definition cont :: "char \<Rightarrow> bool" where
  "cont c \<longleftrightarrow> 128 \<le> byte c \<and> byte c < 192"

fun utf8_width :: "string \<Rightarrow> nat" where
  "utf8_width [] = 0"
| "utf8_width (a # s) =
     (if byte a < 128 then 1
      else if byte a < 194 then 0
      else if byte a < 224 then
        (case s of b # _ \<Rightarrow> if cont b then 2 else 0 | _ \<Rightarrow> 0)
      else if byte a < 240 then
        (case s of b # c # _ \<Rightarrow>
           if cont b \<and> cont c \<and> (byte a = 224 \<longrightarrow> 160 \<le> byte b) \<and> (byte a = 237 \<longrightarrow> byte b < 160)
           then 3 else 0
         | _ \<Rightarrow> 0)
      else if byte a < 245 then
        (case s of b # c # d # _ \<Rightarrow>
           if cont b \<and> cont c \<and> cont d \<and> (byte a = 240 \<longrightarrow> 144 \<le> byte b) \<and>
              (byte a = 244 \<longrightarrow> byte b < 144)
           then 4 else 0
         | _ \<Rightarrow> 0)
      else 0)"

function valid_utf8 :: "string \<Rightarrow> bool" where
  "valid_utf8 [] = True"
| "valid_utf8 (c # s) =
     (utf8_width (c # s) \<noteq> 0 \<and> valid_utf8 (drop (utf8_width (c # s) - 1) s))"
  by pat_completeness auto
termination by (relation "measure length") auto

text \<open>The UTF-8 encoding of a code point (a surrogate or a value out of range is U+FFFD).\<close>

definition replacement :: string where
  "replacement = [CHR 0xEF, CHR 0xBF, CHR 0xBD]"

definition utf8_encode :: "nat \<Rightarrow> string" where
  "utf8_encode r =
     (if r < 128 then [char_of r]
      else if r < 2048 then [char_of (192 + r div 64), char_of (128 + r mod 64)]
      else if 55296 \<le> r \<and> r < 57344 \<or> 1114112 \<le> r then replacement
      else if r < 65536 then
        [char_of (224 + r div 4096), char_of (128 + r div 64 mod 64), char_of (128 + r mod 64)]
      else [char_of (240 + r div 262144), char_of (128 + r div 4096 mod 64),
            char_of (128 + r div 64 mod 64), char_of (128 + r mod 64)])"

section \<open>Strings: Marshal\<close>

definition hex_digit :: "nat \<Rightarrow> char" where
  "hex_digit d = (if d < 10 then char_of (48 + d) else char_of (87 + d))"

text \<open>
  The text of one ASCII byte inside a JSON string, with the HTML escaping \<open>json.Marshal\<close> has on.
\<close>

definition short_escape :: "char \<Rightarrow> char option" where
  "short_escape c =
     (if c = quote \<or> c = backslash then Some c
      else if c = CHR 0x08 then Some (CHR ''b'')
      else if c = CHR 0x0C then Some (CHR ''f'')
      else if c = CHR 0x0A then Some (CHR ''n'')
      else if c = CHR 0x0D then Some (CHR ''r'')
      else if c = CHR 0x09 then Some (CHR ''t'')
      else None)"

definition escape_ascii :: "char \<Rightarrow> string" where
  "escape_ascii c =
     (case short_escape c of
        Some e \<Rightarrow> [backslash, e]
      | None \<Rightarrow>
          if byte c < 32 \<or> c = CHR ''<'' \<or> c = CHR ''>'' \<or> c = CHR ''&'' then
            [backslash, CHR ''u'', CHR ''0'', CHR ''0'', hex_digit (byte c div 16),
             hex_digit (byte c mod 16)]
          else [c])"

text \<open>U+2028 and U+2029, the line and paragraph separators, are escaped too.\<close>

definition line_separator :: string where "line_separator = [CHR 0xE2, CHR 0x80, CHR 0xA8]"
definition paragraph_separator :: string where "paragraph_separator = [CHR 0xE2, CHR 0x80, CHR 0xA9]"

definition escape_rune :: "string \<Rightarrow> string" where
  "escape_rune s =
     (if s = line_separator then backslash # ''u2028''
      else if s = paragraph_separator then backslash # ''u2029''
      else s)"

function escape :: "string \<Rightarrow> string" where
  "escape [] = []"
| "escape (c # s) =
     (if byte c < 128 then escape_ascii c @ escape s
      else let n = utf8_width (c # s) in
        if n = 0 then (backslash # ''ufffd'') @ escape s
        else escape_rune (take n (c # s)) @ escape (drop (n - 1) s))"
  by pat_completeness auto
termination by (relation "measure length") auto

definition json_string :: "string \<Rightarrow> string" where
  "json_string s = quote # escape s @ [quote]"

section \<open>Strings: Unmarshal\<close>

definition hex_val :: "char \<Rightarrow> nat option" where
  "hex_val c =
     (let b = byte c in
      if 48 \<le> b \<and> b \<le> 57 then Some (b - 48)
      else if 97 \<le> b \<and> b \<le> 102 then Some (b - 87)
      else if 65 \<le> b \<and> b \<le> 70 then Some (b - 55)
      else None)"

text \<open>\<open>getu4\<close>: the code unit of an escape \<open>\uXXXX\<close> a string starts with.\<close>

fun getu4 :: "string \<Rightarrow> nat option" where
  "getu4 (b # u # h1 # h2 # h3 # h4 # s) =
     (if b = backslash \<and> u = CHR ''u'' then
        (case (hex_val h1, hex_val h2, hex_val h3, hex_val h4) of
           (Some d1, Some d2, Some d3, Some d4) \<Rightarrow> Some (4096 * d1 + 256 * d2 + 16 * d3 + d4)
         | _ \<Rightarrow> None)
      else None)"
| "getu4 _ = None"

definition simple_escape :: "char \<Rightarrow> char option" where
  "simple_escape c =
     (if c = quote \<or> c = backslash \<or> c = CHR ''/'' then Some c
      else if c = CHR ''b'' then Some (CHR 0x08)
      else if c = CHR ''f'' then Some (CHR 0x0C)
      else if c = CHR ''n'' then Some (CHR 0x0A)
      else if c = CHR ''r'' then Some (CHR 0x0D)
      else if c = CHR ''t'' then Some (CHR 0x09)
      else None)"

definition is_surrogate :: "nat \<Rightarrow> bool" where
  "is_surrogate r \<longleftrightarrow> 55296 \<le> r \<and> r < 57344"

text \<open>\<open>utf16.DecodeRune\<close>: the code point of a surrogate pair, if it is one.\<close>

definition decode_pair :: "nat \<Rightarrow> nat \<Rightarrow> nat option" where
  "decode_pair r r' =
     (if 55296 \<le> r \<and> r < 56320 \<and> 56320 \<le> r' \<and> r' < 57344
      then Some ((r - 55296) * 1024 + (r' - 56320) + 65536) else None)"

text \<open>
  \<open>unquoteBytes\<close> on the text between the quotes: escapes are decoded, a lone surrogate and every
  byte that is not part of a well-formed UTF-8 sequence become U+FFFD.
\<close>

function unquote :: "string \<Rightarrow> string option" where
  "unquote [] = Some []"
| "unquote (c # s) =
     (if c = backslash then
        (case getu4 (c # s) of
           Some r \<Rightarrow>
             (if is_surrogate r then
                (case getu4 (drop 5 s) of
                   Some r' \<Rightarrow>
                     (case decode_pair r r' of
                        Some p \<Rightarrow> map_option ((@) (utf8_encode p)) (unquote (drop 11 s))
                      | None \<Rightarrow> map_option ((@) replacement) (unquote (drop 5 s)))
                 | None \<Rightarrow> map_option ((@) replacement) (unquote (drop 5 s)))
              else map_option ((@) (utf8_encode r)) (unquote (drop 5 s)))
         | None \<Rightarrow>
             (case s of
                [] \<Rightarrow> None
              | e # s' \<Rightarrow>
                  (case simple_escape e of
                     None \<Rightarrow> None
                   | Some d \<Rightarrow> map_option ((#) d) (unquote s'))))
      else if c = quote \<or> byte c < 32 then None
      else if byte c < 128 then map_option ((#) c) (unquote s)
      else let n = utf8_width (c # s) in
        if n = 0 then map_option ((@) replacement) (unquote s)
        else map_option ((@) (take n (c # s))) (unquote (drop (n - 1) s)))"
  by pat_completeness auto
termination by (relation "measure length") auto

section \<open>Strings: round trip\<close>

lemma hex_val_hex_digit: "d < 16 \<Longrightarrow> hex_val (hex_digit d) = Some d"
  by (auto simp: hex_val_def hex_digit_def)

lemma getu4_not_u: "e \<noteq> CHR ''u'' \<Longrightarrow> getu4 (c # e # t) = None"
  by (cases "c # e # t" rule: getu4.cases) auto

lemma short_escape_simple:
  "short_escape c = Some e \<Longrightarrow> simple_escape e = Some c \<and> e \<noteq> CHR ''u''"
  by (auto simp: short_escape_def simple_escape_def split: if_splits)

lemma short_escape_None: "short_escape c = None \<Longrightarrow> c \<noteq> quote \<and> c \<noteq> backslash"
  by (auto simp: short_escape_def split: if_splits)

lemma getu4_hex_escape:
  assumes "byte c < 128"
  shows "getu4 (backslash # CHR ''u'' # CHR ''0'' # CHR ''0'' # hex_digit (byte c div 16) #
           hex_digit (byte c mod 16) # t) = Some (byte c)"
proof -
  have "hex_val (CHR ''0'') = Some 0" by (simp add: hex_val_def)
  moreover have "hex_val (hex_digit (byte c div 16)) = Some (byte c div 16)"
    using assms by (intro hex_val_hex_digit) simp
  moreover have "hex_val (hex_digit (byte c mod 16)) = Some (byte c mod 16)"
    by (intro hex_val_hex_digit) simp
  ultimately show ?thesis by simp
qed

lemma append_singleton: "(@) [x] = (#) x"
  by (rule ext) simp

lemma unquote_escape_ascii:
  assumes "byte c < 128"
  shows "unquote (escape_ascii c @ t) = map_option ((#) c) (unquote t)"
proof (cases "short_escape c")
  case (Some e)
  then show ?thesis
    using short_escape_simple [OF Some]
    by (simp add: escape_ascii_def getu4_not_u del: getu4.simps)
next
  case None
  have "utf8_encode (byte c) = [c]" "\<not> is_surrogate (byte c)"
    using assms by (simp_all add: utf8_encode_def is_surrogate_def)
  then show ?thesis
    using assms None short_escape_None [OF None] getu4_hex_escape [OF assms]
    by (simp add: escape_ascii_def append_singleton del: getu4.simps)
qed

text \<open>Multi-byte sequences.\<close>

lemma utf8_width_ge2: "128 \<le> byte c \<Longrightarrow> utf8_width (c # s) \<noteq> 0 \<Longrightarrow> 2 \<le> utf8_width (c # s)"
  by (auto split: list.splits if_splits)

lemma utf8_width_le_length: "utf8_width s \<le> length s"
  by (cases s) (auto split: list.splits if_splits)

lemma utf8_width_take:
  "utf8_width s \<noteq> 0 \<Longrightarrow> utf8_width (take (utf8_width s) s @ t) = utf8_width s"
  by (cases s) (auto split: list.splits if_splits)

lemma unquote_rune:
  assumes c: "128 \<le> byte c" and w: "utf8_width (c # s) = n" "n \<noteq> 0"
  shows "unquote (escape_rune (take n (c # s)) @ t) = map_option ((@) (take n (c # s))) (unquote t)"
proof -
  have sep: "unquote ((backslash # CHR ''u'' # CHR ''2'' # CHR ''0'' # CHR ''2'' # x # []) @ t) =
      map_option ((@) (utf8_encode r)) (unquote t)"
    if "hex_val x = Some d" and "r = 8224 + d" and "d < 16" for x d r
    using that by (simp add: hex_val_def is_surrogate_def)
  show ?thesis
  proof (cases "take n (c # s) = line_separator \<or> take n (c # s) = paragraph_separator")
    case True
    have "utf8_encode 8232 = line_separator" "utf8_encode 8233 = paragraph_separator"
      by (simp_all add: utf8_encode_def line_separator_def paragraph_separator_def char_of_def) code_simp+
    moreover have "line_separator \<noteq> paragraph_separator"
      by (simp add: line_separator_def paragraph_separator_def)
    ultimately show ?thesis
      using True sep [of "CHR ''8''" 8 8232] sep [of "CHR ''9''" 9 8233]
      by (auto simp: escape_rune_def hex_val_def simp del: unquote.simps)
  next
    case False
    obtain m where n: "n = Suc m" using w(2) by (cases n) auto
    have tk: "take n (c # s) = c # take m s" by (simp add: n)
    have "utf8_width (c # (take m s @ t)) = n"
      using utf8_width_take [of "c # s" t] w by (simp add: tk del: utf8_width.simps)
    moreover have "length (take m s) = m"
      using utf8_width_le_length [of "c # s"] w n by simp
    moreover have "c \<noteq> backslash" "c \<noteq> quote" using c by auto
    ultimately show ?thesis
      using False c n by (simp add: escape_rune_def tk Let_def del: utf8_width.simps)
  qed
qed

theorem unquote_escape: "valid_utf8 s \<Longrightarrow> unquote (escape s) = Some s"
proof (induction s rule: escape.induct)
  case 1
  show ?case by simp
next
  case (2 c s)
  show ?case
  proof (cases "byte c < 128")
    case True
    with "2.prems" have "valid_utf8 s" by simp
    with "2.IH"(1) True have "unquote (escape s) = Some s" by simp
    with True show ?thesis by (simp add: unquote_escape_ascii del: unquote.simps)
  next
    case False
    define n where "n = utf8_width (c # s)"
    from "2.prems" have n: "n \<noteq> 0" and v: "valid_utf8 (drop (n - 1) s)"
      by (auto simp: n_def simp del: utf8_width.simps)
    have "unquote (escape (drop (n - 1) s)) = Some (drop (n - 1) s)"
      using "2.IH"(3) False n v by (simp add: n_def del: utf8_width.simps)
    moreover have "take n (c # s) @ drop (n - 1) s = c # s"
      using n by (cases n) auto
    moreover have "escape (c # s) = escape_rune (take n (c # s)) @ escape (drop (n - 1) s)"
      using False n by (simp add: n_def Let_def del: utf8_width.simps)
    ultimately show ?thesis
      using unquote_rune [of c s n "escape (drop (n - 1) s)"] False n
      by (simp add: n_def del: unquote.simps utf8_width.simps escape.simps)
  qed
qed

end
