(* ===== verification/Json_Scan.thy ===== *)
theory Json_Scan
  imports Go_Json
begin

text \<open>
  The JSON scanner: one transition per byte, with the stack of open arrays and objects, so that
  every input is read in one pass and no fuel is needed. The values built keep the text of
  strings and numbers as it stands in the input, as the library's decoder does.
\<close>

datatype json =
    JNull
  | JBool bool
  | JNum string
  | JStr string
  | JArr "json list"
  | JObj "(string \<times> json) list"

text \<open>Open containers, with what they hold so far in reverse order.\<close>

datatype frame =
    InArr "json list"
  | InObj "(string \<times> json) list"
  | InObjVal "(string \<times> json) list" string

datatype num_state = NNeg | NZero | NInt | NDot | NFrac | NExp | NExpSign | NExpDigits

datatype lex =
    BeginValue
  | BeginValueOrEmpty
  | BeginString
  | BeginStringOrEmpty
  | AfterKey string
  | EndValue
  | EndTop json
  | InStr string
  | InStrEsc string
  | InStrHex nat string
  | InNum num_state string
  | InLit string json
  | Bad

type_synonym scan = "lex \<times> frame list"

definition is_space :: "char \<Rightarrow> bool" where
  "is_space c \<longleftrightarrow> c = CHR '' '' \<or> byte c = 9 \<or> byte c = 13 \<or> byte c = 10"

definition maxNestingDepth :: nat where "maxNestingDepth = 10000"

text \<open>A value is complete: it goes to the container on top of the stack.\<close>

fun value_done :: "json \<Rightarrow> frame list \<Rightarrow> scan" where
  "value_done v [] = (EndTop v, [])"
| "value_done v (InArr vs # fs) = (EndValue, InArr (v # vs) # fs)"
| "value_done v (InObjVal ms k # fs) = (EndValue, InObj ((k, v) # ms) # fs)"
| "value_done v (InObj ms # fs) = (Bad, InObj ms # fs)"

text \<open>A string is complete: a key of the object on top of the stack, or a value.\<close>

fun string_done :: "string \<Rightarrow> frame list \<Rightarrow> scan" where
  "string_done s (InObj ms # fs) = (AfterKey s, InObj ms # fs)"
| "string_done s fs = value_done (JStr s) fs"

definition push :: "lex \<Rightarrow> frame \<Rightarrow> frame list \<Rightarrow> scan" where
  "push l f fs = (if length fs < maxNestingDepth then (l, f # fs) else (Bad, fs))"

definition begin_value :: "char \<Rightarrow> frame list \<Rightarrow> scan" where
  "begin_value c fs =
     (if c = CHR ''{'' then push BeginStringOrEmpty (InObj []) fs
      else if c = CHR ''['' then push BeginValueOrEmpty (InArr []) fs
      else if c = quote then (InStr [], fs)
      else if c = CHR ''-'' then (InNum NNeg [c], fs)
      else if c = CHR ''0'' then (InNum NZero [c], fs)
      else if c = CHR ''t'' then (InLit ''rue'' (JBool True), fs)
      else if c = CHR ''f'' then (InLit ''alse'' (JBool False), fs)
      else if c = CHR ''n'' then (InLit ''ull'' JNull, fs)
      else if is_digit c then (InNum NInt [c], fs)
      else (Bad, fs))"

text \<open>The byte after a value, in the container on top of the stack.\<close>

fun end_value :: "char \<Rightarrow> frame list \<Rightarrow> scan" where
  "end_value c [] = (Bad, [])"
| "end_value c (InArr vs # fs) =
     (if is_space c then (EndValue, InArr vs # fs)
      else if c = CHR '','' then (BeginValue, InArr vs # fs)
      else if c = CHR '']'' then value_done (JArr (rev vs)) fs
      else (Bad, fs))"
| "end_value c (InObj ms # fs) =
     (if is_space c then (EndValue, InObj ms # fs)
      else if c = CHR '','' then (BeginString, InObj ms # fs)
      else if c = CHR ''}'' then value_done (JObj (rev ms)) fs
      else (Bad, fs))"
| "end_value c (InObjVal ms k # fs) = (Bad, fs)"

text \<open>The next state inside a number, or \<open>None\<close> when the byte does not belong to it.\<close>

fun num_next :: "num_state \<Rightarrow> char \<Rightarrow> num_state option" where
  "num_next NNeg c = (if c = CHR ''0'' then Some NZero else if is_digit c then Some NInt else None)"
| "num_next NZero c =
     (if c = CHR ''.'' then Some NDot else if c = CHR ''e'' \<or> c = CHR ''E'' then Some NExp else None)"
| "num_next NInt c =
     (if is_digit c then Some NInt else if c = CHR ''.'' then Some NDot
      else if c = CHR ''e'' \<or> c = CHR ''E'' then Some NExp else None)"
| "num_next NDot c = (if is_digit c then Some NFrac else None)"
| "num_next NFrac c =
     (if is_digit c then Some NFrac else if c = CHR ''e'' \<or> c = CHR ''E'' then Some NExp else None)"
| "num_next NExp c =
     (if c = CHR ''+'' \<or> c = CHR ''-'' then Some NExpSign
      else if is_digit c then Some NExpDigits else None)"
| "num_next NExpSign c = (if is_digit c then Some NExpDigits else None)"
| "num_next NExpDigits c = (if is_digit c then Some NExpDigits else None)"

fun num_final :: "num_state \<Rightarrow> bool" where
  "num_final NZero = True"
| "num_final NInt = True"
| "num_final NFrac = True"
| "num_final NExpDigits = True"
| "num_final _ = False"

text \<open>One byte after a complete top-level value: only white space may follow.\<close>

definition after_top :: "json \<Rightarrow> char \<Rightarrow> scan" where
  "after_top v c = (if is_space c then (EndTop v, []) else (Bad, []))"

definition after_value :: "char \<Rightarrow> scan \<Rightarrow> scan" where
  "after_value c st =
     (case st of
        (EndTop v, fs) \<Rightarrow> after_top v c
      | (EndValue, fs) \<Rightarrow> end_value c fs
      | (_, fs) \<Rightarrow> (Bad, fs))"

fun scan_step :: "scan \<Rightarrow> char \<Rightarrow> scan" where
  "scan_step (BeginValue, fs) c = (if is_space c then (BeginValue, fs) else begin_value c fs)"
| "scan_step (BeginValueOrEmpty, fs) c =
     (if is_space c then (BeginValueOrEmpty, fs)
      else if c = CHR '']'' then end_value c fs else begin_value c fs)"
| "scan_step (BeginString, fs) c =
     (if is_space c then (BeginString, fs) else if c = quote then (InStr [], fs) else (Bad, fs))"
| "scan_step (BeginStringOrEmpty, fs) c =
     (if is_space c then (BeginStringOrEmpty, fs)
      else if c = CHR ''}'' then end_value c fs
      else if c = quote then (InStr [], fs) else (Bad, fs))"
| "scan_step (AfterKey k, fs) c =
     (if is_space c then (AfterKey k, fs)
      else if c = CHR '':'' then
        (case fs of InObj ms # fs' \<Rightarrow> (BeginValue, InObjVal ms k # fs') | _ \<Rightarrow> (Bad, fs))
      else (Bad, fs))"
| "scan_step (EndValue, fs) c = end_value c fs"
| "scan_step (EndTop v, fs) c = after_top v c"
| "scan_step (InStr acc, fs) c =
     (if c = quote then string_done (rev acc) fs
      else if c = backslash then (InStrEsc (c # acc), fs)
      else if byte c < 32 then (Bad, fs)
      else (InStr (c # acc), fs))"
| "scan_step (InStrEsc acc, fs) c =
     (if c = CHR ''u'' then (InStrHex 4 (c # acc), fs)
      else if simple_escape c \<noteq> None then (InStr (c # acc), fs)
      else (Bad, fs))"
| "scan_step (InStrHex n acc, fs) c =
     (if hex_val c = None then (Bad, fs)
      else if n \<le> 1 then (InStr (c # acc), fs)
      else (InStrHex (n - 1) (c # acc), fs))"
| "scan_step (InNum s acc, fs) c =
     (case num_next s c of
        Some s' \<Rightarrow> (InNum s' (c # acc), fs)
      | None \<Rightarrow>
          if num_final s then after_value c (value_done (JNum (rev acc)) fs) else (Bad, fs))"
| "scan_step (InLit rest v, fs) c =
     (case rest of
        [] \<Rightarrow> (Bad, fs)
      | d # ds \<Rightarrow>
          if c \<noteq> d then (Bad, fs)
          else if ds = [] then value_done v fs else (InLit ds v, fs))"
| "scan_step (Bad, fs) c = (Bad, fs)"

definition scan :: "scan \<Rightarrow> string \<Rightarrow> scan" where
  "scan st s = foldl scan_step st s"

text \<open>At the end of the input a top-level number may still be open.\<close>

definition scan_eof :: "scan \<Rightarrow> json option" where
  "scan_eof st =
     (case st of
        (EndTop v, fs) \<Rightarrow> Some v
      | (InNum s acc, fs) \<Rightarrow> if num_final s \<and> fs = [] then Some (JNum (rev acc)) else None
      | _ \<Rightarrow> None)"

definition json_parse :: "string \<Rightarrow> json option" where
  "json_parse s = scan_eof (scan (BeginValue, []) s)"

lemma scan_Nil [simp]: "scan st [] = st"
  by (simp add: scan_def)
lemma scan_Cons [simp]: "scan st (c # s) = scan (scan_step st c) s"
  by (simp add: scan_def)
lemma scan_append [simp]: "scan st (s @ t) = scan (scan st s) t"
  by (simp add: scan_def)

section \<open>Scanning what Marshal writes\<close>

lemma scan_hex4:
  assumes "hex_val a \<noteq> None" "hex_val b \<noteq> None" "hex_val c \<noteq> None" "hex_val d \<noteq> None"
  shows "scan (InStr acc, fs) [backslash, CHR ''u'', a, b, c, d] =
           (InStr (d # c # b # a # CHR ''u'' # backslash # acc), fs)"
  using assms by simp

lemma hex_val_hex_digit_char: "byte c < 128 \<Longrightarrow>
   hex_val (hex_digit (byte c div 16)) \<noteq> None \<and> hex_val (hex_digit (byte c mod 16)) \<noteq> None"
  by (simp add: hex_val_hex_digit)

lemma scan_escape_ascii:
  assumes "byte c < 128"
  shows "scan (InStr acc, fs) (escape_ascii c) = (InStr (rev (escape_ascii c) @ acc), fs)"
proof (cases "short_escape c")
  case (Some e)
  with short_escape_simple [OF Some] show ?thesis by (simp add: escape_ascii_def)
next
  case None
  show ?thesis
  proof (cases "byte c < 32 \<or> c = CHR ''<'' \<or> c = CHR ''>'' \<or> c = CHR ''&''")
    case True
    then have e: "escape_ascii c = [backslash, CHR ''u'', CHR ''0'', CHR ''0'',
        hex_digit (byte c div 16), hex_digit (byte c mod 16)]"
      using None by (simp add: escape_ascii_def)
    have "hex_val (CHR ''0'') \<noteq> None" by (simp add: hex_val_def)
    then show ?thesis
      using hex_val_hex_digit_char [OF assms] unfolding e by (subst scan_hex4) auto
  next
    case False
    with None short_escape_None [OF None] show ?thesis by (simp add: escape_ascii_def)
  qed
qed

lemma scan_high_bytes:
  "\<forall>c\<in>set s. 128 \<le> byte c \<Longrightarrow> scan (InStr acc, fs) s = (InStr (rev s @ acc), fs)"
proof (induction s arbitrary: acc)
  case (Cons c s)
  then have "c \<noteq> quote" "c \<noteq> backslash" by auto
  with Cons show ?case by simp
qed simp

lemma utf8_rune_high:
  "128 \<le> byte c \<Longrightarrow> utf8_width (c # s) = n \<Longrightarrow> \<forall>d\<in>set (take n (c # s)). 128 \<le> byte d"
  by (auto simp: cont_def split: list.splits if_splits)

lemma scan_rune:
  assumes c: "128 \<le> byte c" and w: "utf8_width (c # s) = n"
  shows "scan (InStr acc, fs) (escape_rune (take n (c # s))) =
           (InStr (rev (escape_rune (take n (c # s))) @ acc), fs)"
proof -
  have "hex_val (CHR ''2'') = Some 2" "hex_val (CHR ''0'') = Some 0"
    "hex_val (CHR ''8'') = Some 8" "hex_val (CHR ''9'') = Some 9"
    by (simp_all add: hex_val_def)
  then show ?thesis
    using scan_high_bytes [OF utf8_rune_high [OF c w]]
    by (simp add: escape_rune_def)
qed

lemma scan_escape:
  "scan (InStr acc, fs) (escape s) = (InStr (rev (escape s) @ acc), fs)"
proof (induction s arbitrary: acc rule: escape.induct)
  case 1
  show ?case by simp
next
  case (2 c s)
  define n where "n = utf8_width (c # s)"
  consider (ascii) "byte c < 128" | (bad) "128 \<le> byte c" "n = 0" | (rune) "128 \<le> byte c" "n \<noteq> 0"
    by linarith
  then show ?case
  proof cases
    case ascii
    with "2.IH"(1) show ?thesis by (simp add: scan_escape_ascii)
  next
    case bad
    have "hex_val (CHR ''f'') = Some 15" "hex_val (CHR ''d'') = Some 13" by (simp_all add: hex_val_def)
    moreover have "escape (c # s) = (backslash # ''ufffd'') @ escape s"
      using bad by (simp add: n_def Let_def del: utf8_width.simps)
    ultimately show ?thesis using "2.IH"(2) bad by (simp add: n_def del: utf8_width.simps escape.simps)
  next
    case rune
    have "escape (c # s) = escape_rune (take n (c # s)) @ escape (drop (n - 1) s)"
      using rune by (simp add: n_def Let_def del: utf8_width.simps)
    then show ?thesis
      using rune "2.IH"(3) scan_rune [OF rune(1) n_def [symmetric]]
      by (simp add: n_def del: utf8_width.simps escape.simps)
  qed
qed

lemma scan_json_string:
  "scan (BeginValue, fs) (json_string s) = string_done (escape s) fs"
  "scan (BeginString, fs) (json_string s) = string_done (escape s) fs"
  "scan (BeginStringOrEmpty, fs) (json_string s) = string_done (escape s) fs"
  by (simp_all add: json_string_def scan_escape begin_value_def is_space_def)

text \<open>A decimal number, up to the byte that ends it.\<close>

lemma scan_digits:
  "\<forall>c\<in>set s. is_digit c \<Longrightarrow> scan (InNum NInt acc, fs) s = (InNum NInt (rev s @ acc), fs)"
  by (induction s arbitrary: acc) auto

lemma begin_value_digit:
  assumes "is_digit c"
  shows "begin_value c fs = (InNum (if c = CHR ''0'' then NZero else NInt) [c], fs)"
proof -
  have "c \<noteq> CHR ''{''" "c \<noteq> CHR ''[''" "c \<noteq> quote" "c \<noteq> CHR ''-''" "c \<noteq> CHR ''t''"
    "c \<noteq> CHR ''f''" "c \<noteq> CHR ''n''"
    using assms by (auto simp: is_digit_def)
  with assms show ?thesis by (simp add: begin_value_def)
qed

lemma scan_show_int:
  "\<exists>z. scan (BeginValue, fs) (show_int i) = (InNum z (rev (show_int i)), fs) \<and> (z = NZero \<or> z = NInt)"
proof -
  have nat: "\<exists>z. scan (case st of None \<Rightarrow> (BeginValue, fs) | Some a \<Rightarrow> (InNum NNeg a, fs)) (show_nat n) =
      (InNum z (rev (show_nat n) @ (case st of None \<Rightarrow> [] | Some a \<Rightarrow> a)), fs) \<and> (z = NZero \<or> z = NInt)"
    for n and st :: "string option"
  proof (cases "n = 0")
    case True
    then show ?thesis
      by (auto simp: show_nat_zero begin_value_digit is_space_def is_digit_def split: option.splits)
  next
    case False
    obtain c cs where s: "show_nat n = c # cs" by (cases "show_nat n") auto
    have c: "is_digit c" and cs: "\<forall>d\<in>set cs. is_digit d"
      using show_nat_digits [of _ n] by (auto simp: s)
    have "c \<noteq> CHR ''0''" using show_nat_hd [of n] False s by simp
    moreover have "\<not> is_space c" using c by (auto simp: is_space_def is_digit_def)
    ultimately show ?thesis
      using c scan_digits [OF cs] by (auto simp: s begin_value_digit split: option.splits)
  qed
  show ?thesis
  proof (cases "i < 0")
    case True
    then show ?thesis
      using nat [of "Some [CHR ''-'']" "nat (- i)"]
      by (auto simp: show_int_def begin_value_def is_space_def)
  next
    case False
    then show ?thesis using nat [of None "nat i"] by (auto simp: show_int_def)
  qed
qed

end
