(* ===== verification/Json_Codec.thy ===== *)
theory Json_Codec
  imports Json_Scan Models
begin

text \<open>
  The JSON values the code reads and writes: the queue contract (\<open>QueueMessage\<close>), the response of
  the webhook, the body posted to the webhook, and the record the idempotency service keeps in
  Redis. The texts of decoding errors are not modelled: an error is one fixed value.
\<close>

section \<open>Decoding an object into a struct\<close>

text \<open>
  The library looks a key up among the field names of the struct tags, first as it is, then
  under case folding; two letters outside ASCII fold to ASCII ones (U+017F and U+212A).
\<close>

definition to_upper :: "char \<Rightarrow> char" where
  "to_upper c = (if 97 \<le> byte c \<and> byte c \<le> 122 then char_of (byte c - 32) else c)"

fun fold_name :: "string \<Rightarrow> string" where
  "fold_name [] = []"
| "fold_name [c] = [to_upper c]"
| "fold_name (c # d # s) =
     (if c = CHR 0xC5 \<and> d = CHR 0xBF then CHR ''S'' # fold_name s
      else if c = CHR 0xE2 \<and> d = CHR 0x84 \<and> s \<noteq> [] \<and> hd s = CHR 0xAA
        then CHR ''K'' # fold_name (tl s)
      else to_upper c # fold_name (d # s))"

type_synonym 'r field = "string \<times> (json \<Rightarrow> 'r \<Rightarrow> 'r option)"

definition find_field :: "'r field list \<Rightarrow> string \<Rightarrow> (json \<Rightarrow> 'r \<Rightarrow> 'r option) option" where
  "find_field tags key =
     (case map_of tags key of
        Some f \<Rightarrow> Some f
      | None \<Rightarrow> map_of (map (\<lambda>(n, f). (fold_name n, f)) tags) (fold_name key))"

text \<open>A null leaves a field alone; a value of another type is an error.\<close>

definition into_string :: "(string \<Rightarrow> 'r \<Rightarrow> 'r) \<Rightarrow> json \<Rightarrow> 'r \<Rightarrow> 'r option" where
  "into_string upd v r =
     (case v of
        JStr raw \<Rightarrow> map_option (\<lambda>s. upd s r) (unquote raw)
      | JNull \<Rightarrow> Some r
      | _ \<Rightarrow> None)"

definition into_int :: "(int \<Rightarrow> 'r \<Rightarrow> 'r) \<Rightarrow> json \<Rightarrow> 'r \<Rightarrow> 'r option" where
  "into_int upd v r =
     (case v of
        JNum t \<Rightarrow> (case parse_int t of
                    Some n \<Rightarrow> if in_int64 n then Some (upd n r) else None
                  | None \<Rightarrow> None)
      | JNull \<Rightarrow> Some r
      | _ \<Rightarrow> None)"

primrec decode_members :: "'r field list \<Rightarrow> (string \<times> json) list \<Rightarrow> 'r \<Rightarrow> 'r option" where
  "decode_members tags [] r = Some r"
| "decode_members tags (m # ms) r =
     (case unquote (fst m) of
        None \<Rightarrow> None
      | Some key \<Rightarrow>
          (case find_field tags key of
             None \<Rightarrow> decode_members tags ms r
           | Some f \<Rightarrow>
               (case f (snd m) r of
                  None \<Rightarrow> None
                | Some r' \<Rightarrow> decode_members tags ms r')))"

definition json_error :: go_error where
  "json_error = GoErr ''json''"

definition unmarshal_struct :: "'r field list \<Rightarrow> string \<Rightarrow> 'r \<Rightarrow> 'r result" where
  "unmarshal_struct tags s r =
     (case json_parse s of
        Some (JObj ms) \<Rightarrow>
          (case decode_members tags ms r of Some r' \<Rightarrow> Inr r' | None \<Rightarrow> Inl json_error)
      | Some JNull \<Rightarrow> Inr r
      | _ \<Rightarrow> Inl json_error)"

section \<open>Writing an object\<close>

definition json_member :: "string \<Rightarrow> string \<Rightarrow> string" where
  "json_member key val = json_string key @ CHR '':'' # val"

section \<open>The queue contract\<close>

definition queue_message_fields :: "queue_message field list" where
  "queue_message_fields =
     [(''id'', into_string (\<lambda>s. qm_ID_update (\<lambda>_. s))),
      (''content'', into_string (\<lambda>s. qm_Content_update (\<lambda>_. s))),
      (''to'', into_string (\<lambda>s. qm_To_update (\<lambda>_. s))),
      (''retry'', into_int (\<lambda>n. qm_Retry_update (\<lambda>_. n)))]"

definition unmarshal_queue_message :: "string \<Rightarrow> queue_message \<Rightarrow> queue_message result" where
  "unmarshal_queue_message = unmarshal_struct queue_message_fields"

definition marshal_queue_message :: "queue_message \<Rightarrow> string" where
  "marshal_queue_message q =
     CHR ''{'' # json_member ''id'' (json_string (qm_ID q)) @
     CHR '','' # json_member ''content'' (json_string (qm_Content q)) @
     CHR '','' # json_member ''to'' (json_string (qm_To q)) @
     CHR '','' # json_member ''retry'' (show_int (qm_Retry q)) @ ''}''"

section \<open>The webhook\<close>

definition webhook_response_fields :: "webhook_response field list" where
  "webhook_response_fields =
     [(''message'', into_string (\<lambda>s. wr_Message_update (\<lambda>_. s))),
      (''messageId'', into_string (\<lambda>s. wr_MessageID_update (\<lambda>_. s)))]"

definition unmarshal_webhook_response :: "string \<Rightarrow> webhook_response \<Rightarrow> webhook_response result" where
  "unmarshal_webhook_response = unmarshal_struct webhook_response_fields"

text \<open>\<open>json.Marshal\<close> of a map writes its keys in sorted order: \<open>content\<close> before \<open>to\<close>.\<close>

definition marshal_webhook_body :: "string \<Rightarrow> string \<Rightarrow> string" where
  "marshal_webhook_body content to =
     CHR ''{'' # json_member ''content'' (json_string content) @
     CHR '','' # json_member ''to'' (json_string to) @ ''}''"

section \<open>The record of the idempotency service\<close>

definition marshal_processed :: "int \<Rightarrow> string" where
  "marshal_processed timestamp =
     CHR ''{'' # json_member ''status'' (json_string ''processed'') @
     CHR '','' # json_member ''timestamp'' (show_int timestamp) @ ''}''"

text \<open>
  Decoding into \<open>map[string]interface{}\<close>: numbers become float64, and one that overflows (it
  rounds to an infinity) is an error; of equal keys the last wins; null gives a nil map.
\<close>

definition number_fits :: "string \<Rightarrow> bool" where
  "number_fits t =
     (let u = (if t \<noteq> [] \<and> hd t = CHR ''-'' then tl t else t);
          ip = takeWhile is_digit u;
          r = dropWhile is_digit u;
          fp = (if r \<noteq> [] \<and> hd r = CHR ''.'' then takeWhile is_digit (tl r) else []);
          r' = (if r \<noteq> [] \<and> hd r = CHR ''.'' then dropWhile is_digit (tl r) else r);
          ex = (if r' = [] then 0 else case parse_int (tl r') of Some n \<Rightarrow> n | None \<Rightarrow> 0);
          e = ex - int (length fp);
          m = digits_val (ip @ fp)
      in if 0 \<le> e then m * 10 ^ nat e < 2 ^ 1024 - 2 ^ 970
         else m < (2 ^ 1024 - 2 ^ 970) * 10 ^ nat (- e))"

fun numbers_fit :: "json \<Rightarrow> bool" where
  "numbers_fit (JNum t) = number_fits t"
| "numbers_fit (JArr vs) = (\<forall>v\<in>set vs. numbers_fit v)"
| "numbers_fit (JObj ms) = (\<forall>m\<in>set ms. numbers_fit (snd m))"
| "numbers_fit _ = True"

definition decode_map :: "(string \<times> json) list \<Rightarrow> (string \<rightharpoonup> json)" where
  "decode_map ms =
     foldl (\<lambda>acc m. case unquote (fst m) of Some k \<Rightarrow> acc(k \<mapsto> snd m) | None \<Rightarrow> acc) Map.empty ms"

definition unmarshal_map :: "string \<Rightarrow> (string \<rightharpoonup> json) result" where
  "unmarshal_map s =
     (case json_parse s of
        Some (JObj ms) \<Rightarrow> if numbers_fit (JObj ms) then Inr (decode_map ms) else Inl json_error
      | Some JNull \<Rightarrow> Inr Map.empty
      | _ \<Rightarrow> Inl json_error)"

section \<open>Round trips\<close>

definition plain_char :: "char \<Rightarrow> bool" where
  "plain_char c \<longleftrightarrow> 32 \<le> byte c \<and> byte c < 128 \<and> c \<noteq> quote \<and> c \<noteq> backslash \<and>
     c \<noteq> CHR ''<'' \<and> c \<noteq> CHR ''>'' \<and> c \<noteq> CHR ''&''"

lemma plain_char_no_control:
  "plain_char c \<Longrightarrow> c \<noteq> CHR 0x08" "plain_char c \<Longrightarrow> c \<noteq> CHR 0x0C"
  "plain_char c \<Longrightarrow> c \<noteq> CHR 0x0A" "plain_char c \<Longrightarrow> c \<noteq> CHR 0x0D"
  "plain_char c \<Longrightarrow> c \<noteq> CHR 0x09" "plain_char c \<Longrightarrow> c \<noteq> quote"
  "plain_char c \<Longrightarrow> c \<noteq> backslash" "plain_char c \<Longrightarrow> c \<noteq> CHR ''<''"
  "plain_char c \<Longrightarrow> c \<noteq> CHR ''>''" "plain_char c \<Longrightarrow> c \<noteq> CHR ''&''"
  by (rule notI; simp add: plain_char_def)+

lemma plain_char_range: "plain_char c \<Longrightarrow> \<not> byte c < 32" "plain_char c \<Longrightarrow> byte c < 128"
  by (simp_all only: plain_char_def not_less)

lemma escape_ascii_plain: "plain_char c \<Longrightarrow> escape_ascii c = [c]"
  by (simp add: escape_ascii_def short_escape_def plain_char_no_control plain_char_range)

lemma escape_plain: "list_all plain_char s \<Longrightarrow> escape s = s"
proof (induction s)
  case (Cons c s)
  then have "byte c < 128" by (simp add: plain_char_range)
  with Cons show ?case by (simp add: escape_ascii_plain del: utf8_width.simps)
qed simp

lemma scan_open:
  "length fs < maxNestingDepth \<Longrightarrow>
     scan (BeginValue, fs) (CHR ''{'' # s) = scan (BeginStringOrEmpty, InObj [] # fs) s"
  by (simp add: is_space_def begin_value_def push_def)

lemma scan_comma:
  "scan (EndValue, InObj ms # fs) (CHR '','' # s) = scan (BeginString, InObj ms # fs) s"
  by (simp add: is_space_def)

lemma scan_close: "scan (EndValue, InObj ms # fs) ''}'' = value_done (JObj (rev ms)) fs"
  by (simp add: is_space_def)

lemma scan_key:
  assumes "l = BeginString \<or> l = BeginStringOrEmpty"
  shows "scan (l, InObj ms # fs) (json_member k s) = scan (BeginValue, InObjVal ms (escape k) # fs) s"
  using assms by (auto simp: json_member_def scan_json_string is_space_def)

lemma json_member_append: "json_member k v @ s = json_member k (v @ s)"
  by (simp add: json_member_def)

lemma scan_member_string:
  assumes "l = BeginString \<or> l = BeginStringOrEmpty"
  shows "scan (l, InObj ms # fs) (json_member k (json_string v) @ s) =
           scan (EndValue, InObj ((escape k, JStr (escape v)) # ms) # fs) s"
  unfolding json_member_append scan_key [OF assms] by (simp add: scan_json_string)

lemma scan_member_int_close:
  assumes "l = BeginString \<or> l = BeginStringOrEmpty"
  shows "scan (l, InObj ms # fs) (json_member k (show_int i) @ ''}'') =
           value_done (JObj (rev ((escape k, JNum (show_int i)) # ms))) fs"
proof -
  obtain z where z: "scan (BeginValue, InObjVal ms (escape k) # fs) (show_int i) =
      (InNum z (rev (show_int i)), InObjVal ms (escape k) # fs)" and "z = NZero \<or> z = NInt"
    using scan_show_int by blast
  then have "num_next z (CHR ''}'') = None" "num_final z" by (auto simp: is_digit_def)
  with z show ?thesis
    unfolding json_member_append scan_key [OF assms] by (simp add: after_value_def is_space_def)
qed

lemmas scan_object =
  scan_open scan_comma scan_close scan_member_string scan_member_int_close

lemma escape_names:
  "escape ''id'' = ''id''" "escape ''content'' = ''content''" "escape ''to'' = ''to''"
  "escape ''retry'' = ''retry''" "escape ''status'' = ''status''"
  "escape ''timestamp'' = ''timestamp''" "escape ''processed'' = ''processed''"
  by (rule escape_plain; simp add: plain_char_def)+

lemma unquote_names:
  "unquote ''id'' = Some ''id''" "unquote ''content'' = Some ''content''"
  "unquote ''to'' = Some ''to''" "unquote ''retry'' = Some ''retry''"
  "unquote ''status'' = Some ''status''" "unquote ''timestamp'' = Some ''timestamp''"
  "unquote ''processed'' = Some ''processed''"
  by simp_all

lemma parse_queue_message:
  "json_parse (marshal_queue_message q) =
     Some (JObj [(''id'', JStr (escape (qm_ID q))), (''content'', JStr (escape (qm_Content q))),
                 (''to'', JStr (escape (qm_To q))), (''retry'', JNum (show_int (qm_Retry q)))])"
  by (simp add: json_parse_def marshal_queue_message_def scan_object escape_names scan_eof_def
      maxNestingDepth_def del: scan_append scan_Cons escape.simps)

lemma queue_message_round_trip:
  assumes "valid_utf8 (qm_ID q)" "valid_utf8 (qm_Content q)" "valid_utf8 (qm_To q)"
    and "in_int64 (qm_Retry q)"
  shows "unmarshal_queue_message (marshal_queue_message q) q\<^sub>0 = Inr q"
  using assms
  by (simp add: unmarshal_queue_message_def unmarshal_struct_def parse_queue_message
      queue_message_fields_def find_field_def unquote_names into_string_def into_int_def
      unquote_escape del: unquote.simps)

text \<open>The record the idempotency service writes decodes to a map whose status is \<open>processed\<close>.\<close>

lemma parse_processed:
  "json_parse (marshal_processed ts) =
     Some (JObj [(''status'', JStr ''processed''), (''timestamp'', JNum (show_int ts))])"
  by (simp add: json_parse_def marshal_processed_def scan_object escape_names scan_eof_def
      maxNestingDepth_def del: scan_append scan_Cons escape.simps)

lemma takeWhile_show_nat: "takeWhile is_digit (show_nat n) = show_nat n"
  using show_nat_digits by (simp add: takeWhile_eq_all_conv)

lemma number_fits_digits:
  assumes "t = show_nat n \<or> t = CHR ''-'' # show_nat n"
  shows "number_fits t \<longleftrightarrow> n < 2 ^ 1024 - 2 ^ 970"
proof -
  have "hd (show_nat n) \<noteq> CHR ''-''"
    using show_nat_digits [of "hd (show_nat n)" n] by (auto simp: is_digit_def)
  then have u: "(if t \<noteq> [] \<and> hd t = CHR ''-'' then tl t else t) = show_nat n"
    using assms by auto
  have d: "dropWhile is_digit (show_nat n) = []" using show_nat_digits by simp
  show ?thesis
    unfolding number_fits_def u Let_def by (simp add: takeWhile_show_nat d)
qed

lemma number_fits_show_int:
  assumes "in_int64 ts"
  shows "number_fits (show_int ts)"
proof -
  define n where "n = (if ts < 0 then nat (- ts) else nat ts)"
  have "show_int ts = show_nat n \<or> show_int ts = CHR ''-'' # show_nat n"
    by (simp add: show_int_def n_def)
  moreover have "n \<le> 2 ^ 63"
    using assms by (auto simp: n_def in_int64_def int64_min_def int64_max_def)
  then have "n < 2 ^ 1024 - 2 ^ 970" by (rule le_less_trans) simp
  ultimately show ?thesis by (simp only: number_fits_digits)
qed

lemma unmarshal_processed:
  assumes "in_int64 ts"
  shows "unmarshal_map (marshal_processed ts) =
           Inr [''status'' \<mapsto> JStr ''processed'', ''timestamp'' \<mapsto> JNum (show_int ts)]"
  using number_fits_show_int [OF assms]
  by (simp add: unmarshal_map_def parse_processed decode_map_def unquote_names del: unquote.simps)

text \<open>The body posted to the webhook.\<close>

lemma parse_webhook_body:
  "json_parse (marshal_webhook_body content to') =
     Some (JObj [(''content'', JStr (escape content)), (''to'', JStr (escape to'))])"
proof -
  have "scan (BeginString, InObj ms # fs) (json_member ''to'' (json_string to') @ ''}'') =
      value_done (JObj (rev ((''to'', JStr (escape to')) # ms))) fs" for ms fs
    by (simp add: scan_object escape_names del: scan_append scan_Cons escape.simps)
  then show ?thesis
    by (simp add: json_parse_def marshal_webhook_body_def scan_object escape_names scan_eof_def
        maxNestingDepth_def del: scan_append scan_Cons escape.simps)
qed

end
