(* ===== verification/Message_Queue.thy ===== *)
theory Message_Queue
  imports Services Json_Codec
begin

text \<open>
  \<open>shared/ports/rabbitmq/interfaces\<close> and \<open>shared/adapters/message_queue_adapter.go\<close>: the queue
  port and its RabbitMQ adapter, with the declaration of the exchanges and queues.
\<close>

section \<open>The port\<close>

record message_queue =
  PublishMessage :: "queue_message \<Rightarrow> go_error option prog"
  ConsumeMessages :: "string \<Rightarrow> go_error option prog"
  MoveToDeadLetter :: "delivery \<Rightarrow> go_error option prog"
  MoveToRetryQueue :: "delivery \<Rightarrow> go_error option prog"
  GetDLQMessageCount :: "int result prog"
  CloseQueue :: "unit prog"

section \<open>The adapter\<close>

text \<open>The two handles of the adapter; \<open>Close\<close> skips one that is nil.\<close>

record rabbitMQAdapter =
  has_conn :: bool
  has_channel :: bool

definition rabbit_Close :: "rabbitMQAdapter \<Rightarrow> unit prog" where
  "rabbit_Close mq =
     bind (if has_channel mq then perform_ignoring AmqpCloseChannel (Return ()) else Return ())
       (\<lambda>_. if has_conn mq then perform_ignoring AmqpCloseConnection (Return ()) else Return ())"

text \<open>\<open>if err != nil { return fmt.Errorf(msg, err) }\<close> after a call.\<close>

definition or_return :: "eff \<Rightarrow> string \<Rightarrow> go_error option prog \<Rightarrow> go_error option prog" where
  "or_return e msg p =
     Do e (\<lambda>r. case r of None \<Rightarrow> p | Some err \<Rightarrow> Return (Some (Errorf msg err)))"

definition no_args :: queue_args where
  "no_args = \<lparr>x_message_ttl = None, x_dead_letter_exchange = None, x_dead_letter_routing_key = None\<rparr>"

definition main_args :: queue_args where
  "main_args =
     \<lparr>x_message_ttl = None, x_dead_letter_exchange = Some RetryExchange,
      x_dead_letter_routing_key = Some RetryQueueName\<rparr>"

definition retry_args :: queue_args where
  "retry_args =
     \<lparr>x_message_ttl = Some 10000, x_dead_letter_exchange = Some MainExchange,
      x_dead_letter_routing_key = Some MainQueueName\<rparr>"

definition setupQueues :: "go_error option prog" where
  "setupQueues =
     or_return (AmqpExchangeDeclare MainExchange ''direct'' True) ''failed to declare main exchange'' (
     or_return (AmqpExchangeDeclare RetryExchange ''direct'' True) ''failed to declare retry exchange'' (
     or_return (AmqpQueueDeclare MainQueueName True main_args) ''failed to declare main queue'' (
     or_return (AmqpQueueDeclare RetryQueueName True retry_args) ''failed to declare retry queue'' (
     or_return (AmqpQueueDeclare DLQQueueName True no_args) ''failed to declare DLQ'' (
     or_return (AmqpQueueBind MainQueueName MainQueueName MainExchange) ''failed to bind main queue'' (
     or_return (AmqpQueueBind RetryQueueName RetryQueueName RetryExchange) ''failed to bind retry queue''
       (Return None)))))))"

definition NewMessageQueue :: "string \<Rightarrow> rabbitMQAdapter result prog" where
  "NewMessageQueue url =
     Do (AmqpDial url) (\<lambda>r. case r of
       Some err \<Rightarrow> Return (Inl (Errorf ''failed to connect to RabbitMQ'' err))
     | None \<Rightarrow>
         Do AmqpOpenChannel (\<lambda>r. case r of
           Some err \<Rightarrow>
             perform_ignoring AmqpCloseConnection (Return (Inl (Errorf ''failed to open channel'' err)))
         | None \<Rightarrow>
             let mq = \<lparr>has_conn = True, has_channel = True\<rparr> in
             bind setupQueues (\<lambda>r. case r of
               Some err \<Rightarrow> bind (rabbit_Close mq) (\<lambda>_. Return (Inl err))
             | None \<Rightarrow> Return (Inr mq))))"

text \<open>
  \<open>PublishMessage\<close>: marshalling a struct of strings and an integer cannot fail, so the code's
  branch for a marshalling error has no counterpart. The publishing has no headers.
\<close>

definition rabbit_PublishMessage :: "queue_message \<Rightarrow> go_error option prog" where
  "rabbit_PublishMessage msg =
     (let body = marshal_queue_message msg in
      Now (\<lambda>t.
        perform (AmqpPublish MainExchange MainQueueName
          \<lparr>pub_DeliveryMode = Persistent, pub_Headers = None, pub_ContentType = ''application/json'',
           pub_Body = body, pub_Timestamp = t\<rparr>)))"

definition rabbit_ConsumeMessages :: "string \<Rightarrow> go_error option prog" where
  "rabbit_ConsumeMessages queueName = perform (AmqpConsume queueName)"

text \<open>
  Both moves copy headers, content type and body of the delivery; they leave the delivery mode
  at its zero value. Nil headers become an empty table.
\<close>

definition moved_headers :: "delivery \<Rightarrow> headers option" where
  "moved_headers msg = (case Headers msg of None \<Rightarrow> Some [] | Some hs \<Rightarrow> Some hs)"

definition rabbit_MoveToDeadLetter :: "delivery \<Rightarrow> go_error option prog" where
  "rabbit_MoveToDeadLetter msg =
     Now (\<lambda>t.
       perform (AmqpPublish [] DLQQueueName
         \<lparr>pub_DeliveryMode = 0, pub_Headers = moved_headers msg, pub_ContentType = ContentType msg,
          pub_Body = Body msg, pub_Timestamp = t\<rparr>))"

definition rabbit_MoveToRetryQueue :: "delivery \<Rightarrow> go_error option prog" where
  "rabbit_MoveToRetryQueue msg =
     Now (\<lambda>t.
       perform (AmqpPublish RetryExchange RetryQueueName
         \<lparr>pub_DeliveryMode = 0, pub_Headers = moved_headers msg, pub_ContentType = ContentType msg,
          pub_Body = Body msg, pub_Timestamp = t\<rparr>))"

definition rabbit_GetDLQMessageCount :: "int result prog" where
  "rabbit_GetDLQMessageCount =
     QueueInspect DLQQueueName (\<lambda>r. case r of
       Inl err \<Rightarrow> Return (Inl (Errorf ''failed to inspect DLQ'' err))
     | Inr n \<Rightarrow> Return (Inr n))"

definition rabbitMQ :: "rabbitMQAdapter \<Rightarrow> message_queue" where
  "rabbitMQ mq =
     \<lparr>PublishMessage = rabbit_PublishMessage, ConsumeMessages = rabbit_ConsumeMessages,
      MoveToDeadLetter = rabbit_MoveToDeadLetter, MoveToRetryQueue = rabbit_MoveToRetryQueue,
      GetDLQMessageCount = rabbit_GetDLQMessageCount, CloseQueue = rabbit_Close mq\<rparr>"

lemmas rabbit_defs =
  rabbit_PublishMessage_def rabbit_ConsumeMessages_def rabbit_MoveToDeadLetter_def
  rabbit_MoveToRetryQueue_def rabbit_GetDLQMessageCount_def rabbit_Close_def

section \<open>The contract of the port\<close>

text \<open>
  Events that hand a body over to the dead letter queue or to the retry queue, with the outcome
  of the publish, and that hand a message to the main queue.
\<close>

definition to_dlq :: "string \<Rightarrow> go_error option \<Rightarrow> event \<Rightarrow> bool" where
  "to_dlq body r e \<longleftrightarrow> (\<exists>p. e = Did (AmqpPublish [] DLQQueueName p) r \<and> pub_Body p = body)"

definition to_retry :: "string \<Rightarrow> go_error option \<Rightarrow> event \<Rightarrow> bool" where
  "to_retry body r e \<longleftrightarrow>
     (\<exists>p. e = Did (AmqpPublish RetryExchange RetryQueueName p) r \<and> pub_Body p = body)"

definition to_main :: "string \<Rightarrow> go_error option \<Rightarrow> event \<Rightarrow> bool" where
  "to_main body r e \<longleftrightarrow>
     (\<exists>p. e = Did (AmqpPublish MainExchange MainQueueName p) r \<and> pub_Body p = body)"

lemma to_queue_exclusive:
  "to_dlq b r e \<Longrightarrow> \<not> to_retry b' r' e" "to_dlq b r e \<Longrightarrow> \<not> to_main b' r' e"
  "to_retry b r e \<Longrightarrow> \<not> to_main b' r' e"
  by (auto simp: to_dlq_def to_retry_def to_main_def queue_names)

lemma to_queue_publish:
  "to_dlq b r e \<Longrightarrow> is_publish e" "to_retry b r e \<Longrightarrow> is_publish e" "to_main b r e \<Longrightarrow> is_publish e"
  by (auto simp: to_dlq_def to_retry_def to_main_def is_publish_def)

text \<open>
  What a client relies on: no operation panics, all talk to the broker only, and each move makes
  exactly one publish, of the body it was given, and returns the broker's answer to it; an error
  is reported only when a call of its own failed.
\<close>

locale message_queue_port =
  fixes Q :: message_queue
  assumes PublishMessage_no_halt: "no_halt (PublishMessage Q m)"
    and ConsumeMessages_no_halt: "no_halt (ConsumeMessages Q n)"
    and MoveToDeadLetter_no_halt: "no_halt (MoveToDeadLetter Q d)"
    and MoveToRetryQueue_no_halt: "no_halt (MoveToRetryQueue Q d)"
    and GetDLQMessageCount_no_halt: "no_halt (GetDLQMessageCount Q)"
    and PublishMessage_uses: "uses (PublishMessage Q m) {Amqp, Runtime}"
    and MoveToDeadLetter_uses: "uses (MoveToDeadLetter Q d) {Amqp, Runtime}"
    and MoveToRetryQueue_uses: "uses (MoveToRetryQueue Q d) {Amqp, Runtime}"
    and GetDLQMessageCount_uses: "uses (GetDLQMessageCount Q) {Amqp}"
    and GetDLQMessageCount_trace:
      "ends (GetDLQMessageCount Q) h (Done (Inr k)) \<Longrightarrow> trace h = [Inspected DLQQueueName (Inr k)]"
    and GetDLQMessageCount_error_trace:
      "ends (GetDLQMessageCount Q) h (Done (Inl err)) \<Longrightarrow>
         \<exists>e. trace h = [Inspected DLQQueueName (Inl e)]"
    and PublishMessage_trace:
      "ends (PublishMessage Q m) h (Done r) \<Longrightarrow>
         \<exists>e. trace h = [e] \<and> to_main (marshal_queue_message m) r e"
    and MoveToDeadLetter_trace:
      "ends (MoveToDeadLetter Q d) h (Done r) \<Longrightarrow>
         \<exists>e. trace h = [e] \<and> to_dlq (Body d) r e"
    and MoveToRetryQueue_trace:
      "ends (MoveToRetryQueue Q d) h (Done r) \<Longrightarrow>
         \<exists>e. trace h = [e] \<and> to_retry (Body d) r e"
    and PublishMessage_fails: "ends (PublishMessage Q m) h (Done (Some err)) \<Longrightarrow> \<not> steady h"
    and MoveToDeadLetter_fails: "ends (MoveToDeadLetter Q d) h (Done (Some err)) \<Longrightarrow> \<not> steady h"
    and MoveToRetryQueue_fails: "ends (MoveToRetryQueue Q d) h (Done (Some err)) \<Longrightarrow> \<not> steady h"

lemma rabbit_no_halt:
  "no_halt (rabbit_PublishMessage m)" "no_halt (rabbit_ConsumeMessages n)"
  "no_halt (rabbit_MoveToDeadLetter d)" "no_halt (rabbit_MoveToRetryQueue d)"
  "no_halt rabbit_GetDLQMessageCount" "no_halt (rabbit_Close mq)"
  by (auto simp: rabbit_defs split: sum.splits)

lemma rabbit_uses:
  "uses (rabbit_PublishMessage m) {Amqp, Runtime}"
  "uses (rabbit_MoveToDeadLetter d) {Amqp, Runtime}" "uses (rabbit_MoveToRetryQueue d) {Amqp, Runtime}"
  "uses rabbit_GetDLQMessageCount {Amqp}"
  by (auto simp: rabbit_defs split: sum.splits)

interpretation rabbit: message_queue_port "rabbitMQ mq" for mq
  by unfold_locales
    (simp_all add: rabbitMQ_def rabbit_no_halt rabbit_uses,
      auto simp: rabbit_defs replay_simps to_dlq_def to_retry_def to_main_def)

section \<open>The topology\<close>

text \<open>
  The exchanges, queues and bindings a history declared: the setup succeeds exactly when all of
  them were declared, in this order, and it stops at the first failure.
\<close>

definition topology :: "eff list" where
  "topology =
     [AmqpExchangeDeclare MainExchange ''direct'' True,
      AmqpExchangeDeclare RetryExchange ''direct'' True,
      AmqpQueueDeclare MainQueueName True main_args,
      AmqpQueueDeclare RetryQueueName True retry_args,
      AmqpQueueDeclare DLQQueueName True no_args,
      AmqpQueueBind MainQueueName MainQueueName MainExchange,
      AmqpQueueBind RetryQueueName RetryQueueName RetryExchange]"

lemma ends_or_return [replay_simps]:
  "ends (or_return e msg p) h out \<longleftrightarrow>
     (\<exists>h'. h = Did e None # h' \<and> ends p h' out) \<or>
     (\<exists>err. h = [Did e (Some err)] \<and> out = Done (Some (Errorf msg err)))"
  unfolding or_return_def by (auto simp: replay_simps)

lemma setupQueues_ok:
  "ends setupQueues h (Done None) \<longleftrightarrow> h = map (\<lambda>e. Did e None) topology"
  by (auto simp: setupQueues_def topology_def replay_simps)

lemma setupQueues_error:
  assumes "ends setupQueues h (Done (Some err))"
  shows "\<exists>k e. k < length topology \<and>
           h = map (\<lambda>e. Did e None) (take k topology) @ [Did (topology ! k) (Some e)] \<and>
           root_cause err = root_cause e"
proof -
  from assms have
    "\<exists>k\<in>{0, 1, 2, 3, 4, 5, 6}. \<exists>e.
       h = map (\<lambda>e. Did e None) (take k topology) @ [Did (topology ! k) (Some e)] \<and>
       root_cause err = root_cause e"
    by (auto simp: setupQueues_def topology_def replay_simps)
  moreover have "k < length topology" if "k \<in> {0, 1, 2, 3, 4, 5, 6}" for k
    using that by (auto simp: topology_def)
  ultimately show ?thesis by blast
qed

end
