(* ===== verification/Idempotency.thy ===== *)
theory Idempotency
  imports Breaker Json_Codec
begin

text \<open>
  \<open>shared/ports/redis/interfaces\<close> and \<open>shared/adapters/idempotency_service_adapter.go\<close>: the inbox,
  the record in Redis of the messages already processed, behind a circuit breaker.
\<close>

section \<open>The port\<close>

record idempotency_service =
  IsProcessed :: "string \<Rightarrow> bool result prog"
  MarkAsProcessed :: "string \<Rightarrow> go_error option prog"
  StoreWebhookMessageID :: "string \<Rightarrow> string \<Rightarrow> duration \<Rightarrow> go_error option prog"

section \<open>The adapter\<close>

definition redis_breaker :: breaker_settings where
  "redis_breaker =
     \<lparr>cb_Name = ''redis-idempotency'', cb_MaxRequests = 3, cb_Interval = 10 * Second,
      cb_Timeout = 30 * Second, cb_ReadyToTrip = ReadyToTrip\<rparr>"

definition inbox_key :: "string \<Rightarrow> string" where
  "inbox_key messageID = ''inbox:'' @ messageID"

definition webhook_key :: "string \<Rightarrow> string" where
  "webhook_key messageID = ''webhook:msg:'' @ messageID"

text \<open>
  Whether a stored value says that the message was processed: an object whose \<open>status\<close> is the
  string \<open>processed\<close>, or, when the value is not an object, the plain text \<open>processed\<close>.
\<close>

definition value_processed :: "string \<Rightarrow> bool" where
  "value_processed val =
     (case unmarshal_map val of
        Inl _ \<Rightarrow> val = ''processed''
      | Inr data \<Rightarrow>
          (case data ''status'' of
             Some (JStr raw) \<Rightarrow> unquote raw = Some ''processed''
           | _ \<Rightarrow> False))"

definition redis_IsProcessed :: "string \<Rightarrow> bool result prog" where
  "redis_IsProcessed messageID =
     bind
       (Execute redis_breaker
          (RedisGet (inbox_key messageID) (\<lambda>reply. case reply of
             RedisNil \<Rightarrow> Return (Inr False)
           | RedisError err \<Rightarrow> Return (Inl err)
           | RedisValue val \<Rightarrow> Return (Inr (value_processed val)))))
       (\<lambda>result. Return (wrap_result result))"

text \<open>\<open>time.Now().Unix()\<close> is an \<open>int64\<close>.\<close>

definition unix_seconds :: "time \<Rightarrow> int" where
  "unix_seconds t = sint (word_of_int (t div Second) :: go_int)"

definition redis_MarkAsProcessed :: "string \<Rightarrow> go_error option prog" where
  "redis_MarkAsProcessed messageID =
     bind
       (Execute redis_breaker
          (Now (\<lambda>t.
             Do (RedisSet (inbox_key messageID) (marshal_processed (unix_seconds t)) (24 * Hour))
                (\<lambda>r. Return (of_error r)))))
       (\<lambda>result. Return (error_of result))"

text \<open>This one returns the error of \<open>Execute\<close> as it is.\<close>

definition redis_StoreWebhookMessageID ::
  "string \<Rightarrow> string \<Rightarrow> duration \<Rightarrow> go_error option prog" where
  "redis_StoreWebhookMessageID messageID webhookMessageID expiration =
     bind
       (Execute redis_breaker
          (Do (RedisSet (webhook_key messageID) webhookMessageID expiration) (\<lambda>r. case r of
             Some err \<Rightarrow> Return (Inl (Errorf ''failed to store webhook messageId'' err))
           | None \<Rightarrow> Return (Inr ()))))
       (\<lambda>result. Return (case result of Inl err \<Rightarrow> Some err | Inr _ \<Rightarrow> None))"

definition redisIdempotencyService :: idempotency_service where
  "redisIdempotencyService =
     \<lparr>IsProcessed = redis_IsProcessed, MarkAsProcessed = redis_MarkAsProcessed,
      StoreWebhookMessageID = redis_StoreWebhookMessageID\<rparr>"

lemmas idempotency_defs =
  redis_IsProcessed_def redis_MarkAsProcessed_def redis_StoreWebhookMessageID_def

section \<open>The stored record\<close>

definition inbox_answer :: "redis_reply \<Rightarrow> bool result" where
  "inbox_answer reply =
     (case reply of
        RedisNil \<Rightarrow> Inr False | RedisError e \<Rightarrow> Inl e | RedisValue v \<Rightarrow> Inr (value_processed v))"

lemma inbox_answer_simps [simp]:
  "inbox_answer RedisNil = Inr False" "inbox_answer (RedisError e) = Inl e"
  "inbox_answer (RedisValue v) = Inr (value_processed v)"
  by (simp_all add: inbox_answer_def)

lemma value_processed_record: "in_int64 ts \<Longrightarrow> value_processed (marshal_processed ts)"
  by (simp add: value_processed_def unmarshal_processed unquote_names del: unquote.simps)

lemma json_parse_plain_processed: "json_parse ''processed'' = None"
  by (simp add: json_parse_def begin_value_def is_space_def is_digit_def scan_eof_def)

lemma value_processed_plain: "value_processed ''processed''"
  by (simp add: value_processed_def unmarshal_map_def json_parse_plain_processed)

lemma unix_seconds_in_int64: "in_int64 (unix_seconds t)"
  by (simp add: unix_seconds_def sint_in_int64)

lemma value_processed_mark: "value_processed (marshal_processed (unix_seconds t))"
  by (rule value_processed_record [OF unix_seconds_in_int64])

section \<open>The contract of the port\<close>

text \<open>The event that marks a message as processed, and the one that stores the webhook's id.\<close>

definition marked :: "string \<Rightarrow> go_error option \<Rightarrow> event \<Rightarrow> bool" where
  "marked m r e \<longleftrightarrow>
     (\<exists>t. e = Did (RedisSet (inbox_key m) (marshal_processed (unix_seconds t)) (24 * Hour)) r)"

definition stored_webhook_id :: "string \<Rightarrow> string \<Rightarrow> event \<Rightarrow> bool" where
  "stored_webhook_id m w e \<longleftrightarrow> (\<exists>d r. e = Did (RedisSet (webhook_key m) w d) r)"

lemma marked_observed: "marked m r e \<Longrightarrow> observed e"
  by (auto simp: marked_def)

text \<open>The two keys never collide, so storing the webhook's id leaves every inbox entry alone.\<close>

lemma stored_not_marked: "stored_webhook_id m w e \<Longrightarrow> \<not> marked m' r e"
  by (auto simp: stored_webhook_id_def marked_def inbox_key_def webhook_key_def)

text \<open>
  What the client relies on: no operation panics or talks to a service other than Redis; reading
  is one lookup under the key of the message, and its answer is what the value stored there says; a
  mark is one write, under that key, of a record that reads back as processed, and it is reported
  as done exactly when Redis did it, or it failed before it wrote; an error is reported only when
  a call of its own failed.
\<close>

locale idempotency_port =
  fixes I :: idempotency_service
  assumes IsProcessed_no_halt: "no_halt (IsProcessed I m)"
    and MarkAsProcessed_no_halt: "no_halt (MarkAsProcessed I m)"
    and Store_no_halt: "no_halt (StoreWebhookMessageID I m w d)"
    and IsProcessed_uses: "uses (IsProcessed I m) {Redis, service.Breaker}"
    and MarkAsProcessed_uses: "uses (MarkAsProcessed I m) {Redis, service.Breaker, Runtime}"
    and Store_uses: "uses (StoreWebhookMessageID I m w d) {Redis, service.Breaker}"
    and IsProcessed_trace:
      "ends (IsProcessed I m) h (Done (Inr b)) \<Longrightarrow>
         \<exists>reply. trace h = [GotKey (inbox_key m) reply] \<and> inbox_answer reply = Inr b"
    and IsProcessed_error_trace:
      "ends (IsProcessed I m) h (Done (Inl err)) \<Longrightarrow>
         trace h = [] \<or> (\<exists>e. trace h = [GotKey (inbox_key m) (RedisError e)])"
    and MarkAsProcessed_trace:
      "ends (MarkAsProcessed I m) h (Done r) \<Longrightarrow>
         attempt (marked m) (trace h) (r = None)"
    and Store_trace:
      "ends (StoreWebhookMessageID I m w d) h (Done r) \<Longrightarrow>
         trace h = [] \<or> (\<exists>e. trace h = [e] \<and> stored_webhook_id m w e)"
    and IsProcessed_fails: "ends (IsProcessed I m) h (Done (Inl err)) \<Longrightarrow> \<not> steady h"
    and MarkAsProcessed_fails: "ends (MarkAsProcessed I m) h (Done (Some err)) \<Longrightarrow> \<not> steady h"

lemma redis_no_halt:
  "no_halt (redis_IsProcessed m)" "no_halt (redis_MarkAsProcessed m)"
  "no_halt (redis_StoreWebhookMessageID m w d)"
  unfolding idempotency_defs by (auto intro!: no_halt_Execute split: option.splits redis_reply.splits)

lemma redis_uses:
  "uses (redis_IsProcessed m) {Redis, service.Breaker}"
  "uses (redis_MarkAsProcessed m) {Redis, service.Breaker, Runtime}"
  "uses (redis_StoreWebhookMessageID m w d) {Redis, service.Breaker}"
  unfolding idempotency_defs by (auto split: option.splits redis_reply.splits)

interpretation redis: idempotency_port redisIdempotencyService
  by unfold_locales
    (simp_all add: redisIdempotencyService_def redis_no_halt redis_uses,
      auto simp: idempotency_defs replay_simps attempt_def marked_def stored_webhook_id_def redis_breaker_def)

end
