(* ===== verification/Rate_Limit.thy ===== *)
theory Rate_Limit
  imports Services
begin

text \<open>
  \<open>shared/ratelimit/rate_limiter.go\<close> and the HTTP middleware of the sender. The token bucket
  (\<open>golang.org/x/time/rate\<close>) is not under \<open>src/\<close>: its answers are calls of the environment.
\<close>

record rate_limiter =
  rl_rps :: nat
  rl_burst :: int

definition NewRateLimiter :: "nat \<Rightarrow> int \<Rightarrow> rate_limiter" where
  "NewRateLimiter rps burst = \<lparr>rl_rps = rps, rl_burst = burst\<rparr>"

definition rl_Wait :: "rate_limiter \<Rightarrow> go_error option prog" where
  "rl_Wait r = perform LimiterWait"

definition rl_Allow :: "rate_limiter \<Rightarrow> bool prog" where
  "rl_Allow r = LimiterAllow Return"

text \<open>
  \<open>Reserve\<close> hands out the library's reservation. The method of the library is a parameter: what it
  does on a bucket of the given rate and burst. Nothing in the repository calls \<open>Reserve\<close>.
\<close>

definition rl_Reserve :: "(rate_limiter \<Rightarrow> 'r prog) \<Rightarrow> rate_limiter \<Rightarrow> 'r prog" where
  "rl_Reserve library_Reserve r = library_Reserve r"

section \<open>The middleware\<close>

text \<open>
  A handler's answer: a status code and a body, or a status code and \<open>{"error": text}\<close>. The
  middleware answers 429 itself and aborts the chain when the limiter refuses; otherwise the next
  handler answers.
\<close>

datatype 'b http_answer = Answer nat 'b | ErrorAnswer nat string

definition RateLimit :: "rate_limiter \<Rightarrow> 'b http_answer prog \<Rightarrow> 'b http_answer prog" where
  "RateLimit limiter next_handler =
     bind (rl_Allow limiter) (\<lambda>ok.
       if \<not> ok then Return (ErrorAnswer 429 ''Rate limit exceeded'')
       else next_handler)"

lemma ends_RateLimit:
  "ends (RateLimit l p) h out \<longleftrightarrow>
     h = [Allowed False] \<and> out = Done (ErrorAnswer 429 ''Rate limit exceeded'') \<or>
     (\<exists>h'. h = Allowed True # h' \<and> ends p h' out)"
  by (auto simp: RateLimit_def rl_Allow_def replay_simps)

end
