(* ===== verification/Webhook_Client.thy ===== *)
theory Webhook_Client
  imports Breaker Rate_Limit Json_Codec
begin

text \<open>
  \<open>processor_service/internal/application/ports/webhook_client.go\<close> and
  \<open>internal/infrastructure/webhook/http_client.go\<close>: the port and its HTTP adapter, which waits
  for the limiter, goes through the breaker, posts the message and decodes the answer.
\<close>

section \<open>The port\<close>

text \<open>The response is a pointer: \<open>None\<close> is nil.\<close>

type_synonym webhook_client = "string \<Rightarrow> string \<Rightarrow> webhook_response option result prog"

section \<open>The adapter\<close>

definition webhook_breaker :: breaker_settings where
  "webhook_breaker =
     \<lparr>cb_Name = ''webhook-client'', cb_MaxRequests = 3, cb_Interval = 10 * Second,
      cb_Timeout = 30 * Second, cb_ReadyToTrip = ReadyToTrip\<rparr>"

record http_webhook_client =
  baseURL :: string
  http_timeout :: duration
  rateLimiter :: rate_limiter
  hwc_cb :: breaker_settings

definition NewHTTPWebhookClient :: "string \<Rightarrow> duration \<Rightarrow> http_webhook_client" where
  "NewHTTPWebhookClient webhookURL timeout =
     \<lparr>baseURL = webhookURL, http_timeout = timeout, rateLimiter = NewRateLimiter 50 100,
      hwc_cb = webhook_breaker\<rparr>"

text \<open>
  The closure given to the breaker. Marshalling a map of two strings cannot fail. The deferred
  \<open>resp.Body.Close()\<close> is the last call of every path that has a response. A body that does not
  decode is an empty response, not an error.
\<close>

definition decode_response :: "string \<Rightarrow> webhook_response" where
  "decode_response body =
     (case unmarshal_webhook_response body empty_webhook_response of
        Inl _ \<Rightarrow> empty_webhook_response
      | Inr r \<Rightarrow> r)"

definition post_message :: "string \<Rightarrow> string \<Rightarrow> string \<Rightarrow> webhook_response result prog" where
  "post_message url content to' =
     (let jsonBytes = marshal_webhook_body content to' in
      Do (HttpNewRequest ''POST'' url jsonBytes) (\<lambda>r. case r of
        Some err \<Rightarrow> Return (Inl (Errorf ''failed to create request'' err))
      | None \<Rightarrow>
          HttpDo ''POST'' url jsonBytes (\<lambda>resp. case resp of
            Inl err \<Rightarrow> Return (Inl (Errorf ''webhook request failed'' err))
          | Inr status \<Rightarrow>
              if 400 \<le> status then
                perform_ignoring HttpCloseBody
                  (Return (Inl (GoErr (''webhook returned error status: '' @ show_int status))))
              else
                HttpReadBody (\<lambda>b. case b of
                  Inl err \<Rightarrow>
                    perform_ignoring HttpCloseBody
                      (Return (Inl (Errorf ''failed to read response body'' err)))
                | Inr body \<Rightarrow> perform_ignoring HttpCloseBody (Return (Inr (decode_response body)))))))"

text \<open>
  The closure's result is always a \<open>*WebhookResponse\<close>, so the type assertion after \<open>Execute\<close>
  succeeds and the code's branch for its failure has no counterpart.
\<close>

definition http_SendMessage :: "http_webhook_client \<Rightarrow> webhook_client" where
  "http_SendMessage c content to' =
     bind (rl_Wait (rateLimiter c)) (\<lambda>r. case r of
       Some err \<Rightarrow> Return (Inl (Errorf ''rate limit exceeded'' err))
     | None \<Rightarrow>
         bind (Execute (hwc_cb c) (post_message (baseURL c) content to')) (\<lambda>result.
           Return (case result of
             Inl err \<Rightarrow> Inl (breaker_error err)
           | Inr webhookResp \<Rightarrow> Inr (Some webhookResp))))"

lemmas webhook_defs = http_SendMessage_def post_message_def rl_Wait_def

section \<open>The contract of the port\<close>

text \<open>The webhook took the message: it answered the post of this message with a status below 400.\<close>

definition webhook_accepted :: "string \<Rightarrow> string \<Rightarrow> event \<Rightarrow> bool" where
  "webhook_accepted content to' e \<longleftrightarrow>
     (\<exists>url status. e = HttpDone ''POST'' url (marshal_webhook_body content to') (Inr status) \<and> status < 400)"

definition webhook_posted :: "string \<Rightarrow> string \<Rightarrow> event \<Rightarrow> bool" where
  "webhook_posted content to' e \<longleftrightarrow>
     (\<exists>url r. e = HttpDone ''POST'' url (marshal_webhook_body content to') r)"

locale webhook_port =
  fixes W :: webhook_client
  assumes SendMessage_no_halt: "no_halt (W c t)"
    and SendMessage_uses: "uses (W c t) {Http, Limiter, service.Breaker}"
    and SendMessage_trace:
      "ends (W c t) h (Done (Inr resp)) \<Longrightarrow> \<exists>e. trace h = [e] \<and> webhook_accepted c t e"
    and SendMessage_error_trace:
      "ends (W c t) h (Done (Inl err)) \<Longrightarrow>
         trace h = [] \<or> (\<exists>e. trace h = [e] \<and> webhook_posted c t e)"
    and SendMessage_fails: "ends (W c t) h (Done (Inl err)) \<Longrightarrow> \<not> healthy h"

lemma webhook_posted_http: "webhook_posted c t e \<Longrightarrow> is_http_call e"
  by (auto simp: webhook_posted_def is_http_call_def)

lemma webhook_accepted_posted: "webhook_accepted c t e \<Longrightarrow> webhook_posted c t e"
  by (auto simp: webhook_posted_def webhook_accepted_def)

lemma http_SendMessage_no_halt: "no_halt (http_SendMessage c content to')"
  unfolding webhook_defs Let_def
  by (auto intro!: no_halt_Execute split: option.splits sum.splits)

lemma http_SendMessage_uses:
  "uses (http_SendMessage c content to') {Http, Limiter, service.Breaker}"
  unfolding webhook_defs Let_def by (auto split: option.splits sum.splits)

interpretation http: webhook_port "http_SendMessage c" for c
  by unfold_locales
    (simp_all add: http_SendMessage_no_halt http_SendMessage_uses,
      auto simp: webhook_defs Let_def replay_simps webhook_posted_def webhook_accepted_def)

end
