(* ===== verification/Processor_Service.thy ===== *)
theory Processor_Service
  imports Repository Message_Queue Idempotency Webhook_Client
begin

text \<open>
  The processor service: \<open>processor_service/internal/domain/processor.go\<close> (the decision whether a
  message is to be processed) and \<open>internal/application/service/processor_service.go\<close> (the
  consumer loop, the handler of a delivery with all its branches, the monitor of stale messages).
  Log lines are left out; everything else of each function is here.
\<close>

section \<open>The domain\<close>

record processing_result =
  Success :: bool
  pr_Error :: "go_error option"
  ShouldRetry :: bool
  IsDuplicate :: bool
  IsStale :: bool

definition zero_result :: processing_result where
  "zero_result =
     \<lparr>Success = False, pr_Error = None, ShouldRetry = False, IsDuplicate = False, IsStale = False\<rparr>"

record message_processor =
  maxRetries :: int
  staleDuration :: duration

definition NewMessageProcessor :: "int \<Rightarrow> duration \<Rightarrow> message_processor" where
  "NewMessageProcessor n d = \<lparr>maxRetries = n, staleDuration = d\<rparr>"

definition GetMaxRetries :: "message_processor \<Rightarrow> int" where
  "GetMaxRetries p = maxRetries p"

text \<open>Reading a field of a message through a pointer that may be nil.\<close>

definition deref :: "'a option \<Rightarrow> ('a \<Rightarrow> 'b prog) \<Rightarrow> 'b prog" where
  "deref x f = (case x of None \<Rightarrow> Halt NilDereference | Some y \<Rightarrow> f y)"

definition ShouldProcessMessage ::
  "message_processor \<Rightarrow> message option \<Rightarrow> processing_result prog" where
  "ShouldProcessMessage p msg =
     deref msg (\<lambda>m.
       if maxRetries p \<le> msg_RetryCount m then Return zero_result
       else Now (\<lambda>t.
         if staleDuration p < time_sub t (msg_UpdatedAt m) then Return (zero_result\<lparr>IsStale := True\<rparr>)
         else Return (zero_result\<lparr>Success := True, ShouldRetry := True\<rparr>)))"

definition IsMessageStale :: "message_processor \<Rightarrow> time \<Rightarrow> bool prog" where
  "IsMessageStale p lastUpdateTime =
     Now (\<lambda>t. Return (staleDuration p < time_sub t lastUpdateTime))"

section \<open>The service\<close>

record processor_service =
  processor :: message_processor
  repository :: message_repository
  queue :: message_queue
  idempotencyService :: idempotency_service
  webhookClient :: webhook_client

text \<open>A call whose error is only logged.\<close>

abbreviation logged :: "go_error option prog \<Rightarrow> 'a prog \<Rightarrow> 'a prog" where
  "logged p q \<equiv> bind p (\<lambda>_. q)"

text \<open>\<open>if err := p; err != nil { return err }\<close>\<close>

abbreviation checked :: "go_error option prog \<Rightarrow> go_error option prog \<Rightarrow> go_error option prog" where
  "checked p q \<equiv> bind p (\<lambda>r. case r of None \<Rightarrow> q | Some err \<Rightarrow> Return (Some err))"

definition handleMalformedMessage ::
  "processor_service \<Rightarrow> delivery \<Rightarrow> go_error \<Rightarrow> go_error option prog" where
  "handleMalformedMessage s d err = logged (MoveToDeadLetter (queue s) d) (Return (Some err))"

definition handleInvalidID ::
  "processor_service \<Rightarrow> delivery \<Rightarrow> go_error \<Rightarrow> go_error option prog" where
  "handleInvalidID s d err = logged (MoveToDeadLetter (queue s) d) (Return (Some err))"

definition handleDuplicateMessage ::
  "oid_codec \<Rightarrow> processor_service \<Rightarrow> queue_message \<Rightarrow> go_error option prog" where
  "handleDuplicateMessage L s q =
     (case ObjectIDFromHex L (qm_ID q) of
        Inl err \<Rightarrow> Return (Some err)
      | Inr msgID \<Rightarrow> logged (UpdateStatus (repository s) msgID StatusDuplicate) (Return None))"

definition handleMaxRetriesReached ::
  "processor_service \<Rightarrow> delivery \<Rightarrow> message option \<Rightarrow> go_error option prog" where
  "handleMaxRetriesReached s d msg =
     logged (MoveToDeadLetter (queue s) d)
       (deref msg (\<lambda>m.
          logged (UpdateStatus (repository s) (msg_ID m) StatusFailed)
            (Return (Some (GoErr ''message reached max retry count'')))))"

definition handleStaleMessage ::
  "processor_service \<Rightarrow> delivery \<Rightarrow> message option \<Rightarrow> go_error option prog" where
  "handleStaleMessage s d msg =
     logged (MoveToDeadLetter (queue s) d)
       (deref msg (\<lambda>m.
          logged (UpdateStatus (repository s) (msg_ID m) StatusFailed)
            (Return (Some (GoErr ''message is stale'')))))"

definition handleWebhookError ::
  "processor_service \<Rightarrow> delivery \<Rightarrow> message \<Rightarrow> go_error \<Rightarrow> go_error option prog" where
  "handleWebhookError s d msg err =
     checked (IncrementRetryCount (repository s) (msg_ID msg)) (
     checked (UpdateStatus (repository s) (msg_ID msg) StatusProcessing) (
     bind (GetByID (repository s) (msg_ID msg)) (\<lambda>r. case r of
       Inl getErr \<Rightarrow> Return (Some getErr)
     | Inr updatedMsg \<Rightarrow>
         deref updatedMsg (\<lambda>u.
           if GetMaxRetries (processor s) \<le> msg_RetryCount u then
             logged (MoveToDeadLetter (queue s) d) (
             logged (UpdateStatus (repository s) (msg_ID msg) StatusFailed) (
             Return (Some (Errorf ''message reached max retry count'' err))))
           else
             checked (MoveToRetryQueue (queue s) d) (Return (Some err))))))"

definition handleSuccessfulProcessing ::
  "processor_service \<Rightarrow> queue_message \<Rightarrow> oid \<Rightarrow> go_error option prog" where
  "handleSuccessfulProcessing s q msgID =
     checked (MarkAsProcessed (idempotencyService s) (qm_ID q)) (
     checked (UpdateStatus (repository s) msgID StatusSent) (Return None))"

text \<open>Storing the id the webhook gave, when it gave one.\<close>

definition storeWebhookID ::
  "processor_service \<Rightarrow> queue_message \<Rightarrow> webhook_response option \<Rightarrow> unit prog" where
  "storeWebhookID s q webhookResp =
     (case webhookResp of
        None \<Rightarrow> Return ()
      | Some w \<Rightarrow>
          if wr_MessageID w \<noteq> [] then
            logged (StoreWebhookMessageID (idempotencyService s) (qm_ID q) (wr_MessageID w) (24 * Hour))
              (Return ())
          else Return ())"

text \<open>The part of the handler after the decision to process: the webhook and what follows.\<close>

definition deliverMessage ::
  "processor_service \<Rightarrow> delivery \<Rightarrow> queue_message \<Rightarrow> oid \<Rightarrow> message \<Rightarrow> go_error option prog" where
  "deliverMessage s d q msgID m =
     bind (webhookClient s (msg_Content m) (msg_To m)) (\<lambda>r. case r of
       Inl err \<Rightarrow> handleWebhookError s d m err
     | Inr webhookResp \<Rightarrow>
         bind (storeWebhookID s q webhookResp) (\<lambda>_. handleSuccessfulProcessing s q msgID))"

definition handleMessageProcessing ::
  "oid_codec \<Rightarrow> processor_service \<Rightarrow> delivery \<Rightarrow> queue_message \<Rightarrow> go_error option prog" where
  "handleMessageProcessing L s d queueMsg =
     (case unmarshal_queue_message (Body d) queueMsg of
        Inl err \<Rightarrow> handleMalformedMessage s d err
      | Inr q \<Rightarrow>
          bind (IsProcessed (idempotencyService s) (qm_ID q)) (\<lambda>r. case r of
            Inl err \<Rightarrow> perform_ignoring (AmqpNack (DeliveryTag d) True) (Return (Some err))
          | Inr processed \<Rightarrow>
              if processed then handleDuplicateMessage L s q
              else
                (case ObjectIDFromHex L (qm_ID q) of
                   Inl err \<Rightarrow> handleInvalidID s d err
                 | Inr msgID \<Rightarrow>
                     bind (GetByID (repository s) msgID) (\<lambda>r. case r of
                       Inl err \<Rightarrow> perform_ignoring (AmqpNack (DeliveryTag d) True) (Return (Some err))
                     | Inr msg \<Rightarrow>
                         bind (ShouldProcessMessage (processor s) msg) (\<lambda>result.
                           if \<not> Success result then
                             (if IsStale result then handleStaleMessage s d msg
                              else handleMaxRetriesReached s d msg)
                           else deref msg (\<lambda>m. deliverMessage s d q msgID m))))))"

text \<open>
  The delivery is acknowledged first; the outcome of the acknowledgement is only logged. The
  \<open>QueueMessage\<close> passed on is the zero value.
\<close>

definition processMessage ::
  "oid_codec \<Rightarrow> processor_service \<Rightarrow> delivery \<Rightarrow> go_error option prog" where
  "processMessage L s d =
     bind (if 0 < DeliveryTag d then perform_ignoring (AmqpAck (DeliveryTag d)) (Return ())
           else Return ())
       (\<lambda>_. bind (handleMessageProcessing L s d empty_queue_message) (\<lambda>r. case r of
          None \<Rightarrow> Return None
        | Some err \<Rightarrow> Return (Some (Errorf ''failed to process message'' err))))"

section \<open>The loops\<close>

text \<open>
  What a \<open>select\<close> of the consumer loop may receive: a delivery, the zero value of a channel that
  the client library has closed (the code does not look at the second result of the receive), or
  the closing of \<open>done\<close>. The loop is run on the sequence of what it receives.
\<close>

datatype received = Delivered delivery | FromClosedChannel | DoneClosed

primrec consume :: "oid_codec \<Rightarrow> processor_service \<Rightarrow> received list \<Rightarrow> unit prog" where
  "consume L s [] = Return ()"
| "consume L s (r # rs) =
     (case r of
        Delivered d \<Rightarrow> logged (processMessage L s d) (consume L s rs)
      | FromClosedChannel \<Rightarrow> logged (processMessage L s zero_delivery) (consume L s rs)
      | DoneClosed \<Rightarrow> Return ())"

definition Start :: "oid_codec \<Rightarrow> processor_service \<Rightarrow> received list \<Rightarrow> unit prog" where
  "Start L s rs =
     bind (ConsumeMessages (queue s) MainQueueName) (\<lambda>r. case r of
       Some err \<Rightarrow> Halt (LogFatal (Errorf ''Failed to start consuming messages'' err))
     | None \<Rightarrow> consume L s rs)"

text \<open>\<open>Stop\<close> closes \<open>done\<close> (which panics when it is closed already) and then the queue.\<close>

definition Stop :: "processor_service \<Rightarrow> bool \<Rightarrow> unit prog" where
  "Stop s done_closed = (if done_closed then Halt CloseOfClosedChannel else CloseQueue (queue s))"

definition handleStaleMessageRecovery ::
  "oid_codec \<Rightarrow> processor_service \<Rightarrow> message \<Rightarrow> go_error option prog" where
  "handleStaleMessageRecovery L s msg =
     (let msgBody = marshal_queue_message
            \<lparr>qm_ID = Hex L (msg_ID msg), qm_Content = msg_Content msg, qm_To = [],
             qm_Retry = msg_RetryCount msg\<rparr>;
          d = \<lparr>DeliveryTag = 0, Headers = None, ContentType = [], Body = msgBody\<rparr> in
      bind (MoveToDeadLetter (queue s) d) (\<lambda>r. case r of
        Some err \<Rightarrow> Return (Some (Errorf ''failed to move stale message to DLQ'' err))
      | None \<Rightarrow>
          bind (UpdateStatus (repository s) (msg_ID msg) StatusFailed) (\<lambda>r. case r of
            Some err \<Rightarrow> Return (Some (Errorf ''failed to update stale message status to failed'' err))
          | None \<Rightarrow> Return None)))"

definition checkStaleMessages ::
  "oid_codec \<Rightarrow> processor_service \<Rightarrow> go_error option prog" where
  "checkStaleMessages L s =
     bind (FindStaleProcessingMessages (repository s) (4 * Minute)) (\<lambda>r. case r of
       Inl err \<Rightarrow> Return (Some (Errorf ''failed to find stale messages'' err))
     | Inr messages \<Rightarrow>
         bind (for_each messages (handleStaleMessageRecovery L s)) (\<lambda>_. Return None))"

datatype tick = Tick | DoneTick

primrec monitorStaleMessages :: "oid_codec \<Rightarrow> processor_service \<Rightarrow> tick list \<Rightarrow> unit prog" where
  "monitorStaleMessages L s [] = Return ()"
| "monitorStaleMessages L s (t # ts) =
     (case t of
        Tick \<Rightarrow> logged (checkStaleMessages L s) (monitorStaleMessages L s ts)
      | DoneTick \<Rightarrow> Return ())"

end
