(* ===== verification/Processor_Spec.thy ===== *)
theory Processor_Spec
  imports Processor_Service
begin

text \<open>
  The abstract specification of the processor's handler: the traces a delivery may have, with the
  outcome, as three nested relations, and the refinement: the trace of every run of the handler
  is among them, for any implementation of the four ports that keeps their contracts. What the
  handler may do to a message, and in which order, is read off the specification by case analysis.
\<close>

section \<open>The specification\<close>

text \<open>
  After the webhook failed: \<open>n\<close> is the maximal number of retries, \<open>i\<close> the message's id, \<open>body\<close> the
  delivery's body. The retry count is incremented, the status set to processing, and the count
  read again; that count decides between the dead letter queue and the retry queue.
\<close>

inductive failure_spec ::
  "int \<Rightarrow> oid \<Rightarrow> string \<Rightarrow> history \<Rightarrow> go_error option outcome \<Rightarrow> bool"
  for n i body where
  not_counted:
    "attempt (wrote_retry i) es False \<Longrightarrow> failure_spec n i body es (Done (Some err))"
| not_updated:
    "attempt (wrote_retry i) es\<^sub>1 True \<Longrightarrow> attempt (wrote_status i StatusProcessing) es\<^sub>2 False \<Longrightarrow>
     failure_spec n i body (es\<^sub>1 @ es\<^sub>2) (Done (Some err))"
| not_reread:
    "attempt (wrote_retry i) es\<^sub>1 True \<Longrightarrow> attempt (wrote_status i StatusProcessing) es\<^sub>2 True \<Longrightarrow>
     es\<^sub>3 = [] \<or> (\<exists>e. es\<^sub>3 = [FoundOne i (FindOneError e)]) \<Longrightarrow>
     failure_spec n i body (es\<^sub>1 @ es\<^sub>2 @ es\<^sub>3) (Done (Some err))"
| vanished:
    "attempt (wrote_retry i) es\<^sub>1 True \<Longrightarrow> attempt (wrote_status i StatusProcessing) es\<^sub>2 True \<Longrightarrow>
     failure_spec n i body (es\<^sub>1 @ es\<^sub>2 @ [FoundOne i ErrNoDocuments]) (Stopped NilDereference)"
| exhausted:
    "attempt (wrote_retry i) es\<^sub>1 True \<Longrightarrow> attempt (wrote_status i StatusProcessing) es\<^sub>2 True \<Longrightarrow>
     n \<le> msg_RetryCount u \<Longrightarrow> to_dlq body r e \<Longrightarrow> attempt (wrote_status i StatusFailed) es\<^sub>3 ok \<Longrightarrow>
     failure_spec n i body (es\<^sub>1 @ es\<^sub>2 @ FoundOne i (Found u) # e # es\<^sub>3) (Done (Some err))"
| requeued:
    "attempt (wrote_retry i) es\<^sub>1 True \<Longrightarrow> attempt (wrote_status i StatusProcessing) es\<^sub>2 True \<Longrightarrow>
     msg_RetryCount u < n \<Longrightarrow> to_retry body r e \<Longrightarrow>
     failure_spec n i body (es\<^sub>1 @ es\<^sub>2 @ [FoundOne i (Found u), e]) (Done (Some err))"

text \<open>From the call of the webhook on: \<open>k\<close> is the id in the queue message, \<open>m\<close> the document.\<close>

definition optional_webhook_id :: "string \<Rightarrow> history \<Rightarrow> bool" where
  "optional_webhook_id k es \<longleftrightarrow> es = [] \<or> (\<exists>e w. es = [e] \<and> stored_webhook_id k w e)"

definition optional_post :: "message \<Rightarrow> history \<Rightarrow> bool" where
  "optional_post m es \<longleftrightarrow> es = [] \<or> (\<exists>e. es = [e] \<and> webhook_posted (msg_Content m) (msg_To m) e)"

inductive delivery_spec ::
  "int \<Rightarrow> string \<Rightarrow> oid \<Rightarrow> message \<Rightarrow> string \<Rightarrow> history \<Rightarrow> go_error option outcome \<Rightarrow> bool"
  for n k i m body where
  webhook_failed:
    "optional_post m es\<^sub>0 \<Longrightarrow> failure_spec n (msg_ID m) body es out \<Longrightarrow>
     delivery_spec n k i m body (es\<^sub>0 @ es) out"
| not_marked:
    "webhook_accepted (msg_Content m) (msg_To m) e \<Longrightarrow> optional_webhook_id k es\<^sub>1 \<Longrightarrow>
     attempt (marked k) es\<^sub>2 False \<Longrightarrow> delivery_spec n k i m body (e # es\<^sub>1 @ es\<^sub>2) (Done (Some err))"
| marked_not_sent:
    "webhook_accepted (msg_Content m) (msg_To m) e \<Longrightarrow> optional_webhook_id k es\<^sub>1 \<Longrightarrow>
     attempt (marked k) es\<^sub>2 True \<Longrightarrow> attempt (wrote_status i StatusSent) es\<^sub>3 False \<Longrightarrow>
     delivery_spec n k i m body (e # es\<^sub>1 @ es\<^sub>2 @ es\<^sub>3) (Done (Some err))"
| sent:
    "webhook_accepted (msg_Content m) (msg_To m) e \<Longrightarrow> optional_webhook_id k es\<^sub>1 \<Longrightarrow>
     attempt (marked k) es\<^sub>2 True \<Longrightarrow> attempt (wrote_status i StatusSent) es\<^sub>3 True \<Longrightarrow>
     delivery_spec n k i m body (e # es\<^sub>1 @ es\<^sub>2 @ es\<^sub>3) (Done None)"

text \<open>A message is processed only when it has retries left and was updated recently enough.\<close>

definition stale_at :: "message_processor \<Rightarrow> message \<Rightarrow> time \<Rightarrow> bool" where
  "stale_at p m t \<longleftrightarrow> staleDuration p < time_sub t (msg_UpdatedAt m)"

text \<open>
  The handler: \<open>H\<close> is the whole history, of which only the clock readings are looked at. It
  asks the inbox, then the repository, then decides.
\<close>

inductive handler_spec ::
  "oid_codec \<Rightarrow> message_processor \<Rightarrow> delivery \<Rightarrow> queue_message \<Rightarrow> history \<Rightarrow> history \<Rightarrow>
   go_error option outcome \<Rightarrow> bool"
  for L p d q\<^sub>0 H where
  malformed:
    "unmarshal_queue_message (Body d) q\<^sub>0 = Inl err \<Longrightarrow> to_dlq (Body d) r e \<Longrightarrow>
     handler_spec L p d q\<^sub>0 H [e] (Done (Some err))"
| inbox_down:
    "unmarshal_queue_message (Body d) q\<^sub>0 = Inr q \<Longrightarrow>
     es = [] \<or> (\<exists>e. es = [GotKey (inbox_key (qm_ID q)) (RedisError e)]) \<Longrightarrow>
     handler_spec L p d q\<^sub>0 H (es @ [Did (AmqpNack (DeliveryTag d) True) r]) (Done (Some err))"
| duplicate:
    "unmarshal_queue_message (Body d) q\<^sub>0 = Inr q \<Longrightarrow> inbox_answer reply = Inr True \<Longrightarrow>
     ObjectIDFromHex L (qm_ID q) = Inr i \<Longrightarrow> attempt (wrote_status i StatusDuplicate) es ok \<Longrightarrow>
     handler_spec L p d q\<^sub>0 H (GotKey (inbox_key (qm_ID q)) reply # es) (Done None)"
| duplicate_invalid_id:
    "unmarshal_queue_message (Body d) q\<^sub>0 = Inr q \<Longrightarrow> inbox_answer reply = Inr True \<Longrightarrow>
     ObjectIDFromHex L (qm_ID q) = Inl err \<Longrightarrow>
     handler_spec L p d q\<^sub>0 H [GotKey (inbox_key (qm_ID q)) reply] (Done (Some err))"
| invalid_id:
    "unmarshal_queue_message (Body d) q\<^sub>0 = Inr q \<Longrightarrow> inbox_answer reply = Inr False \<Longrightarrow>
     ObjectIDFromHex L (qm_ID q) = Inl err \<Longrightarrow> to_dlq (Body d) r e \<Longrightarrow>
     handler_spec L p d q\<^sub>0 H [GotKey (inbox_key (qm_ID q)) reply, e] (Done (Some err))"
| repository_down:
    "unmarshal_queue_message (Body d) q\<^sub>0 = Inr q \<Longrightarrow> inbox_answer reply = Inr False \<Longrightarrow>
     ObjectIDFromHex L (qm_ID q) = Inr i \<Longrightarrow>
     es = [] \<or> (\<exists>e. es = [FoundOne i (FindOneError e)]) \<Longrightarrow>
     handler_spec L p d q\<^sub>0 H
       (GotKey (inbox_key (qm_ID q)) reply # es @ [Did (AmqpNack (DeliveryTag d) True) r])
       (Done (Some err))"
| missing:
    "unmarshal_queue_message (Body d) q\<^sub>0 = Inr q \<Longrightarrow> inbox_answer reply = Inr False \<Longrightarrow>
     ObjectIDFromHex L (qm_ID q) = Inr i \<Longrightarrow>
     handler_spec L p d q\<^sub>0 H [GotKey (inbox_key (qm_ID q)) reply, FoundOne i ErrNoDocuments]
       (Stopped NilDereference)"
| rejected:
    "unmarshal_queue_message (Body d) q\<^sub>0 = Inr q \<Longrightarrow> inbox_answer reply = Inr False \<Longrightarrow>
     ObjectIDFromHex L (qm_ID q) = Inr i \<Longrightarrow>
     maxRetries p \<le> msg_RetryCount m \<or> (\<exists>t. Clock t \<in> set H \<and> stale_at p m t) \<Longrightarrow>
     to_dlq (Body d) r e \<Longrightarrow> attempt (wrote_status (msg_ID m) StatusFailed) es ok \<Longrightarrow>
     handler_spec L p d q\<^sub>0 H
       (GotKey (inbox_key (qm_ID q)) reply # FoundOne i (Found m) # e # es) (Done (Some err))"
| processed:
    "unmarshal_queue_message (Body d) q\<^sub>0 = Inr q \<Longrightarrow> inbox_answer reply = Inr False \<Longrightarrow>
     ObjectIDFromHex L (qm_ID q) = Inr i \<Longrightarrow>
     msg_RetryCount m < maxRetries p \<Longrightarrow> Clock t \<in> set H \<Longrightarrow> \<not> stale_at p m t \<Longrightarrow>
     delivery_spec (maxRetries p) (qm_ID q) i m (Body d) es out \<Longrightarrow>
     handler_spec L p d q\<^sub>0 H
       (GotKey (inbox_key (qm_ID q)) reply # FoundOne i (Found m) # es) out"

text \<open>The delivery is acknowledged before the handler runs, when it has a tag.\<close>

definition ack_spec :: "delivery \<Rightarrow> history \<Rightarrow> bool" where
  "ack_spec d es \<longleftrightarrow>
     (if 0 < DeliveryTag d then \<exists>r. es = [Did (AmqpAck (DeliveryTag d)) r] else es = [])"

fun wrapped :: "go_error option outcome \<Rightarrow> go_error option outcome" where
  "wrapped (Done (Some err)) = Done (Some (Errorf ''failed to process message'' err))"
| "wrapped out = out"

definition process_spec ::
  "oid_codec \<Rightarrow> message_processor \<Rightarrow> delivery \<Rightarrow> history \<Rightarrow> history \<Rightarrow> go_error option outcome \<Rightarrow> bool"
  where
  "process_spec L p d H es out \<longleftrightarrow>
     (\<exists>es\<^sub>1 es\<^sub>2 out'. es = es\<^sub>1 @ es\<^sub>2 \<and> ack_spec d es\<^sub>1 \<and>
        handler_spec L p d empty_queue_message H es\<^sub>2 out' \<and> out = wrapped out')"

section \<open>The refinement\<close>

lemma ends_deref [replay_simps]:
  "ends (deref x f) h out \<longleftrightarrow>
     x = None \<and> h = [] \<and> Stopped NilDereference = out \<or> (\<exists>y. x = Some y \<and> ends (f y) h out)"
  by (cases x) (auto simp: deref_def replay_simps)

lemma ends_ShouldProcessMessage [replay_simps]:
  "ends (ShouldProcessMessage p (Some m)) h out \<longleftrightarrow>
     maxRetries p \<le> msg_RetryCount m \<and> h = [] \<and> out = Done zero_result \<or>
     (\<exists>t. msg_RetryCount m < maxRetries p \<and> h = [Clock t] \<and>
        (staleDuration p < time_sub t (msg_UpdatedAt m) \<and> out = Done (zero_result\<lparr>IsStale := True\<rparr>) \<or>
         time_sub t (msg_UpdatedAt m) \<le> staleDuration p \<and>
           out = Done (zero_result\<lparr>Success := True, ShouldRetry := True\<rparr>)))"
  "ends (ShouldProcessMessage p None) h out \<longleftrightarrow> h = [] \<and> out = Stopped NilDereference"
  by (auto simp: ShouldProcessMessage_def replay_simps)

lemma ends_ShouldProcessMessage_Stopped [replay_simps]:
  "ends (ShouldProcessMessage p msg) h (Stopped y) \<longleftrightarrow> msg = None \<and> h = [] \<and> y = NilDereference"
  by (cases msg) (auto simp: ends_ShouldProcessMessage)

locale processor_contract =
  R: message_repository_port "repository s" + Q: message_queue_port "queue s" +
  I: idempotency_port "idempotencyService s" + W: webhook_port "webhookClient s"
  for s :: processor_service
begin

lemma no_stop [simp]:
  "\<not> ends (MoveToDeadLetter (queue s) d) h (Stopped y)"
  "\<not> ends (MoveToRetryQueue (queue s) d) h (Stopped y)"
  "\<not> ends (UpdateStatus (repository s) i st) h (Stopped y)"
  "\<not> ends (IncrementRetryCount (repository s) i) h (Stopped y)"
  "\<not> ends (GetByID (repository s) i) h (Stopped y)"
  "\<not> ends (FindStaleProcessingMessages (repository s) d') h (Stopped y)"
  "\<not> ends (IsProcessed (idempotencyService s) k) h (Stopped y)"
  "\<not> ends (MarkAsProcessed (idempotencyService s) k) h (Stopped y)"
  "\<not> ends (StoreWebhookMessageID (idempotencyService s) k w dd) h (Stopped y)"
  "\<not> ends (webhookClient s c t) h (Stopped y)"
  using Q.MoveToDeadLetter_no_halt Q.MoveToRetryQueue_no_halt R.UpdateStatus_no_halt
    R.IncrementRetryCount_no_halt R.GetByID_no_halt R.FindStale_no_halt I.IsProcessed_no_halt
    I.MarkAsProcessed_no_halt I.Store_no_halt W.SendMessage_no_halt
  by (auto simp: no_halt_def)

lemmas lookups =
  I.IsProcessed_trace I.IsProcessed_error_trace R.GetByID_trace R.GetByID_error_trace
lemmas writes =
  R.IncrementRetryCount_trace R.UpdateStatus_trace Q.MoveToDeadLetter_trace
  Q.MoveToRetryQueue_trace

lemma found_answer_iffs [simp]:
  "found_answer a = Inr None \<longleftrightarrow> a = ErrNoDocuments"
  "found_answer a = Inr (Some m) \<longleftrightarrow> a = Found m"
  by (cases a; auto simp: found_answer_def)+

lemma not_reread_cases:
  assumes "attempt (wrote_retry i) es\<^sub>1 True" and "attempt (wrote_status i StatusProcessing) es\<^sub>2 True"
  shows "failure_spec n i body (es\<^sub>1 @ es\<^sub>2) (Done (Some err))"
    and "failure_spec n i body (es\<^sub>1 @ es\<^sub>2 @ [FoundOne i (FindOneError e)]) (Done (Some err))"
  using not_reread [OF assms, of "[]"] not_reread [OF assms, of "[FoundOne i (FindOneError e)]"]
  by auto

lemma failure_refines:
  assumes "ends (handleWebhookError s d m err) h out"
  shows "failure_spec (maxRetries (processor s)) (msg_ID m) (Body d) (trace h) out"
  using assms unfolding handleWebhookError_def replay_simps GetMaxRetries_def
  by (auto simp: not_le dest!: lookups writes intro: failure_spec.intros not_reread_cases)

lemma store_refines:
  assumes "ends (storeWebhookID s q w) h out"
  shows "optional_webhook_id (qm_ID q) (trace h) \<and> out = Done ()"
  using assms unfolding storeWebhookID_def
  by (auto simp: replay_simps optional_webhook_id_def dest!: I.Store_trace)

lemma success_refines:
  assumes "ends (handleSuccessfulProcessing s q i) h out"
    and "webhook_accepted (msg_Content m) (msg_To m) e" and "optional_webhook_id (qm_ID q) es"
  shows "delivery_spec n (qm_ID q) i m body (e # es @ trace h) out"
  using assms(1) not_marked [OF assms(2,3)] marked_not_sent [OF assms(2,3)] sent [OF assms(2,3)]
  unfolding handleSuccessfulProcessing_def replay_simps
  by (auto dest!: I.MarkAsProcessed_trace R.UpdateStatus_trace)

lemma delivery_refines:
  assumes "ends (deliverMessage s d q i m) h out"
  shows "delivery_spec (maxRetries (processor s)) (qm_ID q) i m (Body d) (trace h) out"
  using assms unfolding deliverMessage_def
proof (cases rule: ends_bind_sumE [OF _ W.SendMessage_no_halt, consumes 1, case_names failed accepted])
  case (failed h\<^sub>1 h\<^sub>2 err)
  then have "optional_post m (trace h\<^sub>1)"
    by (auto simp: optional_post_def dest!: W.SendMessage_error_trace)
  then show ?thesis
    using failed(1) webhook_failed failure_refines [OF failed(3)] by simp
next
  case (accepted h\<^sub>1 h\<^sub>2 w)
  obtain e where "trace h\<^sub>1 = [e]" "webhook_accepted (msg_Content m) (msg_To m) e"
    using W.SendMessage_trace [OF accepted(2)] by blast
  with accepted show ?thesis
    by (auto simp: ends_bind dest!: store_refines success_refines)
qed

text \<open>The branches of the handler once the body decoded and the id parsed.\<close>

lemma duplicate_refines:
  assumes "ends (handleDuplicateMessage L s q) h out" and "ObjectIDFromHex L (qm_ID q) = Inr i"
  shows "\<exists>ok. attempt (wrote_status i StatusDuplicate) (trace h) ok \<and> out = Done None"
  using assms by (auto simp: handleDuplicateMessage_def replay_simps dest!: R.UpdateStatus_trace)

lemma rejection_refines:
  assumes "ends (handleStaleMessage s d (Some m)) h out \<or>
      ends (handleMaxRetriesReached s d (Some m)) h out"
  shows "\<exists>e r es ok err. trace h = e # es \<and> to_dlq (Body d) r e \<and>
      attempt (wrote_status (msg_ID m) StatusFailed) es ok \<and> out = Done (Some err)"
  using assms
  by (auto simp: handleStaleMessage_def handleMaxRetriesReached_def replay_simps
      dest!: R.UpdateStatus_trace Q.MoveToDeadLetter_trace)

lemma decision_refines:
  assumes run: "ends (bind (ShouldProcessMessage (processor s) (Some m)) (\<lambda>result.
        if \<not> Success result then
          (if IsStale result then handleStaleMessage s d (Some m)
           else handleMaxRetriesReached s d (Some m))
        else deref (Some m) (deliverMessage s d q i))) h out"
    and body: "unmarshal_queue_message (Body d) q\<^sub>0 = Inr q"
    and unprocessed: "inbox_answer reply = Inr False"
    and parsed: "ObjectIDFromHex L (qm_ID q) = Inr i"
    and sub: "set h \<subseteq> set H"
  shows "handler_spec L (processor s) d q\<^sub>0 H
    (GotKey (inbox_key (qm_ID q)) reply # FoundOne i (Found m) # trace h) out"
proof -
  note reject = rejected [OF body unprocessed parsed]
    and proceed = processed [OF body unprocessed parsed]
  from run consider
    (retries) "maxRetries (processor s) \<le> msg_RetryCount m"
      "ends (handleMaxRetriesReached s d (Some m)) h out"
  | (stale) t h' where "h = Clock t # h'" "stale_at (processor s) m t"
      "ends (handleStaleMessage s d (Some m)) h' out"
  | (proceed) t h' where "h = Clock t # h'" "\<not> stale_at (processor s) m t"
      "msg_RetryCount m < maxRetries (processor s)" "ends (deliverMessage s d q i m) h' out"
    by (auto simp: replay_simps zero_result_def stale_at_def not_less)
  then show ?thesis
  proof cases
    case retries
    from rejection_refines [OF disjI2, OF retries(2)] retries(1) show ?thesis
      using reject by metis
  next
    case stale
    from rejection_refines [OF disjI1, OF stale(3)] obtain e r es ok err where
      "trace h' = e # es" "to_dlq (Body d) r e"
      "attempt (wrote_status (msg_ID m) StatusFailed) es ok" "out = Done (Some err)"
      by blast
    moreover have "\<exists>t. Clock t \<in> set H \<and> stale_at (processor s) m t"
      using stale(1,2) sub by auto
    ultimately show ?thesis using reject stale(1) by simp
  next
    case (proceed t h')
    then have "Clock t \<in> set H" using sub by auto
    with proceed(2-) delivery_refines [OF proceed(4)] show ?thesis
      using processed [OF body unprocessed parsed] proceed(1) by simp
  qed
qed

lemma nacked:
  "ends (perform_ignoring (AmqpNack t True) (Return (Some err))) h out \<Longrightarrow>
     \<exists>r. trace h = [Did (AmqpNack t True) r] \<and> out = Done (Some err)"
  by (auto simp: replay_simps)

lemma undecided_refines:
  assumes run: "ends (case ObjectIDFromHex L (qm_ID q) of
        Inl err \<Rightarrow> handleInvalidID s d err
      | Inr msgID \<Rightarrow>
          bind (GetByID (repository s) msgID) (\<lambda>r. case r of
            Inl err \<Rightarrow> perform_ignoring (AmqpNack (DeliveryTag d) True) (Return (Some err))
          | Inr msg \<Rightarrow>
              bind (ShouldProcessMessage (processor s) msg) (\<lambda>result.
                if \<not> Success result then
                  (if IsStale result then handleStaleMessage s d msg
                   else handleMaxRetriesReached s d msg)
                else deref msg (\<lambda>m. deliverMessage s d q msgID m)))) h out"
    and body: "unmarshal_queue_message (Body d) q\<^sub>0 = Inr q"
    and unprocessed: "inbox_answer reply = Inr False" and sub: "set h \<subseteq> set H"
  shows "handler_spec L (processor s) d q\<^sub>0 H (GotKey (inbox_key (qm_ID q)) reply # trace h) out"
proof (cases "ObjectIDFromHex L (qm_ID q)")
  case (Inl err)
  with run show ?thesis
    using invalid_id [OF body unprocessed Inl]
    by (auto simp: handleInvalidID_def replay_simps dest!: writes)
next
  case (Inr i)
  note parsed = this
  from run show ?thesis
    unfolding Inr sum.case
  proof (cases rule: ends_bind_sumE [OF _ R.GetByID_no_halt, consumes 1, case_names mongo found])
    case (mongo h\<^sub>1 h\<^sub>2 err)
    with nacked [OF mongo(3)] show ?thesis
      using repository_down [OF body unprocessed Inr R.GetByID_error_trace [OF mongo(2)]] by auto
  next
    case (found h\<^sub>1 h\<^sub>2 msg)
    obtain a where a: "trace h\<^sub>1 = [FoundOne i a]" "found_answer a = Inr msg"
      using R.GetByID_trace [OF found(2)] by blast
    have sub': "set h\<^sub>2 \<subseteq> set H" using sub found(1) by simp
    show ?thesis
    proof (cases msg)
      case None
      with found a show ?thesis
        using missing [OF body unprocessed parsed] by (auto simp: replay_simps)
    next
      case (Some m)
      from decision_refines [OF found(3) [unfolded Some] body unprocessed parsed sub']
      show ?thesis using found(1) a Some by simp
    qed
  qed
qed

theorem handler_refines:
  assumes run: "ends (handleMessageProcessing L s d q\<^sub>0) h out" and sub: "set h \<subseteq> set H"
  shows "handler_spec L (processor s) d q\<^sub>0 H (trace h) out"
proof (cases "unmarshal_queue_message (Body d) q\<^sub>0")
  case (Inl err)
  with assms show ?thesis
    by (auto simp: handleMessageProcessing_def handleMalformedMessage_def replay_simps
        dest!: Q.MoveToDeadLetter_trace intro: malformed)
next
  case (Inr q)
  note body = this
  from run show ?thesis
    unfolding handleMessageProcessing_def Inr sum.case
  proof (cases rule: ends_bind_sumE [OF _ I.IsProcessed_no_halt, consumes 1, case_names redis inbox])
    case (redis h\<^sub>1 h\<^sub>2 err)
    with nacked [OF redis(3)] show ?thesis
      using inbox_down [OF body I.IsProcessed_error_trace [OF redis(2)]] by auto
  next
    case (inbox h\<^sub>1 h\<^sub>2 b)
    obtain reply where reply:
      "trace h\<^sub>1 = [GotKey (inbox_key (qm_ID q)) reply]" "inbox_answer reply = Inr b"
      using I.IsProcessed_trace [OF inbox(2)] by blast
    show ?thesis
    proof (cases b)
      case True
      with inbox reply duplicate_refines [of L q h\<^sub>2 out] show ?thesis
        using duplicate [OF body] duplicate_invalid_id [OF body]
        by (cases "ObjectIDFromHex L (qm_ID q)")
          (auto simp: handleDuplicateMessage_def replay_simps)
    next
      case False
      with inbox reply sub undecided_refines [OF _ body, of L h\<^sub>2 out reply H] show ?thesis
        by simp
    qed
  qed
qed

lemma ack_refines:
  "ends (if 0 < DeliveryTag d then perform_ignoring (AmqpAck (DeliveryTag d)) (Return ())
     else Return ()) h out \<Longrightarrow> ack_spec d (trace h) \<and> out = Done ()"
  by (auto simp: ack_spec_def replay_simps split: if_splits)

lemma process_cases:
  assumes "ends (processMessage L s d) h out"
  obtains h\<^sub>1 h\<^sub>2 out' where "h = h\<^sub>1 @ h\<^sub>2" "ack_spec d (trace h\<^sub>1)"
    "ends (handleMessageProcessing L s d empty_queue_message) h\<^sub>2 out'" "out = wrapped out'"
  using assms
  unfolding processMessage_def ends_bind [of "if _ then _ else _"]
    ends_bind [of "handleMessageProcessing _ _ _ _"] ends_case_option ends_Return
  by (auto dest!: ack_refines)

theorem process_refines:
  assumes "ends (processMessage L s d) h out"
  shows "process_spec L (processor s) d h (trace h) out"
  using assms
proof (rule process_cases)
  fix h\<^sub>1 h\<^sub>2 out'
  assume h: "h = h\<^sub>1 @ h\<^sub>2" and ack: "ack_spec d (trace h\<^sub>1)" and out: "out = wrapped out'"
    and run: "ends (handleMessageProcessing L s d empty_queue_message) h\<^sub>2 out'"
  have "handler_spec L (processor s) d empty_queue_message h (trace h\<^sub>2) out'"
    by (rule handler_refines [OF run]) (simp add: h)
  with h ack out show ?thesis
    unfolding process_spec_def by (metis filter_append)
qed

end

end
