(* ===== verification/Environment.thy ===== *)
theory Environment
  imports Idempotency Repository
begin

text \<open>
  Environments and histories: a run against an environment is a history of the program that the
  environment follows, call by call. The documented behaviour of the external services the
  statements rely on (a document store that applies updates, a key-value store that keeps what
  was set, a clock of 64-bit nanoseconds) is stated here as predicates on environments, for an
  arbitrary environment and an arbitrary view of its state; the last section has one that
  satisfies them all.
\<close>

section \<open>Following a history\<close>

primrec answers :: "'w env \<Rightarrow> 'w \<Rightarrow> event \<Rightarrow> 'w \<Rightarrow> bool" where
  "answers E w (Did e r) w' \<longleftrightarrow> on_do E e w = (r, w')"
| "answers E w (Clock t) w' \<longleftrightarrow> on_now E w = (t, w')"
| "answers E w (MadeObjectID i) w' \<longleftrightarrow> on_new_oid E w = (i, w')"
| "answers E w (FoundOne i r) w' \<longleftrightarrow> on_find_one E i w = (r, w')"
| "answers E w (FetchedAll q r) w' \<longleftrightarrow> on_cursor_all E q w = (r, w')"
| "answers E w (GotKey k r) w' \<longleftrightarrow> on_redis_get E k w = (r, w')"
| "answers E w (HttpDone m u b r) w' \<longleftrightarrow> on_http_do E m u b w = (r, w')"
| "answers E w (ReadBody r) w' \<longleftrightarrow> on_http_read E w = (r, w')"
| "answers E w (Allowed b) w' \<longleftrightarrow> on_allow E w = (b, w')"
| "answers E w (Inspected q r) w' \<longleftrightarrow> on_inspect E q w = (r, w')"

primrec follows :: "'w env \<Rightarrow> 'w \<Rightarrow> history \<Rightarrow> 'w \<Rightarrow> bool" where
  "follows E w [] w' \<longleftrightarrow> w' = w"
| "follows E w (e # h) w' \<longleftrightarrow> (\<exists>w\<^sub>1. answers E w e w\<^sub>1 \<and> follows E w\<^sub>1 h w')"

lemma follows_append: "follows E w (h\<^sub>1 @ h\<^sub>2) w' \<longleftrightarrow> (\<exists>w\<^sub>1. follows E w h\<^sub>1 w\<^sub>1 \<and> follows E w\<^sub>1 h\<^sub>2 w')"
  by (induction h\<^sub>1 arbitrary: w) auto

lemma run_follows: "run E p w = (out, h, w') \<Longrightarrow> follows E w h w'"
  by (induction p arbitrary: w out h w') (fastforce split: prod.splits)+

lemma follows_run:
  "ends p h out \<Longrightarrow> follows E w h w' \<Longrightarrow> run E p w = (out, h, w')"
proof (induction p arbitrary: h w)
qed (auto simp: ends_Return ends_Halt ends_Do ends_Now ends_NewObjectID ends_MongoFindOne
      ends_CursorAll ends_RedisGet ends_HttpDo ends_HttpReadBody ends_LimiterAllow ends_QueueInspect
      split: prod.splits)

theorem run_iff: "run E p w = (out, h, w') \<longleftrightarrow> ends p h out \<and> follows E w h w'"
  using run_ends run_follows follows_run by metis

section \<open>The key-value store\<close>

text \<open>
  \<open>kv\<close> is the view of the store: what is under each key. A set that succeeds is seen by the next
  get; one that fails may or may not have been done; nothing else changes the store. Nothing
  expires: the statements are about what happens within the expiration time of a key.
\<close>

definition key_value_store :: "'w env \<Rightarrow> ('w \<Rightarrow> string \<Rightarrow> string option) \<Rightarrow> bool" where
  "key_value_store E kv \<longleftrightarrow> (\<forall>w e w'. answers E w e w' \<longrightarrow>
     (case e of
        Did (RedisSet k v d) r \<Rightarrow>
          kv w' = (kv w)(k \<mapsto> v) \<or> r \<noteq> None \<and> kv w' = kv w
      | GotKey k reply \<Rightarrow>
          kv w' = kv w \<and>
          (case reply of RedisNil \<Rightarrow> kv w k = None | RedisValue v \<Rightarrow> kv w k = Some v
           | RedisError _ \<Rightarrow> True)
      | _ \<Rightarrow> kv w' = kv w))"

definition in_inbox :: "('w \<Rightarrow> string \<Rightarrow> string option) \<Rightarrow> 'w \<Rightarrow> string \<Rightarrow> bool" where
  "in_inbox kv w k \<longleftrightarrow> (\<exists>v. kv w (inbox_key k) = Some v \<and> value_processed v)"

lemma in_inbox_markI:
  "kv w (inbox_key k) = Some (marshal_processed (unix_seconds t)) \<Longrightarrow> in_inbox kv w k"
  by (simp add: in_inbox_def value_processed_mark)

text \<open>The writes to the inbox a history may make: marks, and nothing else under an inbox key.\<close>

definition only_marks :: "event \<Rightarrow> bool" where
  "only_marks e \<longleftrightarrow> (\<forall>key v d r. e = Did (RedisSet key v d) r \<longrightarrow>
     (\<exists>k t. key = inbox_key k \<and> v = marshal_processed (unix_seconds t)) \<or>
     (\<exists>k. key = webhook_key k))"

lemma in_inbox_step:
  assumes "key_value_store E kv" and "answers E w e w'" and "only_marks e" and "in_inbox kv w k"
  shows "in_inbox kv w' k"
proof (cases "\<exists>key v d r. e = Did (RedisSet key v d) r")
  case True
  then obtain key v d r where e: "e = Did (RedisSet key v d) r" by blast
  with assms(1,2) have "kv w' = (kv w)(key \<mapsto> v) \<or> kv w' = kv w"
    unfolding key_value_store_def by fastforce
  with assms(3,4) e show ?thesis
    by (auto simp: in_inbox_def only_marks_def inbox_key_def webhook_key_def
        value_processed_mark)
next
  case False
  with assms(1,2) have "kv w' = kv w"
    unfolding key_value_store_def by (cases e; cases "\<exists>f r. e = Did f r") (fastforce split: eff.splits)+
  with assms(4) show ?thesis by (simp add: in_inbox_def)
qed

lemma in_inbox_follows:
  assumes "key_value_store E kv" and "follows E w h w'" and "\<forall>e\<in>set h. only_marks e"
    and "in_inbox kv w k"
  shows "in_inbox kv w' k"
  using assms(2-)
proof (induction h arbitrary: w)
  case (Cons e h)
  then show ?case using in_inbox_step [OF assms(1)] by auto
qed simp

text \<open>A successful mark puts the message into the inbox, where it stays.\<close>

lemma marked_in_inbox:
  assumes kv: "key_value_store E kv" and run: "follows E w h w'" and only: "\<forall>e\<in>set h. only_marks e"
    and mark: "e \<in> set h" "marked k None e"
  shows "in_inbox kv w' k"
proof -
  from mark(1) obtain h\<^sub>1 h\<^sub>2 where h: "h = h\<^sub>1 @ e # h\<^sub>2" by (meson split_list)
  with run obtain w\<^sub>1 w\<^sub>2 where e: "answers E w\<^sub>1 e w\<^sub>2" and rest: "follows E w\<^sub>2 h\<^sub>2 w'"
    by (auto simp: follows_append)
  from e mark(2) kv have "in_inbox kv w\<^sub>2 k"
    unfolding key_value_store_def marked_def in_inbox_def
    using value_processed_mark by fastforce
  with in_inbox_follows [OF kv rest] only h show ?thesis by simp
qed

text \<open>What the inbox holds, a lookup that gets an answer reports.\<close>

lemma in_inbox_answer:
  assumes "key_value_store E kv" and "answers E w (GotKey (inbox_key k) reply) w'"
    and "in_inbox kv w k"
  shows "inbox_answer reply = Inr True \<or> (\<exists>e. reply = RedisError e)"
  using assms unfolding key_value_store_def in_inbox_def
  by (cases reply) (fastforce simp: inbox_answer_def)+

section \<open>The document store\<close>

text \<open>What an update document does to a document, and which documents a query selects.\<close>

definition apply_update :: "mongo_update \<Rightarrow> message \<Rightarrow> message" where
  "apply_update u m =
     m\<lparr>msg_Status := (case set_status u of None \<Rightarrow> msg_Status m | Some s \<Rightarrow> s),
       msg_UpdatedAt := (case set_updated_at u of None \<Rightarrow> msg_UpdatedAt m | Some t \<Rightarrow> t),
       msg_RetryCount := msg_RetryCount m + inc_retry_count u\<rparr>"

definition selects :: "mongo_query \<Rightarrow> message \<Rightarrow> bool" where
  "selects q m \<longleftrightarrow>
     (case where_status q of None \<Rightarrow> True | Some s \<Rightarrow> msg_Status m = s) \<and>
     (case where_updated_before q of None \<Rightarrow> True | Some t \<Rightarrow> msg_UpdatedAt m < t)"

text \<open>
  \<open>docs\<close> is the view of the collection. A write that succeeds is done; one that fails may or may
  not have been done; an insert never replaces a document; the lookups answer what is there.
\<close>

definition document_store :: "'w env \<Rightarrow> ('w \<Rightarrow> oid \<Rightarrow> message option) \<Rightarrow> bool" where
  "document_store E docs \<longleftrightarrow> (\<forall>w e w'. answers E w e w' \<longrightarrow>
     (case e of
        Did (MongoUpdateOne i u) r \<Rightarrow>
          docs w' = (docs w)(i := map_option (apply_update u) (docs w i)) \<or>
          r \<noteq> None \<and> docs w' = docs w
      | Did (MongoInsertOne m) r \<Rightarrow>
          (\<exists>i. docs w i = None \<and> (\<not> IsZero (msg_ID m) \<longrightarrow> i = msg_ID m) \<and>
             docs w' = (docs w)(i \<mapsto> m\<lparr>msg_ID := i\<rparr>)) \<or>
          r \<noteq> None \<and> docs w' = docs w
      | FoundOne i a \<Rightarrow>
          docs w' = docs w \<and>
          (case a of Found m \<Rightarrow> docs w i = Some m \<and> msg_ID m = i
           | ErrNoDocuments \<Rightarrow> docs w i = None | FindOneError _ \<Rightarrow> True)
      | FetchedAll q (Inr ms) \<Rightarrow>
          docs w' = docs w \<and> (\<forall>m\<in>set ms. docs w (msg_ID m) = Some m \<and> selects q m) \<and>
          distinct (map msg_ID ms)
      | _ \<Rightarrow> docs w' = docs w))"

text \<open>
  What the updates of the code do to a document: it keeps its id, content, recipient and creation
  time, its retry count is not lowered, and it is never set back to unsent.
\<close>

definition advances :: "event \<Rightarrow> bool" where
  "advances e \<longleftrightarrow> (\<forall>i u r. e = Did (MongoUpdateOne i u) r \<longrightarrow>
     0 \<le> inc_retry_count u \<and> set_status u \<noteq> Some StatusUnsent)"

definition advanced :: "message \<Rightarrow> message \<Rightarrow> bool" where
  "advanced m m' \<longleftrightarrow>
     msg_ID m' = msg_ID m \<and> msg_Content m' = msg_Content m \<and> msg_To m' = msg_To m \<and>
     msg_CreatedAt m' = msg_CreatedAt m \<and> msg_RetryCount m \<le> msg_RetryCount m' \<and>
     (msg_Status m' = StatusUnsent \<longrightarrow> msg_Status m = StatusUnsent)"

lemma advanced_refl [simp]: "advanced m m"
  by (simp add: advanced_def)

lemma advanced_trans: "advanced m\<^sub>1 m\<^sub>2 \<Longrightarrow> advanced m\<^sub>2 m\<^sub>3 \<Longrightarrow> advanced m\<^sub>1 m\<^sub>3"
  by (auto simp: advanced_def)

lemma docs_step:
  assumes "document_store E docs" and "answers E w e w'" and "advances e" and "docs w i = Some m"
  shows "\<exists>m'. docs w' i = Some m' \<and> advanced m m' \<and>
    msg_RetryCount m + (if wrote_retry i None e then 1 else 0) \<le> msg_RetryCount m'"
proof -
  note law = assms(1) [unfolded document_store_def, rule_format, OF assms(2)]
  show ?thesis
  proof (cases e)
    case (Did f r)
    then show ?thesis
      using law assms(3,4)
      by (cases f)
        (auto simp: advances_def advanced_def apply_update_def wrote_retry_def retry_update_def
          split: if_splits option.splits)
  next
    case (FetchedAll q r)
    then show ?thesis using law assms(4) by (cases r) (auto simp: wrote_retry_def)
  qed (use law assms(4) in \<open>auto simp: wrote_retry_def\<close>)
qed

lemma docs_advance:
  "document_store E docs \<Longrightarrow> follows E w h w' \<Longrightarrow> \<forall>e\<in>set h. advances e \<Longrightarrow> docs w i = Some m \<Longrightarrow>
     \<exists>m'. docs w' i = Some m' \<and> advanced m m'"
proof (induction h arbitrary: w m)
  case (Cons e h)
  then obtain w\<^sub>1 where e: "answers E w e w\<^sub>1" and h: "follows E w\<^sub>1 h w'" by auto
  from Cons.prems docs_step [OF Cons.prems(1) e _ Cons.prems(4)] obtain m\<^sub>1 where
    m\<^sub>1: "docs w\<^sub>1 i = Some m\<^sub>1" "advanced m m\<^sub>1" by auto
  from Cons.IH [OF Cons.prems(1) h _ m\<^sub>1(1)] Cons.prems(3) m\<^sub>1(2) show ?case
    by (auto intro: advanced_trans)
qed simp

text \<open>A document comes into the store by an insert, under an id of its own.\<close>

lemma docs_new:
  assumes "document_store E docs" and "answers E w e w'" and "docs w i = None" and "docs w' i = Some m'"
  shows "\<exists>m r. e = Did (MongoInsertOne m) r \<and> m' = m\<lparr>msg_ID := i\<rparr>"
proof -
  note law = assms(1) [unfolded document_store_def, rule_format, OF assms(2)]
  show ?thesis
  proof (cases e)
    case (Did f r)
    then show ?thesis using law assms(3,4) by (cases f) (auto split: if_splits)
  next
    case (FetchedAll q r)
    then show ?thesis using law assms(3,4) by (cases r) auto
  qed (use law assms(3,4) in auto)
qed

lemma docs_origin:
  "document_store E docs \<Longrightarrow> follows E w h w' \<Longrightarrow> \<forall>e\<in>set h. advances e \<Longrightarrow>
     docs w i = None \<Longrightarrow> docs w' i = Some m' \<Longrightarrow>
     \<exists>m r. Did (MongoInsertOne m) r \<in> set h \<and> advanced (m\<lparr>msg_ID := i\<rparr>) m'"
proof (induction h arbitrary: w)
  case (Cons e h)
  then obtain w\<^sub>1 where e: "answers E w e w\<^sub>1" and h: "follows E w\<^sub>1 h w'" by auto
  show ?case
  proof (cases "docs w\<^sub>1 i")
    case None
    with Cons.IH [OF Cons.prems(1) h] Cons.prems show ?thesis by auto
  next
    case (Some m\<^sub>1)
    with docs_new [OF Cons.prems(1) e Cons.prems(4)] docs_advance [OF Cons.prems(1) h _ Some] Cons.prems(3,5)
    show ?thesis by fastforce
  qed
qed simp

text \<open>
  When at most the webhook fails, the document after a history is the one before it with the updates
  the history made to it, in order; the clock readings are the times those updates and the decisions may use.
\<close>

fun updates_to :: "oid \<Rightarrow> history \<Rightarrow> mongo_update list" where
  "updates_to i [] = []"
| "updates_to i (Did (MongoUpdateOne j u) r # h) = (if j = i then u # updates_to i h else updates_to i h)"
| "updates_to i (e # h) = updates_to i h"

lemma updates_to_Cons:
  "(\<And>j u r. e \<noteq> Did (MongoUpdateOne j u) r) \<Longrightarrow> updates_to i (e # h) = updates_to i h"
proof (cases e)
  case (Did f r)
  then show "(\<And>j u r. e \<noteq> Did (MongoUpdateOne j u) r) \<Longrightarrow> ?thesis" by (cases f) auto
qed auto

lemma updates_to_append: "updates_to i (h\<^sub>1 @ h\<^sub>2) = updates_to i h\<^sub>1 @ updates_to i h\<^sub>2"
  by (induction i h\<^sub>1 rule: updates_to.induct) auto

lemma updates_to_trace: "updates_to i (trace h) = updates_to i h"
  by (induction i h rule: updates_to.induct) (auto simp: updates_to_Cons)

definition clock_readings :: "history \<Rightarrow> time list" where
  "clock_readings h = concat (map (\<lambda>e. case e of Clock t \<Rightarrow> [t] | _ \<Rightarrow> []) h)"

lemma set_clock_readings: "t \<in> set (clock_readings h) \<longleftrightarrow> Clock t \<in> set h"
  by (induction h) (auto simp: clock_readings_def split: event.splits)

lemma steady_docs_step:
  assumes "document_store E docs" and "answers E w e w'" and "failed e \<longrightarrow> of_webhook e" and "docs w i = Some m"
  shows "docs w' i = Some (fold apply_update (updates_to i [e]) m)"
proof -
  note law = assms(1) [unfolded document_store_def, rule_format, OF assms(2)]
  show ?thesis
  proof (cases e)
    case (Did f r)
    then show ?thesis using law assms(3,4) by (cases f) (auto split: if_splits)
  next
    case (FetchedAll q r)
    then show ?thesis using law assms(4) by (cases r) auto
  qed (use law assms(4) in auto)
qed

lemma steady_docs:
  assumes "document_store E docs" and "follows E w h w'" and "steady h" and "docs w i = Some m"
  shows "docs w' i = Some (fold apply_update (updates_to i h) m)"
  using assms(2-)
proof (induction h arbitrary: w m)
  case (Cons e h)
  then obtain w\<^sub>1 where "answers E w e w\<^sub>1" and h: "follows E w\<^sub>1 h w'" by auto
  with Cons.prems have "docs w\<^sub>1 i = Some (fold apply_update (updates_to i [e]) m)"
    using steady_docs_step [OF assms(1)] by simp
  from Cons.IH [OF h _ this] Cons.prems(2) show ?case
    using updates_to_append [of i "[e]" h] by simp
qed simp

text \<open>Up to the first write, lookups see the stores as they were.\<close>

definition writes :: "event \<Rightarrow> bool" where
  "writes e \<longleftrightarrow>
     (\<exists>m r. e = Did (MongoInsertOne m) r) \<or> (\<exists>i u r. e = Did (MongoUpdateOne i u) r) \<or>
     (\<exists>k v d r. e = Did (RedisSet k v d) r)"

lemma quiet_trace: "\<forall>e\<in>set (trace h). \<not> writes e \<Longrightarrow> \<forall>e\<in>set h. \<not> writes e"
  by (auto simp: writes_def)

lemma quiet_docs:
  "document_store E docs \<Longrightarrow> follows E w h w' \<Longrightarrow> steady h \<Longrightarrow> \<forall>e\<in>set h. \<not> writes e \<Longrightarrow> docs w' = docs w"
proof (induction h arbitrary: w)
  case (Cons e h)
  then obtain w\<^sub>1 where e: "answers E w e w\<^sub>1" and h: "follows E w\<^sub>1 h w'" by auto
  note law = Cons.prems(1) [unfolded document_store_def, rule_format, OF e]
  have "docs w\<^sub>1 = docs w"
  proof (cases e)
    case (Did f r)
    then show ?thesis using law Cons.prems(4) by (cases f) (auto simp: writes_def)
  next
    case (FetchedAll q r)
    then show ?thesis using law Cons.prems(3) by (cases r) auto
  qed (use law in auto)
  with Cons.IH [OF Cons.prems(1) h] Cons.prems show ?case by simp
qed simp

lemma quiet_kv:
  "key_value_store E kv \<Longrightarrow> follows E w h w' \<Longrightarrow> \<forall>e\<in>set h. \<not> writes e \<Longrightarrow> kv w' = kv w"
proof (induction h arbitrary: w)
  case (Cons e h)
  then obtain w\<^sub>1 where e: "answers E w e w\<^sub>1" and h: "follows E w\<^sub>1 h w'" by auto
  note law = Cons.prems(1) [unfolded key_value_store_def, rule_format, OF e]
  have "kv w\<^sub>1 = kv w"
  proof (cases e)
    case (Did f r)
    then show ?thesis using law Cons.prems(3) by (cases f) (auto simp: writes_def)
  qed (use law in auto)
  with Cons.IH [OF Cons.prems(1) h] Cons.prems show ?case by simp
qed simp

end
