(* ===== verification/Processor_Facts.thy ===== *)
theory Processor_Facts
  imports Processor_Spec Environment
begin

text \<open>
  What the specification of the processor says of every delivery, and the processor as it is put
  together in production: the service over the MongoDB, RabbitMQ, Redis and HTTP adapters.
\<close>

section \<open>Facts of the specification\<close>

text \<open>Every write and publish of the specification, as the call it is.\<close>

lemmas event_defs =
  attempt_def wrote_status_def wrote_retry_def status_update_def retry_update_def to_dlq_def
  to_retry_def marked_def stored_webhook_id_def webhook_accepted_def webhook_posted_def
  optional_webhook_id_def optional_post_def is_http_call_def is_publish_def queue_names
  inbox_key_def webhook_key_def

lemma failure_trace:
  assumes "failure_spec n i body es out"
  shows "filter is_http_call es = []"
    and "count_events is_publish es \<le> 1"
    and "e \<in> set es \<Longrightarrow> \<not> marked k r e"
    and "e \<in> set es \<Longrightarrow> \<not> wrote_status j StatusSent r e"
    and "preceded (\<lambda>e. \<exists>r. to_retry body r e) (wrote_retry i None) es"
    and "preceded (\<lambda>e. \<exists>j r. wrote_status j StatusFailed r e) (\<lambda>e. \<exists>r. to_dlq body r e) es"
    and "out = Stopped y \<Longrightarrow> y = NilDereference \<and> FoundOne i ErrNoDocuments \<in> set es"
  using assms by (cases; auto simp: event_defs preceded_Cons)+

lemma failed_post:
  assumes "optional_post m es"
  shows "count_events is_http_call es \<le> 1" "filter is_publish es = []"
    and "e \<in> set es \<Longrightarrow> \<not> marked k r e" "e \<in> set es \<Longrightarrow> \<not> wrote_status j st r e"
  using assms by (auto simp: event_defs)

lemma delivery_trace:
  assumes "delivery_spec n k i m body es out"
  shows "count_events is_http_call es \<le> 1"
    and "count_events is_publish es \<le> 1"
    and "preceded (\<lambda>e. \<exists>k r. marked k r e) (webhook_accepted (msg_Content m) (msg_To m)) es"
    and "preceded (\<lambda>e. \<exists>j r. wrote_status j StatusSent r e) (marked k None) es"
    and "out = Stopped y \<Longrightarrow> y = NilDereference \<and> FoundOne (msg_ID m) ErrNoDocuments \<in> set es"
proof -
  from assms have "count_events is_http_call es \<le> 1 \<and> count_events is_publish es \<le> 1 \<and>
    preceded (\<lambda>e. \<exists>k r. marked k r e) (webhook_accepted (msg_Content m) (msg_To m)) es \<and>
    preceded (\<lambda>e. \<exists>j r. wrote_status j StatusSent r e) (marked k None) es \<and>
    (out = Stopped y \<longrightarrow> y = NilDereference \<and> FoundOne (msg_ID m) ErrNoDocuments \<in> set es)"
  proof cases
    case (webhook_failed es\<^sub>0 es\<^sub>1)
    from failed_post [OF webhook_failed(2)] failure_trace [OF webhook_failed(3)] show ?thesis
      by (auto simp: webhook_failed(1) intro!: preceded_none)
  qed (auto simp: event_defs preceded_Cons)
  then show "count_events is_http_call es \<le> 1"
    and "count_events is_publish es \<le> 1"
    and "preceded (\<lambda>e. \<exists>k r. marked k r e) (webhook_accepted (msg_Content m) (msg_To m)) es"
    and "preceded (\<lambda>e. \<exists>j r. wrote_status j StatusSent r e) (marked k None) es"
    and "out = Stopped y \<Longrightarrow> y = NilDereference \<and> FoundOne (msg_ID m) ErrNoDocuments \<in> set es"
    by blast+
qed

text \<open>
  The events of a delivery by what they say of it: the webhook took the document that was looked
  up; the inbox holds the id of the queue message.
\<close>

definition accepted_looked_up :: "history \<Rightarrow> event \<Rightarrow> bool" where
  "accepted_looked_up H e \<longleftrightarrow>
     (\<exists>i m. FoundOne i (Found m) \<in> set H \<and> webhook_accepted (msg_Content m) (msg_To m) e)"

definition marked_body :: "string \<Rightarrow> event \<Rightarrow> bool" where
  "marked_body body e \<longleftrightarrow>
     (\<exists>q. unmarshal_queue_message body empty_queue_message = Inr q \<and> marked (qm_ID q) None e)"

lemma accepted_looked_up_accepted: "accepted_looked_up H e \<Longrightarrow> \<exists>c t. webhook_accepted c t e"
  by (auto simp: accepted_looked_up_def)

lemma handler_trace:
  assumes "handler_spec L p d empty_queue_message H es out"
  shows "count_events is_http_call es \<le> 1 \<and> count_events is_publish es \<le> 1 \<and>
    preceded (\<lambda>e. \<exists>k r. marked k r e) (accepted_looked_up es) es \<and>
    preceded (\<lambda>e. \<exists>j r. wrote_status j StatusSent r e) (marked_body (Body d)) es \<and>
    (out = Stopped y \<longrightarrow> y = NilDereference \<and> (\<exists>i. FoundOne i ErrNoDocuments \<in> set es))"
  using assms
proof cases
  case (processed q reply i m t es\<^sub>1)
  note facts = delivery_trace [OF processed(8)]
  have acc: "accepted_looked_up es e" if "webhook_accepted (msg_Content m) (msg_To m) e" for e
    using that processed(1) unfolding accepted_looked_up_def by auto
  have mrk: "marked_body (Body d) e" if "marked (qm_ID q) None e" for e
    using that processed(2) unfolding marked_body_def by auto
  from facts preceded_mono [OF facts(3) acc] preceded_mono [OF facts(4) mrk] show ?thesis
    by (auto simp: processed(1) preceded_Cons marked_def wrote_status_def is_http_call_def
        is_publish_def)
qed (auto simp: event_defs preceded_Cons)

lemma process_trace:
  assumes "process_spec L p d H es out"
  shows "count_events is_http_call es \<le> 1 \<and> count_events is_publish es \<le> 1 \<and>
    preceded (\<lambda>e. \<exists>k r. marked k r e) (accepted_looked_up es) es \<and>
    preceded (\<lambda>e. \<exists>j r. wrote_status j StatusSent r e) (marked_body (Body d)) es \<and>
    (out = Stopped y \<longrightarrow> y = NilDereference \<and> (\<exists>i. FoundOne i ErrNoDocuments \<in> set es))"
proof -
  from assms obtain es\<^sub>1 es\<^sub>2 out' where es: "es = es\<^sub>1 @ es\<^sub>2" and ack: "ack_spec d es\<^sub>1"
    and h: "handler_spec L p d empty_queue_message H es\<^sub>2 out'" and out: "out = wrapped out'"
    unfolding process_spec_def by blast
  have "accepted_looked_up es\<^sub>2 e \<Longrightarrow> accepted_looked_up es e" for e
    by (auto simp: accepted_looked_up_def es)
  moreover have "out = Stopped y \<longleftrightarrow> out' = Stopped y"
    unfolding out by (cases out' rule: wrapped.cases) auto
  ultimately show ?thesis
    using ack handler_trace [OF h, of y]
    by (auto simp: ack_spec_def es preceded_Cons marked_def wrote_status_def is_http_call_def
        is_publish_def split: if_splits intro: preceded_mono)
qed

text \<open>
  What a delivery writes to the two stores: marks in the inbox, and updates under which documents
  only advance; it inserts none.
\<close>

definition no_insert :: "event \<Rightarrow> bool" where
  "no_insert e \<longleftrightarrow> (\<forall>m r. e \<noteq> Did (MongoInsertOne m) r)"

definition benign :: "event \<Rightarrow> bool" where
  "benign e \<longleftrightarrow> only_marks e \<and> advances e \<and> no_insert e"

lemmas benign_defs = benign_def only_marks_def advances_def no_insert_def

lemma benign_simps [simp]:
  "benign (FoundOne i a)" "benign (GotKey k reply)" "benign (Did (AmqpNack t b) r)"
  "benign (Did (AmqpAck t) r)" "benign (HttpDone v u body s)"
  by (simp_all add: benign_defs)

lemma benign_writes:
  "wrote_status i st r e \<Longrightarrow> st \<noteq> StatusUnsent \<Longrightarrow> benign e" "wrote_retry i r e \<Longrightarrow> benign e" "marked k r e \<Longrightarrow> benign e"
  "stored_webhook_id k v e \<Longrightarrow> benign e" "to_dlq b r e \<Longrightarrow> benign e" "to_retry b r e \<Longrightarrow> benign e"
  "webhook_posted c t e \<Longrightarrow> benign e" "webhook_accepted c t e \<Longrightarrow> benign e"
  by (auto simp: event_defs benign_defs)

lemma unobserved_benign: "\<not> observed e \<Longrightarrow> benign e"
  by (auto simp: benign_defs)

lemmas occurrence_defs = attempt_def optional_webhook_id_def optional_post_def

lemma failure_benign: "failure_spec n i body es out \<Longrightarrow> e \<in> set es \<Longrightarrow> benign e"
  by (cases rule: failure_spec.cases) (auto simp: occurrence_defs dest: benign_writes)

lemma delivery_benign: "delivery_spec n k i m body es out \<Longrightarrow> e \<in> set es \<Longrightarrow> benign e"
  by (cases rule: delivery_spec.cases) (auto simp: occurrence_defs dest: benign_writes failure_benign)

lemma handler_benign: "handler_spec L p d q\<^sub>0 H es out \<Longrightarrow> e \<in> set es \<Longrightarrow> benign e"
  by (cases rule: handler_spec.cases) (auto simp: occurrence_defs dest: benign_writes delivery_benign)

lemma process_spec_benign: "process_spec L p d H es out \<Longrightarrow> e \<in> set es \<Longrightarrow> benign e"
  by (auto simp: process_spec_def ack_spec_def split: if_splits dest: handler_benign)

lemma process_benign: "process_spec L p d H (trace h) out \<Longrightarrow> e \<in> set h \<Longrightarrow> benign e"
  using process_spec_benign [of L p d H "trace h" out e] unobserved_benign [of e] by auto

section \<open>Requeues\<close>

text \<open>A publish to the retry queue of a body that names the document \<open>i\<close>.\<close>

definition requeue_of :: "oid_codec \<Rightarrow> oid \<Rightarrow> event \<Rightarrow> bool" where
  "requeue_of L i e \<longleftrightarrow>
     (\<exists>body q r. to_retry body r e \<and>
        unmarshal_queue_message body empty_queue_message = Inr q \<and>
        ObjectIDFromHex L (qm_ID q) = Inr i)"

lemma requeue_observed: "requeue_of L i e \<Longrightarrow> observed e"
  by (auto simp: requeue_of_def to_retry_def)

lemma failure_requeues: "failure_spec n i body es out \<Longrightarrow> e \<in> set es \<Longrightarrow> to_retry b r e \<Longrightarrow> b = body"
  by (cases rule: failure_spec.cases) (auto simp: event_defs)

lemma delivery_requeues:
  "delivery_spec n k i m body es out \<Longrightarrow> e \<in> set es \<Longrightarrow> to_retry b r e \<Longrightarrow> b = body"
  by (cases rule: delivery_spec.cases) (auto simp: event_defs dest: failure_requeues)

section \<open>Panics, posts and the fate of a delivery\<close>

lemma failure_missing: "failure_spec n i body es out \<Longrightarrow> FoundOne j ErrNoDocuments \<in> set es \<Longrightarrow> \<exists>y. out = Stopped y"
  by (cases rule: failure_spec.cases) (auto simp: event_defs)

lemma delivery_missing:
  "delivery_spec n k i m body es out \<Longrightarrow> FoundOne j ErrNoDocuments \<in> set es \<Longrightarrow> \<exists>y. out = Stopped y"
  by (cases rule: delivery_spec.cases) (auto simp: event_defs dest: failure_missing)

lemma handler_missing:
  "handler_spec L p d q\<^sub>0 H es out \<Longrightarrow> FoundOne j ErrNoDocuments \<in> set es \<Longrightarrow> \<exists>y. out = Stopped y"
  by (cases rule: handler_spec.cases) (auto simp: event_defs dest: delivery_missing)

lemma process_missing:
  "process_spec L p d H es out \<Longrightarrow> FoundOne j ErrNoDocuments \<in> set es \<Longrightarrow> \<exists>y. out = Stopped y"
  by (auto simp: process_spec_def ack_spec_def split: if_splits dest!: handler_missing)

lemma delivery_posts:
  assumes "delivery_spec n k i m body es out" and "e \<in> set es" and "is_http_call e"
  shows "webhook_posted (msg_Content m) (msg_To m) e"
  using assms
proof cases
  case (webhook_failed es\<^sub>0 es\<^sub>1)
  with failure_trace(1) [OF webhook_failed(3)] assms have "e \<in> set es\<^sub>0"
    by (auto simp: filter_empty_conv)
  with webhook_failed(2) show ?thesis by (auto simp: optional_post_def)
qed (use assms in \<open>auto simp: event_defs\<close>)

text \<open>What is posted is the document the body names, fresh and with retries left.\<close>

definition deliverable :: "oid_codec \<Rightarrow> message_processor \<Rightarrow> string \<Rightarrow> history \<Rightarrow> message \<Rightarrow> bool" where
  "deliverable L p body H m \<longleftrightarrow>
     (\<exists>q i t. unmarshal_queue_message body empty_queue_message = Inr q \<and>
        ObjectIDFromHex L (qm_ID q) = Inr i \<and> FoundOne i (Found m) \<in> set H \<and>
        msg_RetryCount m < maxRetries p \<and> Clock t \<in> set H \<and>
        time_sub t (msg_UpdatedAt m) \<le> staleDuration p)"

lemma process_posts:
  assumes "process_spec L p d H (trace h) out" and "H = h" and "e \<in> set h" and "is_http_call e"
  shows "\<exists>m. deliverable L p (Body d) h m \<and> webhook_posted (msg_Content m) (msg_To m) e"
proof -
  from assms(1) obtain es\<^sub>1 es\<^sub>2 out' where tr: "trace h = es\<^sub>1 @ es\<^sub>2" and ack: "ack_spec d es\<^sub>1"
    and spec: "handler_spec L p d empty_queue_message H es\<^sub>2 out'"
    unfolding process_spec_def by blast
  have "e \<in> set (trace h)" using assms(3,4) is_http_call_observed by simp
  with tr ack assms(4) have e: "e \<in> set es\<^sub>2"
    by (auto simp: ack_spec_def is_http_call_def split: if_splits)
  have sub: "set es\<^sub>2 \<subseteq> set h" using tr by (metis filter_is_subset set_append le_sup_iff)
  from spec show ?thesis
  proof cases
    case (processed q reply i m t es)
    with e assms(4) have "e \<in> set es" by (auto simp: is_http_call_def)
    then have "webhook_posted (msg_Content m) (msg_To m) e"
      using delivery_posts [OF processed(8)] assms(4) by blast
    moreover have "deliverable L p (Body d) h m"
      unfolding deliverable_def using processed sub assms(2)
      by (intro exI [of _ q] exI [of _ i] exI [of _ t]) (auto simp: stale_at_def)
    ultimately show ?thesis by blast
  qed (use e assms(4) in \<open>auto simp: event_defs\<close>)
qed

lemma failure_order:
  assumes "failure_spec n i body es out"
  shows "preceded (\<lambda>e. \<exists>b r. to_retry b r e) (\<lambda>e. \<exists>i. wrote_retry i None e) es \<and>
    preceded (\<lambda>e. \<exists>j r. wrote_status j StatusFailed r e) (\<lambda>e. \<exists>b r. to_dlq b r e) es"
  using assms by cases (auto simp: event_defs preceded_Cons)

lemma delivery_order:
  assumes "delivery_spec n k i m body es out"
  shows "preceded (\<lambda>e. \<exists>b r. to_retry b r e) (\<lambda>e. \<exists>i. wrote_retry i None e) es \<and>
    preceded (\<lambda>e. \<exists>j r. wrote_status j StatusFailed r e) (\<lambda>e. \<exists>b r. to_dlq b r e) es"
  using assms
proof cases
  case (webhook_failed es\<^sub>0 es\<^sub>1)
  with failure_order [OF webhook_failed(3)] show ?thesis
    by (auto simp: optional_post_def webhook_posted_def preceded_Cons to_retry_def wrote_status_def)
qed (auto simp: event_defs preceded_Cons)

lemma process_order:
  assumes "process_spec L p d H es out"
  shows "preceded (\<lambda>e. \<exists>b r. to_retry b r e) (\<lambda>e. \<exists>i. wrote_retry i None e) es \<and>
    preceded (\<lambda>e. \<exists>j r. wrote_status j StatusFailed r e) (\<lambda>e. \<exists>b r. to_dlq b r e) es"
proof -
  have "preceded (\<lambda>e. \<exists>b r. to_retry b r e) (\<lambda>e. \<exists>i. wrote_retry i None e) es\<^sub>2 \<and>
    preceded (\<lambda>e. \<exists>j r. wrote_status j StatusFailed r e) (\<lambda>e. \<exists>b r. to_dlq b r e) es\<^sub>2"
    if "handler_spec L p d q\<^sub>0 H es\<^sub>2 out'" for q\<^sub>0 es\<^sub>2 out'
    using that
  proof cases
    case (processed q reply i m t es)
    with delivery_order [OF processed(8)] show ?thesis
      by (auto simp: preceded_Cons to_retry_def wrote_status_def)
  qed (auto simp: event_defs preceded_Cons)
  with assms show ?thesis
    by (auto simp: process_spec_def ack_spec_def preceded_Cons to_retry_def wrote_status_def
        split: if_splits)
qed

text \<open>A delivery asks the inbox at most once, and the answer decides.\<close>

lemma failure_no_lookup: "failure_spec n i body es out \<Longrightarrow> GotKey k reply \<notin> set es"
  by (cases rule: failure_spec.cases) (auto simp: event_defs)

lemma delivery_no_lookup: "delivery_spec n k i m body es out \<Longrightarrow> GotKey k' reply \<notin> set es"
  by (cases rule: delivery_spec.cases) (auto simp: event_defs failure_no_lookup)

lemma handler_lookup:
  assumes "handler_spec L p d q\<^sub>0 H es out" and "GotKey k reply \<in> set es"
    and "unmarshal_queue_message (Body d) q\<^sub>0 = Inr q"
  shows "k = inbox_key (qm_ID q) \<and> (\<exists>es'. es = GotKey k reply # es' \<and>
    (case inbox_answer reply of
       Inl err \<Rightarrow> (\<exists>r. es' = [Did (AmqpNack (DeliveryTag d) True) r]) \<and> (\<exists>err. out = Done (Some err))
     | Inr True \<Rightarrow>
         (case ObjectIDFromHex L (qm_ID q) of
            Inl err \<Rightarrow> es' = [] \<and> out = Done (Some err)
          | Inr i \<Rightarrow> (\<exists>ok. attempt (wrote_status i StatusDuplicate) es' ok) \<and> out = Done None)
     | Inr False \<Rightarrow> True))"
  using assms
proof cases
  case (processed q' reply' i m t es\<^sub>1)
  with assms delivery_no_lookup [OF processed(8)] show ?thesis by auto
next
  case (duplicate q' reply' i es' ok)
  moreover have "reply' = reply" "k = inbox_key (qm_ID q)" "q' = q"
    using assms(2,3) duplicate by (auto simp: attempt_def wrote_status_def)
  ultimately show ?thesis by auto
qed (use assms in \<open>auto simp: attempt_def wrote_status_def to_dlq_def\<close>)

section \<open>The processor in production\<close>

definition NewProcessorService ::
  "message_processor \<Rightarrow> message_repository \<Rightarrow> message_queue \<Rightarrow> idempotency_service \<Rightarrow>
   webhook_client \<Rightarrow> processor_service" where
  "NewProcessorService p R Q I W =
     \<lparr>processor = p, repository = R, queue = Q, idempotencyService = I, webhookClient = W\<rparr>"

text \<open>
  The service the \<open>main\<close> of the processor builds: \<open>n\<close> is the configured maximal number of retries,
  \<open>url\<close> and \<open>timeout\<close> are the webhook's, \<open>mq\<close> is the connected queue adapter. The stale duration is
  fixed to four minutes.
\<close>

definition production :: "int \<Rightarrow> string \<Rightarrow> duration \<Rightarrow> rabbitMQAdapter \<Rightarrow> processor_service" where
  "production n url timeout mq =
     NewProcessorService (NewMessageProcessor n (4 * Minute)) mongoMessageRepository (rabbitMQ mq)
       redisIdempotencyService (http_SendMessage (NewHTTPWebhookClient url timeout))"

lemma production_parts [simp]:
  "processor (production n url timeout mq) = NewMessageProcessor n (4 * Minute)"
  "repository (production n url timeout mq) = mongoMessageRepository"
  "queue (production n url timeout mq) = rabbitMQ mq"
  "idempotencyService (production n url timeout mq) = redisIdempotencyService"
  "webhookClient (production n url timeout mq) = http_SendMessage (NewHTTPWebhookClient url timeout)"
  by (simp_all add: production_def NewProcessorService_def)

interpretation production: processor_contract "production n url timeout mq" for n url timeout mq
  unfolding processor_contract_def production_parts
  by (intro conjI mongo.message_repository_port_axioms rabbit.message_queue_port_axioms
      redis.idempotency_port_axioms http.webhook_port_axioms)

end
