(* ===== verification/Processor_Loops.thy ===== *)
theory Processor_Loops
  imports Processor_Facts
begin

text \<open>
  The loops of the processor: the consumer (\<open>Start\<close>) and the monitor of stale messages, for any
  ports that keep their contracts.
\<close>

section \<open>What the loops leave\<close>

text \<open>
  The recovery of one stale message: its document is published to the dead letter queue, without
  its recipient, and if that is done, it is set to failed.
\<close>

definition recovered_body :: "oid_codec \<Rightarrow> message \<Rightarrow> string" where
  "recovered_body L m =
     marshal_queue_message
       \<lparr>qm_ID = Hex L (msg_ID m), qm_Content = msg_Content m, qm_To = [], qm_Retry = msg_RetryCount m\<rparr>"

definition recovery_spec :: "oid_codec \<Rightarrow> message \<Rightarrow> history \<Rightarrow> bool" where
  "recovery_spec L m es \<longleftrightarrow>
     (\<exists>err e. es = [e] \<and> to_dlq (recovered_body L m) (Some err) e) \<or>
     (\<exists>e es\<^sub>1 ok. es = e # es\<^sub>1 \<and> to_dlq (recovered_body L m) None e \<and>
        attempt (wrote_status (msg_ID m) StatusFailed) es\<^sub>1 ok)"

text \<open>The body of a zero delivery is empty, and an empty text is no JSON.\<close>

lemma empty_body: "\<exists>err. unmarshal_queue_message [] q = Inl err"
  by (auto simp: unmarshal_queue_message_def unmarshal_struct_def json_parse_def scan_eof_def begin_value_def)

context processor_contract
begin

lemma consume_Cons:
  assumes "ends (consume L s (r # rs)) h out"
  obtains (stop) "r = DoneClosed" "h = []" "out = Done ()"
  | (panic) d y where "r = Delivered d \<or> r = FromClosedChannel \<and> d = zero_delivery"
      "ends (processMessage L s d) h (Stopped y)" "out = Stopped y"
  | (step) d h\<^sub>1 h\<^sub>2 x where "r = Delivered d \<or> r = FromClosedChannel \<and> d = zero_delivery"
      "h = h\<^sub>1 @ h\<^sub>2" "ends (processMessage L s d) h\<^sub>1 (Done x)" "ends (consume L s rs) h\<^sub>2 out"
  using assms by (cases r) (auto simp: replay_simps)

lemma consume_benign:
  "ends (consume L s rs) h out \<Longrightarrow> e \<in> set h \<Longrightarrow> benign e"
proof (induction rs arbitrary: h)
  case (Cons r rs)
  from Cons.prems(1) show ?case
    by (cases rule: consume_Cons) (use Cons process_benign [OF process_refines] in auto)
qed (auto simp: replay_simps)

text \<open>A message in the inbox is not delivered again.\<close>

lemma in_inbox_not_posted:
  assumes run: "ends (processMessage L s d) h out" and w: "follows E w h w'"
    and kv: "key_value_store E kv" and inbox: "in_inbox kv w (qm_ID q)"
    and body: "unmarshal_queue_message (Body d) empty_queue_message = Inr q"
  shows "filter is_http_call h = [] \<and> filter is_publish h = []"
proof -
  from process_refines [OF run] obtain es\<^sub>1 es\<^sub>2 out' where tr: "trace h = es\<^sub>1 @ es\<^sub>2"
    and ack: "ack_spec d es\<^sub>1"
    and spec: "handler_spec L (processor s) d empty_queue_message h es\<^sub>2 out'"
    unfolding process_spec_def by blast
  have answer: "inbox_answer reply \<noteq> Inr False" if "GotKey (inbox_key (qm_ID q)) reply \<in> set h" for reply
  proof -
    from that obtain h\<^sub>1 h\<^sub>2 where h: "h = h\<^sub>1 @ GotKey (inbox_key (qm_ID q)) reply # h\<^sub>2"
      by (meson split_list)
    with w obtain w\<^sub>1 w\<^sub>2 where w\<^sub>1: "follows E w h\<^sub>1 w\<^sub>1"
      and got: "answers E w\<^sub>1 (GotKey (inbox_key (qm_ID q)) reply) w\<^sub>2"
      by (auto simp: follows_append)
    have "\<forall>e\<in>set h\<^sub>1. only_marks e"
      using process_benign [OF process_refines [OF run]] h by (auto simp: benign_def)
    from in_inbox_answer [OF kv got in_inbox_follows [OF kv w\<^sub>1 this inbox]] show ?thesis by auto
  qed
  have "set es\<^sub>2 \<subseteq> set h" using tr by (metis filter_is_subset set_append le_sup_iff)
  with answer body have "filter is_http_call es\<^sub>2 = [] \<and> filter is_publish es\<^sub>2 = []"
    by (cases rule: handler_spec.cases [OF spec]) (auto simp: event_defs)
  with ack have "filter is_http_call (trace h) = [] \<and> filter is_publish (trace h) = []"
    unfolding tr by (auto simp: ack_spec_def is_http_call_def is_publish_def split: if_splits)
  then show ?thesis
    by (metis filter_trace is_http_call_observed is_publish_observed)
qed

text \<open>A closed channel yields zero deliveries: each is one publish of nothing.\<close>

lemma zero_delivery_trace:
  assumes "ends (processMessage L s zero_delivery) h out"
  shows "\<exists>e r err. trace h = [e] \<and> to_dlq [] r e \<and> out = Done (Some err)"
proof -
  from process_refines [OF assms] obtain out' where
    spec: "handler_spec L (processor s) zero_delivery empty_queue_message h (trace h) out'"
    and out: "out = wrapped out'"
    by (auto simp: process_spec_def ack_spec_def zero_delivery_def)
  show ?thesis
    by (cases rule: handler_spec.cases [OF spec])
      (use out empty_body [of empty_queue_message] in \<open>auto simp: zero_delivery_def\<close>)
qed

lemma closed_channel:
  assumes "ends (consume L s (replicate k FromClosedChannel)) h out"
  shows "out = Done () \<and> length (trace h) = k \<and> list_all (\<lambda>e. \<exists>r. to_dlq [] r e) (trace h)"
  using assms
proof (induction k arbitrary: h)
  case (Suc k)
  from Suc.prems show ?case
    unfolding replicate_Suc
    by (cases rule: consume_Cons) (use Suc.IH in \<open>auto dest!: zero_delivery_trace\<close>)
qed (auto simp: replay_simps)

lemma recovery_refines:
  assumes "ends (handleStaleMessageRecovery L s m) h (Done r)"
  shows "recovery_spec L m (trace h)"
  using assms
  unfolding handleStaleMessageRecovery_def recovery_spec_def recovered_body_def Let_def replay_simps
  by (auto dest!: R.UpdateStatus_trace Q.MoveToDeadLetter_trace)

lemma recovery_returns: "no_halt (handleStaleMessageRecovery L s m)"
  by (auto simp: no_halt_def handleStaleMessageRecovery_def Let_def replay_simps)

lemma stale_check_refines:
  assumes "ends (checkStaleMessages L s) h out"
  shows "(\<exists>err. out = Done (Some err) \<and> (trace h = [] \<or> (\<exists>t e. trace h = [FetchedAll (stale_query (t - 4 * Minute)) (Inl e)]))) \<or>
    out = Done None \<and> (\<exists>t ms ess. Clock t \<in> set h \<and>
      trace h = FetchedAll (stale_query (t - 4 * Minute)) (Inr ms) # concat ess \<and>
      list_all2 (recovery_spec L) ms ess)"
  using assms unfolding checkStaleMessages_def
proof (cases rule: ends_bind_sumE [OF _ R.FindStale_no_halt, consumes 1, case_names failed found])
  case (failed h\<^sub>1 h\<^sub>2 err)
  then show ?thesis
    using R.FindStale_error_trace [OF failed(2)] by (auto simp: replay_simps)
next
  case (found h\<^sub>1 h\<^sub>2 ms)
  have loop: "no_halt (for_each ms (handleStaleMessageRecovery L s))"
    by (rule no_halt_for_each) (rule recovery_returns)
  with found(3) have run: "ends (for_each ms (handleStaleMessageRecovery L s)) h\<^sub>2 (Done ())"
    and out: "out = Done None"
    by (auto simp: replay_simps no_halt_def)
  from for_each_trace [OF run] recovery_refines obtain ess where
    "trace h\<^sub>2 = concat ess" "list_all2 (recovery_spec L) ms ess" by blast
  with R.FindStale_trace [OF found(2)] out found(1) show ?thesis by auto blast
qed

end

end
