(* ===== verification/Simulation.thy ===== *)
theory Simulation
  imports Processor_Loops
begin

text \<open>
  A concrete environment, in memory: a collection of documents (with the ids a cursor goes through), a key-value store, a webhook that
  answers from a script, a clock that stands still, and a list of services that are down. The
  statements that assume something of the environment or of the driver's id functions are
  applied to it, which shows that their assumptions can hold together.
\<close>

section \<open>The driver's ids\<close>

text \<open>An instance of the driver's two id functions: the decimal text of an id.\<close>

definition decimal_codec :: oid_codec where
  "decimal_codec =
     \<lparr>Hex = (\<lambda>i. show_nat (unat i)),
      ObjectIDFromHex = (\<lambda>s. case parse_int s of
         Some n \<Rightarrow> Inr (word_of_int n) | None \<Rightarrow> Inl (GoErr ''the provided hex string is not a valid ObjectID''))\<rparr>"

lemma decimal_codec_ok: "oid_codec_ok decimal_codec"
proof -
  have "parse_int (show_nat n) = Some (int n)" for n
    using parse_int_show_int [of "int n"] by (simp add: show_int_def)
  then show ?thesis by (simp add: oid_codec_ok_def decimal_codec_def)
qed

section \<open>The environment\<close>

record sim =
  sim_docs :: "oid \<Rightarrow> message option"
  sim_ids :: "oid list"
  sim_kv :: "string \<Rightarrow> string option"
  sim_clock :: int
  sim_webhook :: "int list"
  sim_down :: "service list"

definition sim_fails :: "sim \<Rightarrow> service \<Rightarrow> go_error option" where
  "sim_fails w S = (if S \<in> set (sim_down w) then Some (GoErr ''down'') else None)"

primrec sim_do :: "eff \<Rightarrow> sim \<Rightarrow> sim" where
  "sim_do (MongoInsertOne m) w =
     (if sim_docs w (msg_ID m) = None then w\<lparr>sim_docs := (sim_docs w)(msg_ID m \<mapsto> m)\<rparr> else w)"
| "sim_do (MongoUpdateOne i u) w =
     w\<lparr>sim_docs := (sim_docs w)(i := map_option (apply_update u) (sim_docs w i))\<rparr>"
| "sim_do (MongoFind q) w = w"
| "sim_do (CursorClose q) w = w"
| "sim_do (MongoConnect u) w = w"
| "sim_do MongoDisconnect w = w"
| "sim_do (RedisSet k v d) w = w\<lparr>sim_kv := (sim_kv w)(k \<mapsto> v)\<rparr>"
| "sim_do RedisClose w = w"
| "sim_do (AmqpDial u) w = w"
| "sim_do AmqpOpenChannel w = w"
| "sim_do (AmqpExchangeDeclare n t d) w = w"
| "sim_do (AmqpQueueDeclare n d a) w = w"
| "sim_do (AmqpQueueBind q k x) w = w"
| "sim_do (AmqpPublish x k p) w = w"
| "sim_do (AmqpConsume q) w = w"
| "sim_do (AmqpAck t) w = w"
| "sim_do (AmqpNack t r) w = w"
| "sim_do AmqpCloseChannel w = w"
| "sim_do AmqpCloseConnection w = w"
| "sim_do (HttpNewRequest m u b) w = w"
| "sim_do HttpCloseBody w = w"
| "sim_do LimiterWait w = w"
| "sim_do (BreakerAdmit n) w = w"
| "sim_do (BreakerReport n ok) w = w"
| "sim_do SchedulerStart w = w"
| "sim_do SchedulerStop w = w"

definition insert_clashes :: "eff \<Rightarrow> sim \<Rightarrow> bool" where
  "insert_clashes e w =
     (case e of MongoInsertOne m \<Rightarrow> sim_docs w (msg_ID m) \<noteq> None | _ \<Rightarrow> False)"

definition sim_on_do :: "eff \<Rightarrow> sim \<Rightarrow> go_error option \<times> sim" where
  "sim_on_do e w =
     (if insert_clashes e w then (Some (GoErr ''duplicate key''), w)
      else case sim_fails w (service_of_eff e) of
        Some err \<Rightarrow> (Some err, w)
      | None \<Rightarrow> (None, sim_do e w))"

text \<open>The documents of the simulation are stored under their own id.\<close>

definition sim_find :: "oid \<Rightarrow> sim \<Rightarrow> find_one_result" where
  "sim_find i w =
     (case sim_fails w Mongo of
        Some err \<Rightarrow> FindOneError err
      | None \<Rightarrow>
          (case sim_docs w i of
             None \<Rightarrow> ErrNoDocuments
           | Some m \<Rightarrow> if msg_ID m = i then Found m else FindOneError (GoErr ''corrupt document'')))"

definition sim_scan :: "oid list \<Rightarrow> sim \<Rightarrow> message list" where
  "sim_scan is w =
     concat (map (\<lambda>i. case sim_docs w i of
       Some m \<Rightarrow> if msg_ID m = i then [m] else [] | None \<Rightarrow> []) is)"

definition sim_cursor :: "mongo_query \<Rightarrow> sim \<Rightarrow> message list result" where
  "sim_cursor q w =
     (case sim_fails w Mongo of
        Some err \<Rightarrow> Inl err
      | None \<Rightarrow>
          Inr ((case query_limit q of None \<Rightarrow> id | Some n \<Rightarrow> take (nat n))
            (filter (selects q) (sim_scan (remdups (sim_ids w)) w))))"

lemma sim_scan_ids: "map msg_ID (sim_scan is w) = filter (\<lambda>i. map_option msg_ID (sim_docs w i) = Some i) is"
  by (induction "is") (auto simp: sim_scan_def split: option.splits)

lemma sim_scan_docs: "m \<in> set (sim_scan is w) \<Longrightarrow> sim_docs w (msg_ID m) = Some m"
  by (auto simp: sim_scan_def split: option.splits if_splits)

lemma sim_cursor_answer:
  assumes "sim_cursor q w = Inr ms"
  shows "(\<forall>m\<in>set ms. sim_docs w (msg_ID m) = Some m \<and> selects q m) \<and> distinct (map msg_ID ms)"
proof -
  let ?all = "sim_scan (remdups (sim_ids w)) w"
  have all: "distinct (map msg_ID ?all)" by (simp add: sim_scan_ids)
  then have "distinct (map msg_ID (filter (selects q) ?all))" by (rule distinct_map_filter)
  then have "distinct (map msg_ID (take k (filter (selects q) ?all)))" for k
    by (metis distinct_take take_map)
  moreover have "set (take k (filter (selects q) ?all)) \<subseteq> {m \<in> set ?all. selects q m}" for k
    by (auto dest: in_set_takeD)
  ultimately show ?thesis
    using assms \<open>distinct (map msg_ID (filter (selects q) ?all))\<close>
    by (fastforce simp: sim_cursor_def sim_scan_docs split: option.splits)
qed

definition sim_get :: "string \<Rightarrow> sim \<Rightarrow> redis_reply" where
  "sim_get k w =
     (case sim_fails w Redis of
        Some err \<Rightarrow> RedisError err
      | None \<Rightarrow> (case sim_kv w k of None \<Rightarrow> RedisNil | Some v \<Rightarrow> RedisValue v))"

definition sim_post :: "sim \<Rightarrow> int result \<times> sim" where
  "sim_post w =
     (case sim_webhook w of
        [] \<Rightarrow> (Inl (GoErr ''connection refused''), w)
      | status # rest \<Rightarrow> (Inr status, w\<lparr>sim_webhook := rest\<rparr>))"

definition sim_env :: "sim env" where
  "sim_env =
     \<lparr>on_do = sim_on_do,
      on_now = (\<lambda>w. (sim_clock w, w)),
      on_new_oid = (\<lambda>w. (1, w)),
      on_find_one = (\<lambda>i w. (sim_find i w, w)),
      on_cursor_all = (\<lambda>q w. (sim_cursor q w, w)),
      on_redis_get = (\<lambda>k w. (sim_get k w, w)),
      on_http_do = (\<lambda>_ _ _ w. sim_post w),
      on_http_read = (\<lambda>w. (Inr [], w)),
      on_allow = (\<lambda>w. (True, w)),
      on_inspect = (\<lambda>q w. (Inr 0, w))\<rparr>"

lemma sim_key_value_store: "key_value_store sim_env sim_kv"
  unfolding key_value_store_def
proof (intro allI impI)
  fix w e w'
  assume a: "answers sim_env w e w'"
  show "case e of
        Did (RedisSet k v d) r \<Rightarrow>
          sim_kv w' = (sim_kv w)(k \<mapsto> v) \<or> r \<noteq> None \<and> sim_kv w' = sim_kv w
      | GotKey k reply \<Rightarrow>
          sim_kv w' = sim_kv w \<and>
          (case reply of RedisNil \<Rightarrow> sim_kv w k = None | RedisValue v \<Rightarrow> sim_kv w k = Some v
           | RedisError _ \<Rightarrow> True)
      | _ \<Rightarrow> sim_kv w' = sim_kv w"
  proof (cases e)
    case (Did f r)
    then show ?thesis
      using a by (cases f) (auto simp: sim_env_def sim_on_do_def split: option.splits if_splits)
  qed (use a in \<open>auto simp: sim_env_def sim_get_def sim_post_def split: option.splits list.splits\<close>)
qed

lemma sim_document_store: "document_store sim_env sim_docs"
  unfolding document_store_def
proof (intro allI impI)
  fix w e w'
  assume a: "answers sim_env w e w'"
  show "case e of
        Did (MongoUpdateOne i u) r \<Rightarrow>
          sim_docs w' = (sim_docs w)(i := map_option (apply_update u) (sim_docs w i)) \<or>
          r \<noteq> None \<and> sim_docs w' = sim_docs w
      | Did (MongoInsertOne m) r \<Rightarrow>
          (\<exists>i. sim_docs w i = None \<and> (\<not> IsZero (msg_ID m) \<longrightarrow> i = msg_ID m) \<and>
             sim_docs w' = (sim_docs w)(i \<mapsto> m\<lparr>msg_ID := i\<rparr>)) \<or>
          r \<noteq> None \<and> sim_docs w' = sim_docs w
      | FoundOne i a \<Rightarrow>
          sim_docs w' = sim_docs w \<and>
          (case a of Found m \<Rightarrow> sim_docs w i = Some m \<and> msg_ID m = i
           | ErrNoDocuments \<Rightarrow> sim_docs w i = None | FindOneError _ \<Rightarrow> True)
      | FetchedAll q (Inr ms) \<Rightarrow>
          sim_docs w' = sim_docs w \<and> (\<forall>m\<in>set ms. sim_docs w (msg_ID m) = Some m \<and> selects q m) \<and>
          distinct (map msg_ID ms)
      | _ \<Rightarrow> sim_docs w' = sim_docs w"
  proof (cases e)
    case (Did f r)
    then show ?thesis
      using a
      by (cases f) (auto simp: sim_env_def sim_on_do_def insert_clashes_def split: option.splits if_splits)
  next
    case (FetchedAll q r)
    then show ?thesis using a sim_cursor_answer by (cases r) (auto simp: sim_env_def)
  qed (use a in \<open>auto simp: sim_env_def sim_find_def sim_post_def split: option.splits list.splits if_splits\<close>)
qed

section \<open>A message and its delivery\<close>

definition sample_message :: message where
  "sample_message =
     \<lparr>msg_ID = 7, msg_To = ''+905551111111'', msg_Content = ''hello'', msg_Status = StatusProcessing,
      msg_RetryCount = 0, msg_CreatedAt = 0, msg_UpdatedAt = 0\<rparr>"

definition sample_queue_message :: queue_message where
  "sample_queue_message =
     \<lparr>qm_ID = ''7'', qm_Content = ''hello'', qm_To = ''+905551111111'', qm_Retry = 0\<rparr>"

definition sample_delivery :: delivery where
  "sample_delivery =
     \<lparr>DeliveryTag = 1, Headers = None, ContentType = ''application/json'',
      Body = marshal_queue_message sample_queue_message\<rparr>"

definition sample_world :: "int list \<Rightarrow> service list \<Rightarrow> sim" where
  "sample_world statuses down =
     \<lparr>sim_docs = [7 \<mapsto> sample_message], sim_ids = [7], sim_kv = Map.empty, sim_clock = Minute,
      sim_webhook = statuses, sim_down = down\<rparr>"

definition sample_service :: processor_service where
  "sample_service = production 5 ''http://webhook'' (30 * Second) \<lparr>has_conn = True, has_channel = True\<rparr>"

end
