(* ===== verification/Processor_Properties.thy ===== *)
theory Processor_Properties
  imports Simulation
begin

text \<open>
  The properties of the processor service as it runs in production, each with a concrete run in
  the simulated environment to which it is applied.
\<close>

section \<open>Sample runs\<close>

definition sample_run :: "int list \<Rightarrow> service list \<Rightarrow> go_error option outcome \<times> history \<times> sim" where
  "sample_run statuses down =
     run sim_env (processMessage decimal_codec sample_service sample_delivery)
       (sample_world statuses down)"

definition sample_history :: "int list \<Rightarrow> service list \<Rightarrow> history" where
  "sample_history statuses down = fst (snd (sample_run statuses down))"

lemma sample_ends:
  assumes "fst (sample_run statuses down) = out"
  shows "ends (processMessage decimal_codec sample_service sample_delivery)
    (sample_history statuses down) out"
  using assms unfolding sample_history_def sample_run_def
  by (cases "run sim_env (processMessage decimal_codec sample_service sample_delivery)
      (sample_world statuses down)") (auto intro: run_ends)

lemma sample_sent: "fst (sample_run [200] []) = Done None"
  by code_simp

lemma sample_rejected: "\<exists>err. fst (sample_run [500] []) = Done (Some err)"
proof -
  have "case fst (sample_run [500] []) of Done (Some _) \<Rightarrow> True | _ \<Rightarrow> False" by code_simp
  then show ?thesis by (auto split: outcome.splits option.splits)
qed

lemmas sample_defs = sample_service_def

section \<open>The handler\<close>

text \<open>
  C1: the trace of every delivery handled in production is one the specification allows: an
  acknowledgement, then the inbox, then the repository, then the decision, and from there the
  exact sequences of writes, posts and publishes of \<open>handler_spec\<close>, with the error returned.
\<close>

theorem delivery_refines_protocol:
  assumes "ends (processMessage L (production n url timeout mq) d) h out"
  shows "process_spec L (NewMessageProcessor n (4 * Minute)) d h (trace h) out"
  using production.process_refines [OF assms] by simp

theorem delivery_refines_protocol_witness:
  "process_spec decimal_codec (NewMessageProcessor 5 (4 * Minute)) sample_delivery
     (sample_history [200] []) (trace (sample_history [200] [])) (Done None)"
  by (rule delivery_refines_protocol [OF sample_ends [OF sample_sent, unfolded sample_service_def]])

lemma processed_in_order:
  assumes "replay (processMessage L (production n url timeout mq) d) h = Some rest"
  shows "preceded (\<lambda>e. \<exists>j r. wrote_status j StatusSent r e) (marked_body (Body d)) h \<and>
    preceded (\<lambda>e. \<exists>k r. marked k r e) (\<lambda>e. \<exists>c t. webhook_accepted c t e) h"
proof
  have run: "preceded (\<lambda>e. \<exists>j r. wrote_status j StatusSent r e) (marked_body (Body d)) (trace h') \<and>
      preceded (\<lambda>e. \<exists>k r. marked k r e) (\<lambda>e. \<exists>c t. webhook_accepted c t e) (trace h')"
    if "ends (processMessage L (production n url timeout mq) d) h' out" for h' out
  proof -
    note facts = process_trace [OF production.process_refines [OF that]]
    then have "preceded (\<lambda>e. \<exists>k r. marked k r e) (accepted_looked_up (trace h')) (trace h')" by blast
    then have "preceded (\<lambda>e. \<exists>k r. marked k r e) (\<lambda>e. \<exists>c t. webhook_accepted c t e) (trace h')"
      by (rule preceded_mono) (rule accepted_looked_up_accepted)
    with facts show ?thesis by blast
  qed
  show "preceded (\<lambda>e. \<exists>j r. wrote_status j StatusSent r e) (marked_body (Body d)) h"
    by (rule preceded_at_any_time [OF preceded_trace assms]) (use run in \<open>auto dest: wrote_observed\<close>)
  show "preceded (\<lambda>e. \<exists>k r. marked k r e) (\<lambda>e. \<exists>c t. webhook_accepted c t e) h"
    by (rule preceded_at_any_time [OF preceded_trace assms])
      (use run in \<open>auto dest: marked_observed\<close>)
qed



text \<open>
  C14: at any time in the handling of a delivery, the webhook was called at most once and at most
  one message was published: a delivery never goes both to the retry queue and to the dead
  letter queue, and never twice to either.
\<close>

theorem one_post_one_publish:
  assumes "replay (processMessage L (production n url timeout mq) d) h = Some rest"
  shows "count_events is_http_call h \<le> 1 \<and> count_events is_publish h \<le> 1"
proof -
  from replay_extends [OF assms] obtain h' out where
    "ends (processMessage L (production n url timeout mq) d) (h @ h') out" by blast
  from process_trace [OF production.process_refines [OF this]]
  have "count_events is_http_call (h @ h') \<le> 1" "count_events is_publish (h @ h') \<le> 1"
    by (simp_all only: count_trace is_http_call_observed is_publish_observed)
  then show ?thesis by simp
qed

theorem one_post_one_publish_witness:
  "count_events is_http_call (sample_history [500] []) \<le> 1 \<and>
   count_events is_publish (sample_history [500] []) \<le> 1"
proof -
  from sample_rejected obtain err where "fst (sample_run [500] []) = Done (Some err)" ..
  from sample_ends [OF this] show ?thesis
    unfolding sample_service_def ends_def by (rule one_post_one_publish)
qed

text \<open>
  C10: once a message was marked as processed, by any of the deliveries handled before, no later
  delivery of it is posted to the webhook or published to any queue, whatever is consumed in
  between, as long as the store keeps what was set in it (the entry lives for 24 hours).
\<close>

theorem marked_message_not_redelivered:
  assumes "key_value_store E kv"
    and "run E (consume L (production n url timeout mq) rs) w = (out, h, w')"
    and "e \<in> set h" and "marked (qm_ID q) None e"
    and "unmarshal_queue_message (Body d) empty_queue_message = Inr q"
    and "run E (processMessage L (production n url timeout mq) d) w' = (out', h', w'')"
  shows "filter is_http_call h' = [] \<and> filter is_publish h' = []"
proof -
  from assms(2) have "ends (consume L (production n url timeout mq) rs) h out" and "follows E w h w'"
    by (simp_all add: run_iff)
  moreover from this(1) have "\<forall>e\<in>set h. only_marks e"
    using production.consume_benign by (auto simp: benign_def)
  ultimately have "in_inbox kv w' (qm_ID q)"
    using marked_in_inbox [OF assms(1)] assms(3,4) by blast
  with assms(1,5,6) show ?thesis
    using production.in_inbox_not_posted [of L n url timeout mq d h' out' E w' w'' kv q]
    by (simp add: run_iff)
qed

definition sample_consumed :: "unit outcome \<times> history \<times> sim" where
  "sample_consumed =
     run sim_env (consume decimal_codec sample_service [Delivered sample_delivery])
       (sample_world [200, 200] [])"

definition sample_redelivered :: "go_error option outcome \<times> history \<times> sim" where
  "sample_redelivered =
     run sim_env (processMessage decimal_codec sample_service sample_delivery)
       (snd (snd sample_consumed))"

theorem marked_message_not_redelivered_witness:
  "count_events is_http_call (fst (snd sample_consumed)) = 1 \<and>
   filter is_http_call (fst (snd sample_redelivered)) = [] \<and>
   filter is_publish (fst (snd sample_redelivered)) = []"
proof -
  have "Did (RedisSet (inbox_key ''7'') (marshal_processed (unix_seconds Minute)) (24 * Hour)) None
      \<in> set (fst (snd sample_consumed))"
    by code_simp
  moreover have "unmarshal_queue_message (Body sample_delivery) empty_queue_message = Inr sample_queue_message"
    by code_simp
  moreover have "count_events is_http_call (fst (snd sample_consumed)) = 1" by code_simp
  moreover have "marked (qm_ID sample_queue_message) None
      (Did (RedisSet (inbox_key ''7'') (marshal_processed (unix_seconds Minute)) (24 * Hour)) None)"
    by (auto simp: marked_def sample_queue_message_def)
  ultimately show ?thesis
    using marked_message_not_redelivered [OF sim_key_value_store, of decimal_codec 5 "''http://webhook''"
        "30 * Second" "\<lparr>has_conn = True, has_channel = True\<rparr>" "[Delivered sample_delivery]"
        "sample_world [200, 200] []" _ _ _ _ sample_queue_message sample_delivery]
    unfolding sample_redelivered_def sample_consumed_def sample_service_def
    by (metis prod.collapse)
qed



text \<open>
  C19: handling a delivery panics exactly when the repository answered that there is no document
  under the id, and the panic is the dereference of a nil pointer; it is then already
  acknowledged.
\<close>

theorem panics_iff_document_missing:
  assumes "ends (processMessage L (production n url timeout mq) d) h out"
  shows "(out = Stopped NilDereference \<longleftrightarrow> (\<exists>i. FoundOne i ErrNoDocuments \<in> set h)) \<and>
    (\<forall>y. out \<noteq> Stopped y \<or> y = NilDereference)"
proof -
  note spec = production.process_refines [OF assms]
  have in_trace: "FoundOne i ErrNoDocuments \<in> set (trace h) \<longleftrightarrow> FoundOne i ErrNoDocuments \<in> set h" for i
    by simp
  show ?thesis
    using process_trace [OF spec] process_missing [OF spec] in_trace by metis
qed

definition ghost_world :: sim where
  "ghost_world = (sample_world [200] [])\<lparr>sim_docs := Map.empty\<rparr>"

theorem panics_iff_document_missing_witness:
  "\<exists>h. ends (processMessage decimal_codec sample_service sample_delivery) h (Stopped NilDereference) \<and>
     (\<exists>i. FoundOne i ErrNoDocuments \<in> set h)"
proof -
  let ?r = "run sim_env (processMessage decimal_codec sample_service sample_delivery) ghost_world"
  have "fst ?r = Stopped NilDereference" by code_simp
  then have run: "ends (processMessage decimal_codec sample_service sample_delivery) (fst (snd ?r))
      (Stopped NilDereference)"
    by (metis prod.collapse run_ends)
  from panics_iff_document_missing [OF this [unfolded sample_service_def]] run show ?thesis
    unfolding sample_service_def by blast
qed

text \<open>
  C20: a delivery whose inbox lookup fails is lost to the broker: it is acknowledged before it is
  handled, the negative acknowledgement with requeue comes after that for the same tag, and the
  message is neither published to any queue nor written to the repository.
\<close>

theorem redis_error_after_ack:
  assumes "ends (processMessage L (production n url timeout mq) d) h out"
    and "0 < DeliveryTag d" and "unmarshal_queue_message (Body d) empty_queue_message = Inr q"
    and "GotKey k (RedisError e) \<in> set h"
  shows "\<exists>r r' err. trace h =
      [Did (AmqpAck (DeliveryTag d)) r, GotKey (inbox_key (qm_ID q)) (RedisError e),
       Did (AmqpNack (DeliveryTag d) True) r'] \<and> out = Done (Some err)"
proof -
  from production.process_refines [OF assms(1)] assms(2) obtain r es out' where
    tr: "trace h = Did (AmqpAck (DeliveryTag d)) r # es" and out: "out = wrapped out'"
    and spec: "handler_spec L (NewMessageProcessor n (4 * Minute)) d empty_queue_message h es out'"
    by (auto simp: process_spec_def ack_spec_def)
  have "GotKey k (RedisError e) \<in> set (trace h)" using assms(4) by simp
  then have "GotKey k (RedisError e) \<in> set es" unfolding tr by simp
  from handler_lookup [OF spec this assms(3)] show ?thesis
    using out tr by auto
qed

theorem redis_error_after_ack_witness:
  "\<exists>r r' err e. trace (sample_history [200] [Redis]) =
      [Did (AmqpAck 1) r, GotKey (inbox_key ''7'') (RedisError e), Did (AmqpNack 1 True) r'] \<and>
      fst (sample_run [200] [Redis]) = Done (Some err)"
proof -
  have got: "GotKey (inbox_key ''7'') (RedisError (GoErr ''down'')) \<in> set (sample_history [200] [Redis])"
    by code_simp
  have body: "unmarshal_queue_message (Body sample_delivery) empty_queue_message = Inr sample_queue_message"
    by code_simp
  have tag: "0 < DeliveryTag sample_delivery" by (simp add: sample_delivery_def)
  from redis_error_after_ack [OF sample_ends [OF refl, unfolded sample_service_def] tag body got]
  show ?thesis
    by (auto simp: sample_delivery_def sample_queue_message_def)
qed

text \<open>
  C21: a message the inbox has as processed is left alone: after the acknowledgement and the
  lookup, at most one write is made, of the status duplicate, and no error is returned.
\<close>

theorem duplicate_left_alone:
  assumes "ends (processMessage L (production n url timeout mq) d) h out"
    and "unmarshal_queue_message (Body d) empty_queue_message = Inr q"
    and "ObjectIDFromHex L (qm_ID q) = Inr i"
    and "GotKey k reply \<in> set h" and "inbox_answer reply = Inr True"
  shows "\<exists>es\<^sub>1 es\<^sub>2 ok. trace h = es\<^sub>1 @ GotKey (inbox_key (qm_ID q)) reply # es\<^sub>2 \<and> ack_spec d es\<^sub>1 \<and>
    attempt (wrote_status i StatusDuplicate) es\<^sub>2 ok \<and> out = Done None"
proof -
  from production.process_refines [OF assms(1)] obtain es\<^sub>1 es\<^sub>2 out' where
    tr: "trace h = es\<^sub>1 @ es\<^sub>2" and ack: "ack_spec d es\<^sub>1" and out: "out = wrapped out'"
    and spec: "handler_spec L (NewMessageProcessor n (4 * Minute)) d empty_queue_message h es\<^sub>2 out'"
    by (auto simp: process_spec_def)
  have "GotKey k reply \<in> set (trace h)" using assms(4) by simp
  then have "GotKey k reply \<in> set es\<^sub>2"
    unfolding tr using ack by (auto simp: ack_spec_def split: if_splits)
  from handler_lookup [OF spec this assms(2)] assms(3,5) obtain es ok where
    "es\<^sub>2 = GotKey (inbox_key (qm_ID q)) reply # es" "attempt (wrote_status i StatusDuplicate) es ok"
    "out' = Done None"
    by auto
  with tr ack out show ?thesis by (metis wrapped.simps(2))
qed

text \<open>A message marked by the service before its circuit breakers: the plain text.\<close>

definition legacy_world :: sim where
  "legacy_world = (sample_world [200] [])\<lparr>sim_kv := [''inbox:7'' \<mapsto> ''processed'']\<rparr>"

theorem duplicate_left_alone_witness:
  "\<exists>h es\<^sub>1 es\<^sub>2 ok. ends (processMessage decimal_codec sample_service sample_delivery) h (Done None) \<and>
     trace h = es\<^sub>1 @ GotKey (inbox_key ''7'') (RedisValue ''processed'') # es\<^sub>2 \<and>
     ack_spec sample_delivery es\<^sub>1 \<and> attempt (wrote_status 7 StatusDuplicate) es\<^sub>2 ok"
proof -
  let ?r = "run sim_env (processMessage decimal_codec sample_service sample_delivery) legacy_world"
  have run: "ends (processMessage decimal_codec sample_service sample_delivery) (fst (snd ?r)) (fst ?r)"
    by (metis prod.collapse run_ends)
  have got: "GotKey (inbox_key ''7'') (RedisValue ''processed'') \<in> set (fst (snd ?r))" by code_simp
  have body: "unmarshal_queue_message (Body sample_delivery) empty_queue_message = Inr sample_queue_message"
    by code_simp
  have parsed: "ObjectIDFromHex decimal_codec (qm_ID sample_queue_message) = Inr 7" by code_simp
  have "inbox_answer (RedisValue ''processed'') = Inr True" by code_simp
  from duplicate_left_alone [OF run [unfolded sample_service_def] body parsed
      got [unfolded sample_service_def] this, folded sample_service_def]
  obtain es\<^sub>1 es\<^sub>2 ok where
    tr: "trace (fst (snd ?r)) = es\<^sub>1 @ GotKey (inbox_key ''7'') (RedisValue ''processed'') # es\<^sub>2"
    and es: "ack_spec sample_delivery es\<^sub>1" "attempt (wrote_status 7 StatusDuplicate) es\<^sub>2 ok"
    and out: "fst ?r = Done None"
    by (auto simp: sample_queue_message_def)
  from run [unfolded out] tr es show ?thesis by (intro exI conjI)
qed



section \<open>The loops\<close>

text \<open>
  C28: when the client library closes the channel of deliveries, every turn of the consumer loop
  handles a zero delivery, returns at once and publishes an empty body to the dead letter queue:
  \<open>k\<close> turns make exactly \<open>k\<close> such publishes and nothing else that is observed.
\<close>

theorem closed_channel_floods_dlq:
  "case run E (consume L (production n url timeout mq) (replicate k FromClosedChannel)) w of
     (out, h, w') \<Rightarrow>
       out = Done () \<and> length (trace h) = k \<and> list_all (\<lambda>e. \<exists>r. to_dlq [] r e) (trace h)"
  using production.closed_channel run_ends by (fastforce split: prod.splits)

text \<open>
  C27: one check of the stale messages: it reads the clock, asks for the messages in processing
  not updated for four minutes, and recovers each of them in order; the recovery of a message
  is not stopped by the failure of another, and each is one publish of the document without its
  recipient to the dead letter queue and, if that succeeded, one attempt to set it to failed.
\<close>

theorem stale_messages_recovered:
  "case run E (checkStaleMessages L (production n url timeout mq)) w of (out, h, w') \<Rightarrow>
     (\<exists>err. out = Done (Some err) \<and>
        (trace h = [] \<or> (\<exists>t e. trace h = [FetchedAll (stale_query (t - 4 * Minute)) (Inl e)]))) \<or>
     out = Done None \<and> (\<exists>t ms ess. Clock t \<in> set h \<and>
       trace h = FetchedAll (stale_query (t - 4 * Minute)) (Inr ms) # concat ess \<and>
       list_all2 (recovery_spec L) ms ess)"
proof -
  obtain out h w' where run: "run E (checkStaleMessages L (production n url timeout mq)) w = (out, h, w')"
    by (rule prod_cases3)
  from production.stale_check_refines [OF run_ends [OF run]] show ?thesis
    unfolding run prod.case .
qed

text \<open>
  C38: a body that is not the JSON of a queue message is acknowledged and published unchanged to
  the dead letter queue, and the decoding error is returned; no store is asked.
\<close>

theorem malformed_body_dead_lettered:
  assumes "ends (processMessage L (production n url timeout mq) d) h out"
    and "unmarshal_queue_message (Body d) empty_queue_message = Inl err"
  shows "\<exists>es e r err'. trace h = es @ [e] \<and> ack_spec d es \<and> to_dlq (Body d) r e \<and> out = Done (Some err')"
proof -
  from production.process_refines [OF assms(1)] obtain es\<^sub>1 es\<^sub>2 out' where
    tr: "trace h = es\<^sub>1 @ es\<^sub>2" "ack_spec d es\<^sub>1" "out = wrapped out'"
    and spec: "handler_spec L (NewMessageProcessor n (4 * Minute)) d empty_queue_message h es\<^sub>2 out'"
    by (auto simp: process_spec_def)
  from spec show ?thesis
    by cases (use tr assms(2) in auto)
qed

definition broken_delivery :: delivery where
  "broken_delivery = sample_delivery\<lparr>Body := ''not json''\<rparr>"

theorem malformed_body_dead_lettered_witness:
  "\<exists>h es e r err. trace h = es @ [e] \<and> ack_spec broken_delivery es \<and> to_dlq ''not json'' r e \<and>
     ends (processMessage decimal_codec sample_service broken_delivery) h (Done (Some err))"
proof -
  have bad: "isl (unmarshal_queue_message (Body broken_delivery) empty_queue_message)" by code_simp
  then obtain err where "unmarshal_queue_message (Body broken_delivery) empty_queue_message = Inl err"
    by (auto simp: isl_def)
  moreover obtain h out where run: "ends (processMessage decimal_codec sample_service broken_delivery) h out"
    using ends_exists by blast
  ultimately show ?thesis
    using malformed_body_dead_lettered [OF run [unfolded sample_service_def]]
    unfolding sample_service_def by (fastforce simp: broken_delivery_def)
qed

end
