(* ===== verification/Sender_Service.thy ===== *)
theory Sender_Service
  imports Repository Message_Queue
begin

text \<open>
  The sender service: \<open>sender_service/internal/domain/sender.go\<close> and
  \<open>internal/application/service/sender_service.go\<close> without the goroutine of the scheduler, which
  \<open>Scheduler\<close> has: the creation of messages and the batch that publishes the unsent ones.
\<close>

section \<open>The domain\<close>

record message_sender =
  batchSize :: int
  checkInterval :: duration

definition NewMessageSender :: "int \<Rightarrow> duration \<Rightarrow> message_sender" where
  "NewMessageSender n d = \<lparr>batchSize = n, checkInterval = d\<rparr>"

text \<open>The two calls of \<open>time.Now()\<close> are separate readings of the clock.\<close>

definition PrepareMessage :: "message_sender \<Rightarrow> string \<Rightarrow> string \<Rightarrow> message prog" where
  "PrepareMessage s content to' =
     Now (\<lambda>t\<^sub>1. Now (\<lambda>t\<^sub>2. Return
       \<lparr>msg_ID = NilObjectID, msg_To = to', msg_Content = content, msg_Status = StatusUnsent,
        msg_RetryCount = 0, msg_CreatedAt = t\<^sub>1, msg_UpdatedAt = t\<^sub>2\<rparr>))"

definition GetBatchSize :: "message_sender \<Rightarrow> int" where
  "GetBatchSize s = batchSize s"

definition GetCheckInterval :: "message_sender \<Rightarrow> duration" where
  "GetCheckInterval s = checkInterval s"

section \<open>The service\<close>

record sender_service =
  sender :: message_sender
  sender_repository :: message_repository
  sender_queue :: message_queue

definition NewSenderService ::
  "message_sender \<Rightarrow> message_repository \<Rightarrow> message_queue \<Rightarrow> sender_service" where
  "NewSenderService sd R Q = \<lparr>sender = sd, sender_repository = R, sender_queue = Q\<rparr>"

definition SenderCreateMessage :: "sender_service \<Rightarrow> string \<Rightarrow> string \<Rightarrow> oid result prog" where
  "SenderCreateMessage s content to' =
     bind (PrepareMessage (sender s) content to') (\<lambda>msg.
     bind (CreateMessage (sender_repository s) msg) (\<lambda>(msg', r). case r of
       Some err \<Rightarrow> Return (Inl (Errorf ''failed to create message'' err))
     | None \<Rightarrow> Return (Inr (msg_ID msg'))))"

definition SenderListMessages :: "sender_service \<Rightarrow> message list result prog" where
  "SenderListMessages s = ListMessages (sender_repository s)"

text \<open>The queue message made of a document.\<close>

definition queue_message_of :: "oid_codec \<Rightarrow> message \<Rightarrow> queue_message" where
  "queue_message_of L msg =
     \<lparr>qm_ID = Hex L (msg_ID msg), qm_Content = msg_Content msg, qm_To = msg_To msg,
      qm_Retry = msg_RetryCount msg\<rparr>"

definition handleMessage :: "oid_codec \<Rightarrow> sender_service \<Rightarrow> message \<Rightarrow> go_error option prog" where
  "handleMessage L s msg =
     bind (PublishMessage (sender_queue s) (queue_message_of L msg)) (\<lambda>r. case r of
       Some err \<Rightarrow> Return (Some (Errorf ''failed to publish message'' err))
     | None \<Rightarrow>
         bind (UpdateStatus (sender_repository s) (msg_ID msg) StatusProcessing) (\<lambda>r. case r of
           Some err \<Rightarrow> Return (Some (Errorf ''failed to update message status'' err))
         | None \<Rightarrow> Return None))"

definition processUnsentMessages :: "oid_codec \<Rightarrow> sender_service \<Rightarrow> go_error option prog" where
  "processUnsentMessages L s =
     bind (FindUnsentMessages (sender_repository s) (GetBatchSize (sender s))) (\<lambda>r. case r of
       Inl err \<Rightarrow> Return (Some (Errorf ''failed to find unsent messages'' err))
     | Inr messages \<Rightarrow> bind (for_each messages (handleMessage L s)) (\<lambda>_. Return None))"

text \<open>
  The loop of the scheduler's goroutine on the sequence of what its \<open>select\<close> receives: a tick of
  the ticker, whose error is only logged, or the value sent by \<open>Stop\<close>.
\<close>

datatype scheduler_input = TickerTick | StopReceived

primrec scheduler_run :: "oid_codec \<Rightarrow> sender_service \<Rightarrow> scheduler_input list \<Rightarrow> unit prog" where
  "scheduler_run L s [] = Return ()"
| "scheduler_run L s (x # xs) =
     (case x of
        TickerTick \<Rightarrow> bind (processUnsentMessages L s) (\<lambda>_. scheduler_run L s xs)
      | StopReceived \<Rightarrow> Return ())"

section \<open>The specification of a batch\<close>

text \<open>
  One message of a batch: it is published to the main queue, and if that succeeded its status is
  set to processing, which may fail.
\<close>

definition publish_spec :: "oid_codec \<Rightarrow> message \<Rightarrow> history \<Rightarrow> bool" where
  "publish_spec L m es \<longleftrightarrow>
     (\<exists>err e. es = [e] \<and> to_main (marshal_queue_message (queue_message_of L m)) (Some err) e) \<or>
     (\<exists>e es\<^sub>1 ok. es = e # es\<^sub>1 \<and> to_main (marshal_queue_message (queue_message_of L m)) None e \<and>
        attempt (wrote_status (msg_ID m) StatusProcessing) es\<^sub>1 ok)"

inductive batch_spec :: "oid_codec \<Rightarrow> int \<Rightarrow> history \<Rightarrow> go_error option outcome \<Rightarrow> bool" for L n where
  not_asked: "batch_spec L n [] (Done (Some err))"
| not_found: "batch_spec L n [FetchedAll (unsent_query n) (Inl e)] (Done (Some err))"
| published:
    "list_all2 (publish_spec L) ms ess \<Longrightarrow>
     batch_spec L n (FetchedAll (unsent_query n) (Inr ms) # concat ess) (Done None)"

inductive_cases batch_specE: "batch_spec L n es out"

locale sender_contract =
  R: message_repository_port "sender_repository s" + Q: message_queue_port "sender_queue s"
  for s :: sender_service
begin

lemma handleMessage_refines:
  assumes "ends (handleMessage L s m) h (Done r)"
  shows "publish_spec L m (trace h)"
  using assms unfolding handleMessage_def publish_spec_def replay_simps
  by (auto dest!: R.UpdateStatus_trace Q.PublishMessage_trace)

lemma handleMessage_returns: "no_halt (handleMessage L s m)"
  unfolding handleMessage_def
  by (intro no_halt_bind Q.PublishMessage_no_halt)
    (auto intro!: no_halt_bind R.UpdateStatus_no_halt split: option.splits)

lemma batch_returns: "no_halt (processUnsentMessages L s)"
  unfolding processUnsentMessages_def
  by (intro no_halt_bind R.FindUnsent_no_halt)
    (auto intro!: no_halt_bind no_halt_for_each handleMessage_returns split: sum.splits)

theorem batch_refines:
  assumes "ends (processUnsentMessages L s) h out"
  shows "batch_spec L (batchSize (sender s)) (trace h) out"
  using assms unfolding processUnsentMessages_def GetBatchSize_def
proof (cases rule: ends_bind_sumE [OF _ R.FindUnsent_no_halt, consumes 1, case_names failed found])
  case (failed h\<^sub>1 h\<^sub>2 err)
  then show ?thesis
    using R.FindUnsent_error_trace [OF failed(2)]
    by (auto simp: replay_simps intro: batch_spec.intros)
next
  case (found h\<^sub>1 h\<^sub>2 ms)
  have "no_halt (for_each ms (handleMessage L s))"
    by (rule no_halt_for_each) (rule handleMessage_returns)
  with found(3) have run: "ends (for_each ms (handleMessage L s)) h\<^sub>2 (Done ())"
    and out: "out = Done None"
    by (auto simp: replay_simps no_halt_def)
  from for_each_trace [OF run] handleMessage_refines obtain ess where
    "trace h\<^sub>2 = concat ess" "list_all2 (publish_spec L) ms ess" by blast
  with R.FindUnsent_trace [OF found(2)] out found(1) show ?thesis
    by (auto intro: batch_spec.intros)
qed

end

section \<open>What a batch does\<close>

text \<open>A publish, without error, of the queue message made of a document with the id \<open>i\<close>.\<close>

definition published_document :: "oid_codec \<Rightarrow> oid \<Rightarrow> event \<Rightarrow> bool" where
  "published_document L i e \<longleftrightarrow>
     (\<exists>m. msg_ID m = i \<and> to_main (marshal_queue_message (queue_message_of L m)) None e)"

lemma publish_order:
  "publish_spec L m es \<Longrightarrow> preceded (\<lambda>e. \<exists>st r. wrote_status i st r e) (published_document L i) es"
  unfolding publish_spec_def attempt_def published_document_def
  by (auto simp: to_main_def wrote_status_def preceded_Cons)

lemma batch_order:
  assumes "batch_spec L n es out"
  shows "preceded (\<lambda>e. \<exists>st r. wrote_status i st r e) (published_document L i) es"
  using assms
proof cases
  case (published ms ess)
  have "preceded (\<lambda>e. \<exists>st r. wrote_status i st r e) (published_document L i) (concat ess)"
    using published(3)
    by (induction rule: list_all2_induct) (auto simp: preceded_append publish_order)
  then show ?thesis by (auto simp: published(1) preceded_Cons wrote_status_def)
qed (auto simp: preceded_Cons wrote_status_def)

section \<open>The sender in production\<close>

text \<open>
  The service the \<open>main\<close> of the sender builds. The batch size and the interval are fixed in
  \<open>main\<close>, whatever the configuration says.
\<close>

definition sender_production :: "rabbitMQAdapter \<Rightarrow> sender_service" where
  "sender_production mq =
     NewSenderService (NewMessageSender 2 (2 * Minute)) mongoMessageRepository (rabbitMQ mq)"

lemma sender_production_parts [simp]:
  "sender (sender_production mq) = NewMessageSender 2 (2 * Minute)"
  "sender_repository (sender_production mq) = mongoMessageRepository"
  "sender_queue (sender_production mq) = rabbitMQ mq"
  by (simp_all add: sender_production_def NewSenderService_def)

interpretation sender: sender_contract "sender_production mq" for mq
  unfolding sender_contract_def sender_production_parts
  by (intro conjI mongo.message_repository_port_axioms rabbit.message_queue_port_axioms)

end
