(* ===== verification/System.thy ===== *)
theory System
  imports Processor_Properties Sender_Service
begin

text \<open>
  A race between the two services: the sender's batch and the handling of the delivery it published.
\<close>

section \<open>The sender's late write\<close>

definition unsent_message :: message where
  "unsent_message = sample_message\<lparr>msg_Status := StatusUnsent\<rparr>"

definition unsent_world :: sim where
  "unsent_world = (sample_world [200] [])\<lparr>sim_docs := [7 \<mapsto> unsent_message]\<rparr>"

definition sample_sender :: sender_service where
  "sample_sender = sender_production \<lparr>has_conn = True, has_channel = True\<rparr>"

text \<open>The sender's calls up to and including the publish, and what it does from there.\<close>

definition published_so_far :: "history" where
  "published_so_far = take 2 (fst (snd (run sim_env (handleMessage decimal_codec sample_sender unsent_message) unsent_world)))"

definition left_to_do :: "go_error option prog" where
  "left_to_do = the (replay (handleMessage decimal_codec sample_sender unsent_message) published_so_far)"

definition processed_world :: "go_error option outcome \<times> history \<times> sim" where
  "processed_world = run sim_env (processMessage decimal_codec sample_service sample_delivery) unsent_world"

definition overwritten_world :: "go_error option outcome \<times> history \<times> sim" where
  "overwritten_world = run sim_env left_to_do (snd (snd processed_world))"

definition given_up_world :: "go_error option outcome \<times> history \<times> sim" where
  "given_up_world =
     run sim_env (checkStaleMessages decimal_codec sample_service)
       ((snd (snd overwritten_world))\<lparr>sim_clock := 6 * Minute\<rparr>)"


end
