(* ===== verification/Health.thy ===== *)
theory Health
  imports Sender_Service Idempotency
begin

text \<open>
  The health services: \<open>sender_service/internal/application/service/health_service.go\<close> and
  \<open>processor_service/internal/application/service/health_service.go\<close>. Both have a type named
  \<open>HealthStatus\<close> and a function \<open>CheckHealth\<close>; the names here carry the service.
\<close>

section \<open>The sender's health\<close>

record sender_health_status =
  shs_MongoDB :: bool
  shs_RabbitMQ :: bool
  shs_Service :: bool

record sender_health_service =
  shs_repository :: message_repository
  shs_queue :: message_queue
  processorURL :: string

definition NewSenderHealthService :: "message_repository \<Rightarrow> message_queue \<Rightarrow> sender_health_service" where
  "NewSenderHealthService R Q =
     \<lparr>shs_repository = R, shs_queue = Q, processorURL = ''http://processor_service:8081/status''\<rparr>"

text \<open>
  The error of making the request is dropped, so that a request that could not be made is a nil
  pointer the client dereferences. The body of the answer is closed when the function returns.
\<close>

definition SenderCheckHealth :: "sender_health_service \<Rightarrow> sender_health_status prog" where
  "SenderCheckHealth s =
     bind (GetDLQMessageCount (shs_queue s)) (\<lambda>dlq.
     Do (HttpNewRequest ''GET'' (processorURL s) []) (\<lambda>r. case r of
       Some _ \<Rightarrow> Halt NilDereference
     | None \<Rightarrow>
         HttpDo ''GET'' (processorURL s) [] (\<lambda>resp.
         bind (ListMessages (shs_repository s)) (\<lambda>msgs.
           let status = \<lparr>shs_MongoDB = \<not> isl msgs, shs_RabbitMQ = \<not> isl dlq,
                 shs_Service = (case resp of Inl _ \<Rightarrow> False | Inr code \<Rightarrow> code = 200)\<rparr> in
           case resp of
             Inl _ \<Rightarrow> Return status
           | Inr _ \<Rightarrow> perform_ignoring HttpCloseBody (Return status)))))"

section \<open>The processor's health\<close>

record processor_health_status =
  phs_MongoDB :: bool
  phs_RabbitMQ :: bool
  phs_Redis :: bool
  phs_Service :: bool

record processor_health_service =
  phs_repository :: message_repository
  phs_queue :: message_queue
  phs_idempotencyService :: idempotency_service

definition NewProcessorHealthService ::
  "message_repository \<Rightarrow> message_queue \<Rightarrow> idempotency_service \<Rightarrow> processor_health_service" where
  "NewProcessorHealthService R Q I =
     \<lparr>phs_repository = R, phs_queue = Q, phs_idempotencyService = I\<rparr>"

definition ProcessorCheckHealth :: "processor_health_service \<Rightarrow> processor_health_status prog" where
  "ProcessorCheckHealth s =
     bind (ListMessages (phs_repository s)) (\<lambda>msgs.
     bind (GetDLQMessageCount (phs_queue s)) (\<lambda>dlq.
     bind (IsProcessed (phs_idempotencyService s) ''health-check'') (\<lambda>inbox.
       Return \<lparr>phs_MongoDB = \<not> isl msgs, phs_RabbitMQ = \<not> isl dlq, phs_Redis = \<not> isl inbox,
               phs_Service = True\<rparr>)))"

section \<open>In production\<close>

definition sender_health :: "rabbitMQAdapter \<Rightarrow> sender_health_service" where
  "sender_health mq = NewSenderHealthService mongoMessageRepository (rabbitMQ mq)"

definition processor_health :: "rabbitMQAdapter \<Rightarrow> processor_health_service" where
  "processor_health mq =
     NewProcessorHealthService mongoMessageRepository (rabbitMQ mq) redisIdempotencyService"

text \<open>The three lookups of the checks: what the trace of each is, by its result.\<close>

lemma list_answered:
  assumes "ends (ListMessages mongoMessageRepository) h (Done r)"
  obtains ms where "r = Inr ms" "trace h = [FetchedAll all_query (Inr ms)]"
  | err where "r = Inl err" "trace h = []"
  | err e where "r = Inl err" "trace h = [FetchedAll all_query (Inl e)]"
proof (cases r)
  case (Inl err)
  with mongo.ListMessages_error_trace [of h err] assms that show thesis by auto
next
  case (Inr x)
  with mongo.ListMessages_trace [of h x] assms that show thesis by auto
qed

lemma dlq_answered:
  assumes "ends (GetDLQMessageCount (rabbitMQ mq)) h (Done r)"
  obtains k where "r = Inr k" "trace h = [Inspected DLQQueueName (Inr k)]"
  | err e where "r = Inl err" "trace h = [Inspected DLQQueueName (Inl e)]"
proof (cases r)
  case (Inl err)
  with rabbit.GetDLQMessageCount_error_trace [of mq h err] assms that show thesis by auto
next
  case (Inr x)
  with rabbit.GetDLQMessageCount_trace [of mq h x] assms that show thesis by auto
qed

lemma inbox_answered:
  assumes "ends (IsProcessed redisIdempotencyService k) h (Done r)"
  obtains b reply where "r = Inr b" "trace h = [GotKey (inbox_key k) reply]" "inbox_answer reply = Inr b"
  | err where "r = Inl err" "trace h = []"
  | err e where "r = Inl err" "trace h = [GotKey (inbox_key k) (RedisError e)]"
proof (cases r)
  case (Inl err)
  with redis.IsProcessed_error_trace [of k h err] assms that show thesis by auto
next
  case (Inr x)
  with redis.IsProcessed_trace [of k h x] assms that show thesis by auto
qed

section \<open>Properties\<close>

text \<open>
  The processor's status: the check always returns; the service flag is always true, each
  other flag says whether its dependency answered in this check, and all that is observed of the
  check is these three lookups.
\<close>

theorem processor_health_flags:
  assumes "ends (ProcessorCheckHealth (processor_health mq)) h out"
  shows "\<exists>st. out = Done st \<and> phs_Service st \<and>
    phs_MongoDB st = (\<exists>ms. FetchedAll all_query (Inr ms) \<in> set (trace h)) \<and>
    phs_RabbitMQ st = (\<exists>k. Inspected DLQQueueName (Inr k) \<in> set (trace h)) \<and>
    phs_Redis st = (\<exists>reply. GotKey (inbox_key ''health-check'') reply \<in> set (trace h) \<and>
      \<not> isl (inbox_answer reply)) \<and>
    (\<forall>e\<in>set (trace h). (\<exists>r. e = FetchedAll all_query r) \<or> (\<exists>r. e = Inspected DLQQueueName r) \<or>
      (\<exists>r. e = GotKey (inbox_key ''health-check'') r))"
proof -
  let ?R = mongoMessageRepository and ?Q = "rabbitMQ mq" and ?I = redisIdempotencyService
  from assms obtain h\<^sub>1 h\<^sub>2 h\<^sub>3 msgs dlq inbox where h: "h = h\<^sub>1 @ h\<^sub>2 @ h\<^sub>3"
    and msgs: "ends (ListMessages ?R) h\<^sub>1 (Done msgs)" and dlq: "ends (GetDLQMessageCount ?Q) h\<^sub>2 (Done dlq)"
    and inbox: "ends (IsProcessed ?I ''health-check'') h\<^sub>3 (Done inbox)"
    and out: "out = Done \<lparr>phs_MongoDB = \<not> isl msgs, phs_RabbitMQ = \<not> isl dlq,
      phs_Redis = \<not> isl inbox, phs_Service = True\<rparr>"
    unfolding ProcessorCheckHealth_def processor_health_def NewProcessorHealthService_def
    by (auto simp: ends_bind_no_halt mongo.ListMessages_no_halt rabbit.GetDLQMessageCount_no_halt
        redis.IsProcessed_no_halt ends_Return)
  have tr: "trace h = trace h\<^sub>1 @ trace h\<^sub>2 @ trace h\<^sub>3" by (simp add: h)
  show ?thesis
    unfolding tr out
    by (cases rule: list_answered [OF msgs]; cases rule: dlq_answered [OF dlq];
        cases rule: inbox_answered [OF inbox]; simp del: filter_set)
qed

text \<open>A check of the processor while MongoDB cannot be reached and the inbox has no such key.\<close>

definition sample_check_history :: history where
  "sample_check_history =
     [Did (MongoFind all_query) (Some (GoErr ''no reachable servers'')), Inspected DLQQueueName (Inr 4),
      Did (BreakerAdmit ''redis-idempotency'') None, GotKey (inbox_key ''health-check'') RedisNil,
      Did (BreakerReport ''redis-idempotency'' True) None]"

theorem processor_health_flags_witness:
  "\<exists>st. ends (ProcessorCheckHealth (processor_health \<lparr>has_conn = True, has_channel = True\<rparr>))
       sample_check_history (Done st) \<and>
     phs_Service st \<and> \<not> phs_MongoDB st \<and> phs_RabbitMQ st"
proof -
  let ?mq = "\<lparr>has_conn = True, has_channel = True\<rparr>"
  have "\<exists>st. ends (ProcessorCheckHealth (processor_health ?mq)) sample_check_history (Done st)"
    by (simp add: ends_def sample_check_history_def ProcessorCheckHealth_def processor_health_def
        NewProcessorHealthService_def mongoMessageRepository_def mongo_ListMessages_def find_all_def
        Execute_def rabbitMQ_def rabbit_GetDLQMessageCount_def
        redisIdempotencyService_def redis_IsProcessed_def redis_breaker_def)
  then obtain st
    where run: "ends (ProcessorCheckHealth (processor_health ?mq)) sample_check_history (Done st)" ..
  from processor_health_flags [OF run] have "phs_Service st \<and> \<not> phs_MongoDB st \<and> phs_RabbitMQ st"
    by (auto simp: sample_check_history_def DLQQueueName_def)
  with run show ?thesis by blast
qed

text \<open>
  The sender's status: the check panics exactly when the request to the processor could not be
  made; otherwise it returns, the service flag says whether the processor answered 200, the other
  two whether RabbitMQ and MongoDB answered, and all that is observed of the check is these three.
\<close>

theorem sender_health_flags:
  assumes "ends (SenderCheckHealth (sender_health mq)) h out"
  shows "let url = ''http://processor_service:8081/status'' in
    (\<exists>err. Did (HttpNewRequest ''GET'' url []) (Some err) \<in> set h) \<and> out = Stopped NilDereference \<or>
    Did (HttpNewRequest ''GET'' url []) None \<in> set h \<and>
    (\<exists>st. out = Done st \<and>
      shs_Service st = (HttpDone ''GET'' url [] (Inr 200) \<in> set (trace h)) \<and>
      shs_MongoDB st = (\<exists>ms. FetchedAll all_query (Inr ms) \<in> set (trace h)) \<and>
      shs_RabbitMQ st = (\<exists>k. Inspected DLQQueueName (Inr k) \<in> set (trace h)) \<and>
      (\<forall>e\<in>set (trace h). (\<exists>r. e = FetchedAll all_query r) \<or> (\<exists>r. e = Inspected DLQQueueName r) \<or>
        (\<exists>r. e = HttpDone ''GET'' url [] r)))"
proof -
  let ?R = mongoMessageRepository and ?Q = "rabbitMQ mq"
    and ?U = "''http://processor_service:8081/status''"
  let ?report = "\<lambda>(dlq :: int result) (resp :: int result) (msgs :: message list result).
    \<lparr>shs_MongoDB = \<not> isl msgs, shs_RabbitMQ = \<not> isl dlq,
      shs_Service = (case resp of Inl _ \<Rightarrow> False | Inr code \<Rightarrow> code = 200)\<rparr>"
  from assms obtain h\<^sub>1 h\<^sub>2 dlq r where h: "h = h\<^sub>1 @ Did (HttpNewRequest ''GET'' ?U []) r # h\<^sub>2"
    and dlq: "ends (GetDLQMessageCount ?Q) h\<^sub>1 (Done dlq)"
    and rest: "ends (case r of Some _ \<Rightarrow> Halt NilDereference | None \<Rightarrow>
        HttpDo ''GET'' ?U [] (\<lambda>resp. bind (ListMessages ?R) (\<lambda>msgs. case resp of
            Inl _ \<Rightarrow> Return (?report dlq resp msgs)
          | Inr _ \<Rightarrow> perform_ignoring HttpCloseBody (Return (?report dlq resp msgs))))) h\<^sub>2 out"
    unfolding SenderCheckHealth_def sender_health_def NewSenderHealthService_def Let_def
    by (auto simp: ends_bind_no_halt rabbit.GetDLQMessageCount_no_halt ends_Do)
  show ?thesis
  proof (cases r)
    case (Some err)
    with rest have "out = Stopped NilDereference" by (simp add: ends_Halt)
    with Some show ?thesis by (auto simp: h Let_def)
  next
    case None
    with rest obtain h\<^sub>3 h\<^sub>4 resp msgs where h2: "h\<^sub>2 = HttpDone ''GET'' ?U [] resp # h\<^sub>3 @ h\<^sub>4"
      and msgs: "ends (ListMessages ?R) h\<^sub>3 (Done msgs)"
      and close: "ends (case resp of Inl _ \<Rightarrow> Return (?report dlq resp msgs)
        | Inr _ \<Rightarrow> perform_ignoring HttpCloseBody (Return (?report dlq resp msgs))) h\<^sub>4 out"
      by (auto simp: ends_HttpDo ends_bind_no_halt mongo.ListMessages_no_halt)
    from close have closed: "trace h\<^sub>4 = []" and out: "out = Done (?report dlq resp msgs)"
      by (cases resp; auto simp: ends_Return ends_Do)+
    have tr: "trace h = trace h\<^sub>1 @ HttpDone ''GET'' ?U [] resp # trace h\<^sub>3"
      by (simp add: h h2 closed)
    have made: "Did (HttpNewRequest ''GET'' ?U []) None \<in> set h" by (simp add: h None)
    have ok: "(case resp of Inl _ \<Rightarrow> False | Inr code \<Rightarrow> code = 200) = (resp = Inr 200)"
      by (cases resp) auto
    show ?thesis
      unfolding Let_def tr out ok
      by (rule disjI2, rule conjI [OF made], cases rule: list_answered [OF msgs];
          cases rule: dlq_answered [OF dlq]; auto simp del: filter_set)
  qed
qed

theorem sender_health_flags_witness:
  "\<exists>st. ends (SenderCheckHealth (sender_health \<lparr>has_conn = True, has_channel = True\<rparr>))
       [Inspected DLQQueueName (Inr 4),
        Did (HttpNewRequest ''GET'' ''http://processor_service:8081/status'' []) None,
        HttpDone ''GET'' ''http://processor_service:8081/status'' [] (Inr 503),
        Did (MongoFind all_query) (Some (GoErr ''no reachable servers'')), Did HttpCloseBody None] (Done st) \<and>
     \<not> shs_Service st \<and> \<not> shs_MongoDB st \<and> shs_RabbitMQ st"
  (is "\<exists>st. ends ?p ?h (Done st) \<and> _")
proof -
  have "\<exists>st. ends ?p ?h (Done st)"
    by (simp add: ends_def SenderCheckHealth_def sender_health_def Let_def
        NewSenderHealthService_def mongoMessageRepository_def mongo_ListMessages_def find_all_def
        rabbitMQ_def rabbit_GetDLQMessageCount_def)
  then obtain st where run: "ends ?p ?h (Done st)" ..
  from sender_health_flags [OF run] have "\<not> shs_Service st \<and> \<not> shs_MongoDB st \<and> shs_RabbitMQ st"
    by (auto simp: Let_def DLQQueueName_def)
  with run show ?thesis by blast
qed

end
