(* ===== verification/Http_Api.thy ===== *)
theory Http_Api
  imports Rate_Limit Health
begin

text \<open>
  The HTTP handlers of both services: \<open>sender_service/internal/application/handlers\<close> over the port
  \<open>MessageService\<close>, the processor's health handler, and the routes the two \<open>main\<close> functions set up.
  What gin makes of the request body (\<open>ShouldBindJSON\<close> with the validator) is not under \<open>src/\<close>:
  its result is an argument of the handler.
\<close>

section \<open>The port and the sender's implementation\<close>

record message_service =
  ms_CreateMessage :: "string \<Rightarrow> string \<Rightarrow> oid result prog"
  ms_ListMessages :: "message list result prog"
  ms_StartScheduler :: "unit prog"
  ms_StopScheduler :: "unit prog"

text \<open>
  The calls of the scheduler are synchronous calls; what they do to its goroutines is the subject
  of \<open>Scheduler\<close>.
\<close>

definition sender_message_service :: "sender_service \<Rightarrow> message_service" where
  "sender_message_service s =
     \<lparr>ms_CreateMessage = SenderCreateMessage s, ms_ListMessages = SenderListMessages s,
      ms_StartScheduler = perform_ignoring SchedulerStart (Return ()),
      ms_StopScheduler = perform_ignoring SchedulerStop (Return ())\<rparr>"

section \<open>Requests and answers\<close>

record send_message_request =
  req_To :: string
  req_Content :: string

text \<open>The errors of binding: the fields that failed with the failing tag, or another error.\<close>

datatype bind_error = ValidationErrors "(string \<times> string) list" | BindError go_error

datatype api_body =
    ErrorsBody "string \<Rightarrow> string option"
  | SendMessageResponse string string
  | ListMessagesResponse "message list"
  | StatusBody string
  | SenderHealthBody sender_health_status
  | ProcessorHealthBody processor_health_status

definition field_error :: "string \<Rightarrow> string \<Rightarrow> string option" where
  "field_error name tag =
     (if tag = ''required'' then Some (name @ '' field is required'')
      else if name = ''Content'' then Some ''Content must not exceed 250 characters''
      else if name = ''To'' then Some ''Phone number must be in E.164 format (e.g., +90111111111)''
      else None)"

primrec validation_errors ::
  "(string \<times> string) list \<Rightarrow> (string \<Rightarrow> string option) \<Rightarrow> (string \<Rightarrow> string option)" where
  "validation_errors [] errors = errors"
| "validation_errors (e # ve) errors =
     validation_errors ve
       (case field_error (fst e) (snd e) of
          None \<Rightarrow> errors | Some t \<Rightarrow> errors(fst e \<mapsto> t))"

section \<open>The handlers\<close>

definition SendMessage ::
  "oid_codec \<Rightarrow> message_service \<Rightarrow> bind_error + send_message_request \<Rightarrow> api_body http_answer prog" where
  "SendMessage L s bound =
     (case bound of
        Inl (ValidationErrors ve) \<Rightarrow> Return (Answer 400 (ErrorsBody (validation_errors ve Map.empty)))
      | Inl (BindError err) \<Rightarrow> Return (ErrorAnswer 400 (error_text err))
      | Inr req \<Rightarrow>
          bind (ms_CreateMessage s (req_Content req) (req_To req)) (\<lambda>r. case r of
            Inl err \<Rightarrow> Return (ErrorAnswer 500 (error_text err))
          | Inr i \<Rightarrow> Return (Answer 200 (SendMessageResponse ''Accepted'' (Hex L i)))))"

definition ListMessagesHandler :: "message_service \<Rightarrow> api_body http_answer prog" where
  "ListMessagesHandler s =
     bind (ms_ListMessages s) (\<lambda>r. case r of
       Inl err \<Rightarrow> Return (ErrorAnswer 500 (error_text err))
     | Inr messages \<Rightarrow> Return (Answer 200 (ListMessagesResponse messages)))"

definition StartScheduler :: "message_service \<Rightarrow> api_body http_answer prog" where
  "StartScheduler s =
     bind (ms_StartScheduler s) (\<lambda>_. Return (Answer 200 (StatusBody ''scheduler started'')))"

definition StopScheduler :: "message_service \<Rightarrow> api_body http_answer prog" where
  "StopScheduler s =
     bind (ms_StopScheduler s) (\<lambda>_. Return (Answer 200 (StatusBody ''scheduler stopped'')))"

definition SenderGetStatus :: "sender_health_service \<Rightarrow> api_body http_answer prog" where
  "SenderGetStatus s = bind (SenderCheckHealth s) (\<lambda>st. Return (Answer 200 (SenderHealthBody st)))"

definition ProcessorGetStatus :: "processor_health_service \<Rightarrow> api_body http_answer prog" where
  "ProcessorGetStatus s =
     bind (ProcessorCheckHealth s) (\<lambda>st. Return (Answer 200 (ProcessorHealthBody st)))"

section \<open>The routes of the sender\<close>

datatype api_request =
    PostMessages "bind_error + send_message_request"
  | GetMessages
  | PostSchedulerStart
  | PostSchedulerStop
  | GetStatus

definition sender_route ::
  "oid_codec \<Rightarrow> message_service \<Rightarrow> sender_health_service \<Rightarrow> api_request \<Rightarrow> api_body http_answer prog" where
  "sender_route L s hs req =
     (case req of
        PostMessages bound \<Rightarrow> SendMessage L s bound
      | GetMessages \<Rightarrow> ListMessagesHandler s
      | PostSchedulerStart \<Rightarrow> StartScheduler s
      | PostSchedulerStop \<Rightarrow> StopScheduler s
      | GetStatus \<Rightarrow> SenderGetStatus hs)"

text \<open>All routes of the API group are behind the limiter of 50 requests a second, bursts of 100.\<close>

definition sender_api :: "oid_codec \<Rightarrow> rabbitMQAdapter \<Rightarrow> api_request \<Rightarrow> api_body http_answer prog" where
  "sender_api L mq req =
     RateLimit (NewRateLimiter 50 100)
       (sender_route L (sender_message_service (sender_production mq)) (sender_health mq) req)"

section \<open>Creating a message\<close>

text \<open>The document a request makes: unsent, without retries, with the two clock readings.\<close>

definition new_message :: "string \<Rightarrow> string \<Rightarrow> time \<Rightarrow> time \<Rightarrow> message" where
  "new_message content to' t\<^sub>1 t\<^sub>2 =
     \<lparr>msg_ID = NilObjectID, msg_To = to', msg_Content = content, msg_Status = StatusUnsent,
      msg_RetryCount = 0, msg_CreatedAt = t\<^sub>1, msg_UpdatedAt = t\<^sub>2\<rparr>"

lemma validation_errors_dom:
  "validation_errors ve errors name = None \<longleftrightarrow>
     errors name = None \<and> (\<forall>(f, tag)\<in>set ve. f = name \<longrightarrow> field_error f tag = None)"
  by (induction ve arbitrary: errors) (auto split: option.splits)

lemma validation_errors_value:
  "validation_errors ve errors name = Some t \<Longrightarrow>
     errors name = Some t \<or> (\<exists>tag. (name, tag) \<in> set ve \<and> field_error name tag = Some t)"
  by (induction ve arbitrary: errors) (fastforce split: option.splits if_splits)+

lemma ends_SendMessage:
  "ends (SendMessage L (sender_message_service (sender_production mq)) (Inr req)) h out \<longleftrightarrow>
     (\<exists>t\<^sub>1 t\<^sub>2. h = [Clock t\<^sub>1, Clock t\<^sub>2,
        Did (MongoInsertOne (new_message (req_Content req) (req_To req) t\<^sub>1 t\<^sub>2)) None] \<and>
        out = Done (Answer 200 (SendMessageResponse ''Accepted'' (Hex L NilObjectID)))) \<or>
     (\<exists>t\<^sub>1 t\<^sub>2 err. h = [Clock t\<^sub>1, Clock t\<^sub>2,
        Did (MongoInsertOne (new_message (req_Content req) (req_To req) t\<^sub>1 t\<^sub>2)) (Some err)] \<and>
        out = Done (ErrorAnswer 500 (''failed to create message: '' @ error_text err)))"
  unfolding SendMessage_def sender_message_service_def SenderCreateMessage_def PrepareMessage_def
    mongoMessageRepository_def mongo_CreateMessage_def new_message_def sender_production_parts
  by (auto simp: replay_simps)

section \<open>Properties\<close>

text \<open>
  C34: an accepted request inserts exactly one document, unsent and without retries, with the
  content and recipient asked for, and answers 200; the id it answers is always the nil id,
  whatever the id of the stored document, because the one the driver generates is dropped. When
  the insert fails the answer is 500 with the error. Nothing is published.
\<close>

theorem accepted_request_answers_nil_id:
  "ends (sender_api L mq (PostMessages (Inr req))) h out \<longleftrightarrow>
     h = [Allowed False] \<and> out = Done (ErrorAnswer 429 ''Rate limit exceeded'') \<or>
     (\<exists>t\<^sub>1 t\<^sub>2. h = [Allowed True, Clock t\<^sub>1, Clock t\<^sub>2,
        Did (MongoInsertOne (new_message (req_Content req) (req_To req) t\<^sub>1 t\<^sub>2)) None] \<and>
        out = Done (Answer 200 (SendMessageResponse ''Accepted'' (Hex L NilObjectID)))) \<or>
     (\<exists>t\<^sub>1 t\<^sub>2 err. h = [Allowed True, Clock t\<^sub>1, Clock t\<^sub>2,
        Did (MongoInsertOne (new_message (req_Content req) (req_To req) t\<^sub>1 t\<^sub>2)) (Some err)] \<and>
        out = Done (ErrorAnswer 500 (''failed to create message: '' @ error_text err)))"
  by (auto simp: sender_api_def ends_RateLimit sender_route_def ends_SendMessage)

text \<open>
  A request that does not bind is answered 400 and touches no service but the limiter; when
  the validator names the failing fields, the answer has an error for exactly those fields that
  failed their \<open>required\<close> tag or are \<open>To\<close> or \<open>Content\<close>, and each error is one the field's tags give.
\<close>

theorem invalid_request_answered_400:
  "ends (sender_api L mq (PostMessages (Inl (ValidationErrors ve)))) h out \<longleftrightarrow>
     h = [Allowed False] \<and> out = Done (ErrorAnswer 429 ''Rate limit exceeded'') \<or>
     h = [Allowed True] \<and> (\<exists>errors. out = Done (Answer 400 (ErrorsBody errors)) \<and>
       errors = validation_errors ve Map.empty \<and>
       dom errors = {f. \<exists>tag. (f, tag) \<in> set ve \<and> (tag = ''required'' \<or> f = ''To'' \<or> f = ''Content'')} \<and>
       ran errors \<subseteq> {t. \<exists>(f, tag)\<in>set ve. field_error f tag = Some t})"
proof -
  have "dom (validation_errors ve Map.empty) =
      {f. \<exists>tag. (f, tag) \<in> set ve \<and> (tag = ''required'' \<or> f = ''To'' \<or> f = ''Content'')}"
    unfolding dom_def validation_errors_dom field_error_def by (auto split: if_splits)
  moreover have "ran (validation_errors ve Map.empty) \<subseteq> {t. \<exists>(f, tag)\<in>set ve. field_error f tag = Some t}"
    using validation_errors_value [of ve Map.empty] by (fastforce simp: ran_def)
  ultimately show ?thesis
    by (auto simp: sender_api_def ends_RateLimit sender_route_def SendMessage_def ends_Return)
qed

text \<open>
  A request of the sender's API refused by the limiter is answered 429, and nothing of its
  handler is run: no service is called, whatever the request.
\<close>

lemma refused_request_runs_nothing:
  assumes "ends (sender_api L mq req) (Allowed False # h) out"
  shows "h = [] \<and> out = Done (ErrorAnswer 429 ''Rate limit exceeded'')"
  using assms by (auto simp: sender_api_def ends_RateLimit)

end
