(* ===== verification/Api_Docs.thy ===== *)
theory Api_Docs
  imports Http_Api Simulation
begin

text \<open>
  The documentation the sender serves (\<open>docs/docs.go\<close>: paths, responses, type definitions), the
  JSON shapes of what its handlers answer, and the comparison of the two.
\<close>

section \<open>The documentation\<close>

text \<open>The schemas the template uses; a map of strings is an object with additional properties of type string.\<close>

datatype schema = TString | TInteger | TBoolean | TArray schema | TMapOfStrings | TRef string

record doc_parameter =
  par_description :: string
  par_name :: string
  par_in :: string
  par_required :: bool
  par_schema :: schema

record operation =
  op_description :: string
  op_consumes :: "string list"
  op_produces :: "string list"
  op_tags :: "string list"
  op_summary :: string
  op_parameters :: "doc_parameter list"
  op_responses :: "(nat \<times> string \<times> schema) list"

definition json_type :: string where
  "json_type = ''application/json''"

definition handlers_type :: "string \<Rightarrow> string" where
  "handlers_type n = ''sender_service_internal_application_handlers.'' @ n"

text \<open>The paths of \<open>docTemplate\<close>, with the methods of each.\<close>

definition docTemplate_paths :: "(string \<times> (string \<times> operation) list) list" where
  "docTemplate_paths =
     [(''/messages'',
       [(''GET'',
         \<lparr>op_description = ''Get all messages with their current status'', op_consumes = [],
          op_produces = [json_type], op_tags = [''messages''], op_summary = ''List all messages'',
          op_parameters = [],
          op_responses =
            [(200, ''OK'', TRef (handlers_type ''ListMessagesResponse'')),
             (500, ''Internal Server Error'', TMapOfStrings)]\<rparr>),
        (''POST'',
         \<lparr>op_description = ''Send a new message to be processed'', op_consumes = [json_type],
          op_produces = [json_type], op_tags = [''messages''], op_summary = ''Send a new message'',
          op_parameters =
            [\<lparr>par_description = ''Message to send'', par_name = ''message'', par_in = ''body'',
              par_required = True, par_schema = TRef (handlers_type ''SendMessageRequest'')\<rparr>],
          op_responses =
            [(200, ''OK'', TRef (handlers_type ''SendMessageResponse'')),
             (400, ''Bad Request'', TMapOfStrings),
             (500, ''Internal Server Error'', TMapOfStrings)]\<rparr>)]),
      (''/scheduler/start'',
       [(''POST'',
         \<lparr>op_description = ''Start the message processing scheduler'', op_consumes = [],
          op_produces = [json_type], op_tags = [''scheduler''], op_summary = ''Start scheduler'',
          op_parameters = [], op_responses = [(200, ''OK'', TMapOfStrings)]\<rparr>)]),
      (''/scheduler/stop'',
       [(''POST'',
         \<lparr>op_description = ''Stop the message processing scheduler'', op_consumes = [],
          op_produces = [json_type], op_tags = [''scheduler''], op_summary = ''Stop scheduler'',
          op_parameters = [], op_responses = [(200, ''OK'', TMapOfStrings)]\<rparr>)]),
      (''/status'',
       [(''GET'',
         \<lparr>op_description =
            ''Get the health status of the service and its dependencies (MongoDB, RabbitMQ)'',
          op_consumes = [], op_produces = [json_type], op_tags = [''health''],
          op_summary = ''Get service health status'', op_parameters = [],
          op_responses = [(200, ''OK'', TRef ''service.HealthStatus'')]\<rparr>)])]"

text \<open>The type definitions: the required properties, and each property with its type and example.\<close>

record type_definition =
  td_required :: "string list"
  td_properties :: "(string \<times> schema \<times> string option) list"

definition docTemplate_definitions :: "(string \<times> type_definition) list" where
  "docTemplate_definitions =
     [(''models.Message'',
       \<lparr>td_required = [],
        td_properties =
          [(''content'', TString, None), (''created_at'', TString, None), (''id'', TString, None),
           (''retry_count'', TInteger, None), (''status'', TString, None), (''to'', TString, None),
           (''updated_at'', TString, None)]\<rparr>),
      (handlers_type ''ListMessagesResponse'',
       \<lparr>td_required = [], td_properties = [(''messages'', TArray (TRef ''models.Message''), None)]\<rparr>),
      (handlers_type ''SendMessageRequest'',
       \<lparr>td_required = [''content'', ''to''],
        td_properties =
          [(''content'', TString, Some ''project1''), (''to'', TString, Some ''+90111111111'')]\<rparr>),
      (handlers_type ''SendMessageResponse'',
       \<lparr>td_required = [],
        td_properties =
          [(''message'', TString, Some ''Accepted''),
           (''messageId'', TString, Some ''67f2f8a8-ea58-4ed0-a6f9-ff217df4d849'')]\<rparr>),
      (''service.HealthStatus'',
       \<lparr>td_required = [],
        td_properties =
          [(''mongodb'', TBoolean, None), (''rabbitmq'', TBoolean, None), (''redis'', TBoolean, None),
           (''service'', TBoolean, None)]\<rparr>)]"

record swagger_spec =
  swag_Version :: string
  swag_Host :: string
  swag_BasePath :: string
  swag_Schemes :: "string list"
  swag_Title :: string
  swag_Description :: string
  swag_InfoInstanceName :: string
  swag_LeftDelim :: string
  swag_RightDelim :: string

definition SwaggerInfo :: swagger_spec where
  "SwaggerInfo =
     \<lparr>swag_Version = ''1.0'', swag_Host = ''localhost:8080'', swag_BasePath = ''/api/v1'',
      swag_Schemes = [''http''], swag_Title = ''Message Sender Service API'',
      swag_Description = ''This is the Message Sender Service API'', swag_InfoInstanceName = ''swagger'',
      swag_LeftDelim = ''{{'', swag_RightDelim = ''}}''\<rparr>"

text \<open>What is documented for a full path and a method.\<close>

definition documented_responses :: "string \<Rightarrow> string \<Rightarrow> (nat \<times> string \<times> schema) list" where
  "documented_responses meth path =
     concat (map (\<lambda>(p, ops).
       if swag_BasePath SwaggerInfo @ p = path then
         concat (map (\<lambda>(m, op). if m = meth then op_responses op else []) ops)
       else []) docTemplate_paths)"

section \<open>The routes and the answers\<close>

text \<open>Method and full path of each request: the group's prefix and the route.\<close>

definition api_prefix :: string where
  "api_prefix = ''/api/v1''"

primrec request_route :: "api_request \<Rightarrow> string \<times> string" where
  "request_route (PostMessages bound) = (''POST'', api_prefix @ ''/messages'')"
| "request_route GetMessages = (''GET'', api_prefix @ ''/messages'')"
| "request_route PostSchedulerStart = (''POST'', api_prefix @ ''/scheduler/start'')"
| "request_route PostSchedulerStop = (''POST'', api_prefix @ ''/scheduler/stop'')"
| "request_route GetStatus = (''GET'', api_prefix @ ''/status'')"

text \<open>
  The shapes of the JSON texts the handlers answer, by the JSON tags of the structs. Object ids,
  statuses and times are JSON strings.
\<close>

datatype shape =
    SString | SInteger | SBoolean | SArray "shape list" | SObject "(string \<times> shape) list"
  | SMapOfStrings

definition message_shape :: "message \<Rightarrow> shape" where
  "message_shape m =
     SObject [(''id'', SString), (''to'', SString), (''content'', SString), (''status'', SString),
       (''retry_count'', SInteger), (''created_at'', SString), (''updated_at'', SString)]"

definition sender_status_shape :: "sender_health_status \<Rightarrow> shape" where
  "sender_status_shape st =
     SObject [(''mongodb'', SBoolean), (''rabbitmq'', SBoolean), (''service'', SBoolean)]"

definition processor_status_shape :: "processor_health_status \<Rightarrow> shape" where
  "processor_status_shape st =
     SObject [(''mongodb'', SBoolean), (''rabbitmq'', SBoolean), (''redis'', SBoolean), (''service'', SBoolean)]"

primrec body_shape :: "api_body \<Rightarrow> shape" where
  "body_shape (ErrorsBody errors) = SObject [(''errors'', SMapOfStrings)]"
| "body_shape (SendMessageResponse message i) = SObject [(''message'', SString), (''messageId'', SString)]"
| "body_shape (ListMessagesResponse ms) = SObject [(''messages'', SArray (map message_shape ms))]"
| "body_shape (StatusBody st) = SObject [(''status'', SString)]"
| "body_shape (SenderHealthBody st) = sender_status_shape st"
| "body_shape (ProcessorHealthBody st) = processor_status_shape st"

primrec answer_code :: "'b http_answer \<Rightarrow> nat" where
  "answer_code (Answer code body) = code"
| "answer_code (ErrorAnswer code err) = code"

primrec answer_shape :: "api_body http_answer \<Rightarrow> shape" where
  "answer_shape (Answer code body) = body_shape body"
| "answer_shape (ErrorAnswer code err) = SObject [(''error'', SString)]"

section \<open>Conformance\<close>

text \<open>
  A text conforms to a schema when it is of the documented kind, and an object has properties of
  the documented names and kinds only.
\<close>

fun conforms :: "schema \<Rightarrow> shape \<Rightarrow> bool" where
  "conforms TString s \<longleftrightarrow> s = SString"
| "conforms TInteger s \<longleftrightarrow> s = SInteger"
| "conforms TBoolean s \<longleftrightarrow> s = SBoolean"
| "conforms (TArray t) (SArray ss) \<longleftrightarrow> (\<forall>s\<in>set ss. conforms t s)"
| "conforms TMapOfStrings (SObject fs) \<longleftrightarrow> (\<forall>f\<in>set fs. snd f = SString)"
| "conforms TMapOfStrings SMapOfStrings \<longleftrightarrow> True"
| "conforms (TRef r) (SObject fs) \<longleftrightarrow>
     (case map_of docTemplate_definitions r of
        None \<Rightarrow> False
      | Some d \<Rightarrow>
          (\<forall>f\<in>set fs. case map_of (td_properties d) (fst f) of
             None \<Rightarrow> False | Some p \<Rightarrow> conforms (fst p) (snd f)))"
| "conforms t s \<longleftrightarrow> False"

lemma conforms_message: "conforms (TRef ''models.Message'') (message_shape m)"
  by (simp add: message_shape_def docTemplate_definitions_def)

text \<open>The responses documented for the five routes, by evaluation.\<close>

lemma documented_routes:
  "documented_responses ''POST'' (api_prefix @ ''/messages'') =
     [(200, ''OK'', TRef (handlers_type ''SendMessageResponse'')), (400, ''Bad Request'', TMapOfStrings),
      (500, ''Internal Server Error'', TMapOfStrings)]"
  "documented_responses ''GET'' (api_prefix @ ''/messages'') =
     [(200, ''OK'', TRef (handlers_type ''ListMessagesResponse'')),
      (500, ''Internal Server Error'', TMapOfStrings)]"
  "documented_responses ''POST'' (api_prefix @ ''/scheduler/start'') = [(200, ''OK'', TMapOfStrings)]"
  "documented_responses ''POST'' (api_prefix @ ''/scheduler/stop'') = [(200, ''OK'', TMapOfStrings)]"
  "documented_responses ''GET'' (api_prefix @ ''/status'') = [(200, ''OK'', TRef ''service.HealthStatus'')]"
  by (simp_all add: documented_responses_def docTemplate_paths_def SwaggerInfo_def api_prefix_def)

definition documented :: "api_request \<Rightarrow> api_body http_answer \<Rightarrow> bool" where
  "documented req a \<longleftrightarrow>
     (\<exists>text sch. (answer_code a, text, sch) \<in>
        set (documented_responses (fst (request_route req)) (snd (request_route req))) \<and>
        conforms sch (answer_shape a))"

lemma documented_answers:
  "documented (PostMessages bound) (Answer 200 (SendMessageResponse msg i))"
  "documented (PostMessages bound) (ErrorAnswer 400 err)"
  "documented (PostMessages bound) (ErrorAnswer 500 err)"
  "\<not> documented (PostMessages bound) (Answer 400 (ErrorsBody errors))"
  "documented GetMessages (Answer 200 (ListMessagesResponse ms))"
  "documented GetMessages (ErrorAnswer 500 err)"
  "documented PostSchedulerStart (Answer 200 (StatusBody st))"
  "documented PostSchedulerStop (Answer 200 (StatusBody st))"
  "documented GetStatus (Answer 200 (SenderHealthBody hs))"
  "\<not> documented req (ErrorAnswer 429 err)"
  using conforms_message
  by (cases req; simp add: documented_def documented_routes docTemplate_definitions_def handlers_type_def
      sender_status_shape_def)+

section \<open>Property\<close>



end
