(* ===== verification/Interleaving.thy ===== *)
theory Interleaving
  imports Prelude
begin

text \<open>
  Interleavings of any number of histories, as the goroutines of several services make them, and
  what carries over from each history to the interleaving.
\<close>

section \<open>Merging\<close>

inductive merges :: "'e list list \<Rightarrow> 'e list \<Rightarrow> bool" where
  merges_Nil: "\<forall>x\<in>set hs. x = [] \<Longrightarrow> merges hs []"
| merges_Cons: "j < length hs \<Longrightarrow> hs ! j = e # t \<Longrightarrow> merges (hs[j := t]) h \<Longrightarrow> merges hs (e # h)"

lemma merges_set: "merges hs h \<Longrightarrow> set h = (\<Union>x\<in>set hs. set x)"
proof (induction rule: merges.induct)
  case (merges_Cons j hs e t h)
  have hs: "set hs = insert (e # t) (set (take j hs) \<union> set (drop (Suc j) hs))"
    using id_take_nth_drop [OF merges_Cons(1)] merges_Cons(2)
    by (metis Un_insert_right list.simps(15) set_append)
  have "set (hs[j := t]) = insert t (set (take j hs) \<union> set (drop (Suc j) hs))"
    using merges_Cons(1) by (simp add: upd_conv_take_nth_drop)
  with hs merges_Cons.IH show ?case by auto
qed auto

lemma merges_one: "merges [h] h"
proof (induction h)
  case (Cons e h)
  then show ?case by (intro merges_Cons [of 0]) simp_all
qed (simp add: merges_Nil)

lemma merges_prefix:
  "j < length hs \<Longrightarrow> hs ! j = x @ t \<Longrightarrow> merges (hs[j := t]) h \<Longrightarrow> merges hs (x @ h)"
proof (induction x arbitrary: hs)
  case Nil
  then show ?case by (metis append_Nil list_update_id)
next
  case (Cons e x)
  then show ?case by (auto intro!: merges_Cons [of j _ e "x @ t"])
qed

lemma merges_first: "merges hs h \<Longrightarrow> merges (x # hs) (x @ h)"
proof (induction x)
  case Nil
  then show ?case
  proof (induction rule: merges.induct)
    case (merges_Cons j hs e t h)
    then show ?case by (auto intro: merges.merges_Cons [of "Suc j" _ e t])
  qed (simp add: merges_Nil)
next
  case (Cons e x)
  then show ?case by (auto intro: merges_Cons [of 0])
qed

lemma merges_last: "merges hs h \<Longrightarrow> merges (x # hs) (h @ x)"
proof (induction rule: merges.induct)
  case (merges_Nil hs)
  then show ?case using merges_first [OF merges.merges_Nil] by fastforce
next
  case (merges_Cons j hs e t h)
  then show ?case by (auto intro: merges.merges_Cons [of "Suc j" _ e t])
qed

lemma merges_idle: "merges ([] # hs) h \<Longrightarrow> merges hs h"
proof (induction "[] # hs" h arbitrary: hs rule: merges.induct)
  case (merges_Cons j e t h)
  then obtain l where j: "j = Suc l" by (cases j) auto
  with merges_Cons show ?case by (auto intro: merges.merges_Cons [of l _ e t])
qed (simp add: merges.merges_Nil)

section \<open>Justified events\<close>

text \<open>
  \<open>justified P Q A h\<close>: when an event of \<open>h\<close> satisfies \<open>P\<close>, what happened before, in \<open>h\<close> or in \<open>A\<close>,
  satisfies \<open>Q\<close>. When more events can only help \<open>Q\<close>, this is inherited by prefixes and carries
  over to concatenations and to interleavings.
\<close>

primrec justified :: "('e \<Rightarrow> bool) \<Rightarrow> ('e set \<Rightarrow> bool) \<Rightarrow> 'e set \<Rightarrow> 'e list \<Rightarrow> bool" where
  "justified P Q A [] \<longleftrightarrow> True"
| "justified P Q A (e # h) \<longleftrightarrow> (P e \<longrightarrow> Q A) \<and> justified P Q (insert e A) h"

definition upward :: "('e set \<Rightarrow> bool) \<Rightarrow> bool" where
  "upward Q \<longleftrightarrow> (\<forall>A B. A \<subseteq> B \<longrightarrow> Q A \<longrightarrow> Q B)"

lemma upward_ex [simp]: "upward (\<lambda>A. \<exists>y\<in>A. Q y)" "upward (\<lambda>A. \<exists>y\<in>A. \<exists>z\<in>A. R y z)"
  by (auto simp: upward_def)

lemma justified_mono: "justified P Q A h \<Longrightarrow> upward Q \<Longrightarrow> A \<subseteq> B \<Longrightarrow> justified P Q B h"
proof (induction h arbitrary: A B)
  case (Cons e h)
  have "justified P Q (insert e A) h" using Cons.prems(1) by simp
  from Cons.IH [OF this Cons.prems(2) insert_mono [OF Cons.prems(3)]]
  have "justified P Q (insert e B) h" .
  moreover have "P e \<longrightarrow> Q B" using Cons.prems by (simp add: upward_def)
  ultimately show ?case by simp
qed simp

lemma justified_append: "justified P Q A (h\<^sub>1 @ h\<^sub>2) \<longleftrightarrow> justified P Q A h\<^sub>1 \<and> justified P Q (A \<union> set h\<^sub>1) h\<^sub>2"
  by (induction h\<^sub>1 arbitrary: A) auto

lemma justified_appendI:
  "justified P Q {} h\<^sub>1 \<Longrightarrow> justified P Q {} h\<^sub>2 \<Longrightarrow> upward Q \<Longrightarrow> justified P Q {} (h\<^sub>1 @ h\<^sub>2)"
  by (auto simp: justified_append intro: justified_mono)

lemma justified_none: "\<forall>e\<in>set h. \<not> P e \<Longrightarrow> justified P Q A h"
  by (induction h arbitrary: A) auto

lemma justified_if: "(\<And>e. e \<in> set h \<Longrightarrow> P e \<Longrightarrow> Q A) \<Longrightarrow> upward Q \<Longrightarrow> justified P Q A h"
proof (induction h arbitrary: A)
  case (Cons e h)
  have "Q A \<Longrightarrow> Q (insert e A)" using Cons.prems(2) by (meson subset_insertI upward_def)
  with Cons show ?case by auto
qed simp

lemma justified_filter:
  assumes "\<And>e. P e \<Longrightarrow> F e" and "upward Q" and "justified P Q A (filter F h)"
  shows "justified P Q A h"
  using assms(3)
proof (induction h arbitrary: A)
  case (Cons e h)
  show ?case
  proof (cases "F e")
    case True
    with Cons show ?thesis by simp
  next
    case False
    with Cons.prems have "justified P Q (insert e A) (filter F h)"
      by (auto intro: justified_mono [OF _ assms(2)])
    with False assms(1) Cons.IH show ?thesis by auto
  qed
qed simp

lemma justified_merges:
  "merges hs h \<Longrightarrow> upward Q \<Longrightarrow> \<forall>x\<in>set hs. justified P Q A x \<Longrightarrow> justified P Q A h"
proof (induction arbitrary: A rule: merges.induct)
  case (merges_Cons j hs e t h)
  then have e: "P e \<longrightarrow> Q A" and t: "justified P Q (insert e A) t"
    using nth_mem [OF merges_Cons(1)] by auto
  have "justified P Q (insert e A) x" if "x \<in> set (hs[j := t])" for x
    using that set_update_subset_insert [of hs j t] t merges_Cons.prems
    by (auto intro: justified_mono)
  with merges_Cons.IH [OF merges_Cons.prems(1)] e show ?case by simp
qed simp

lemma justified_preceded: "justified P (\<lambda>A. \<exists>y\<in>A. Q y) {} h \<longleftrightarrow> preceded P Q h"
proof -
  have "justified P (\<lambda>A. \<exists>y\<in>A. Q y) A h \<longleftrightarrow> (\<exists>y\<in>A. Q y) \<or> preceded P Q h" for A
    by (induction h arbitrary: A) (auto simp: preceded_Cons)
  then show ?thesis by simp
qed

section \<open>Interleavings of interleavings\<close>

lemma merges_concat:
  assumes "merges ys h"
  shows "list_all2 merges hss ys \<Longrightarrow> merges (concat hss) h"
  using assms
proof (induction arbitrary: hss rule: merges.induct)
  case (merges_Nil ys)
  have "x = []" if "x \<in> set hs" "hs \<in> set hss" for x hs
  proof -
    from that(2) merges_Nil(2) obtain y where "merges hs y" "y \<in> set ys"
      by (metis in_set_conv_nth list_all2_conv_all_nth)
    with merges_Nil(1) merges_set [of hs y] that(1) show ?thesis by fastforce
  qed
  then have "\<forall>x\<in>set (concat hss). x = []" by auto
  then show ?case by (rule merges.merges_Nil)
next
  case (merges_Cons j ys e t h)
  have j: "j < length hss" using merges_Cons(1,5) by (simp add: list_all2_lengthD)
  have "merges (hss ! j) (e # t)" using merges_Cons(1,2,5) by (metis list_all2_nthD2)
  then obtain l t' where l: "l < length (hss ! j)" "hss ! j ! l = e # t'" and
    rest: "merges ((hss ! j)[l := t']) t" by cases auto
  let ?pre = "concat (take j hss)" and ?hs = "(hss ! j)[l := t']"
  have parts: "concat hss = ?pre @ hss ! j @ concat (drop (Suc j) hss)"
    by (metis id_take_nth_drop [OF j] concat_append concat.simps(2))
  have "concat (hss[j := ?hs]) = ?pre @ ?hs @ concat (drop (Suc j) hss)"
    by (simp add: upd_conv_take_nth_drop [OF j])
  also have "\<dots> = (concat hss)[length ?pre + l := t']"
    unfolding parts using l(1) by (simp add: list_update_append)
  finally have upd: "concat (hss[j := ?hs]) = (concat hss)[length ?pre + l := t']" .
  have "list_all2 merges (hss[j := ?hs]) (ys[j := t])"
    using merges_Cons(5) rest by (rule list_all2_update_cong)
  from merges_Cons.IH [OF this] show ?case
    unfolding upd
    by (rule merges.merges_Cons [rotated 2]) (use l in \<open>simp_all add: parts nth_append\<close>)
qed

text \<open>\<open>omits D x y\<close>: \<open>y\<close> is \<open>x\<close> without some of the events that satisfy \<open>D\<close>.\<close>

inductive omits :: "('e \<Rightarrow> bool) \<Rightarrow> 'e list \<Rightarrow> 'e list \<Rightarrow> bool" for D where
  omits_Nil: "omits D [] []"
| omits_keep: "omits D x y \<Longrightarrow> omits D (e # x) (e # y)"
| omits_drop: "D e \<Longrightarrow> omits D x y \<Longrightarrow> omits D (e # x) y"

inductive_cases omits_ConsE: "omits D (e # x) y"
inductive_cases omits_NilE: "omits D [] y"

lemma omits_refl: "omits D x x"
  by (induction x) (auto intro: omits.intros)

lemma omits_append: "\<forall>e\<in>set u. D e \<Longrightarrow> omits D x y \<Longrightarrow> omits D (u @ x) y"
  by (induction u) (auto intro: omits.intros)

lemma omits_all: "\<forall>e\<in>set u. D e \<Longrightarrow> omits D u []"
  using omits_append [of u D "[]" "[]"] by (simp add: omits_Nil)

lemma omits_trans: "omits D x y \<Longrightarrow> omits D y z \<Longrightarrow> omits D x z"
proof (induction arbitrary: z rule: omits.induct)
  case (omits_keep x y e)
  from omits_keep.prems show ?case
    by (rule omits_ConsE) (auto intro: omits.intros omits_keep.IH)
qed (auto intro: omits.intros)

lemma omits_filter: "omits D x y \<Longrightarrow> filter (\<lambda>e. \<not> D e) x = filter (\<lambda>e. \<not> D e) y"
  by (induction rule: omits.induct) auto

lemma omits_subset: "omits D x y \<Longrightarrow> set y \<subseteq> set x"
  by (induction rule: omits.induct) auto

lemma merges_omits:
  assumes "merges hs h"
  shows "list_all2 (omits D) hs hs' \<Longrightarrow> \<exists>h'. merges hs' h' \<and> omits D h h'"
  using assms
proof (induction arbitrary: hs' rule: merges.induct)
  case (merges_Nil hs)
  have "x = []" if "x \<in> set hs'" for x
  proof -
    from that merges_Nil(2) obtain y where "omits D y x" "y \<in> set hs"
      by (metis in_set_conv_nth list_all2_conv_all_nth)
    with merges_Nil(1) show ?thesis by (auto elim: omits_NilE)
  qed
  then have "merges hs' []" by (simp add: merges.merges_Nil)
  then show ?case using omits_Nil by blast
next
  case (merges_Cons j hs e t h)
  have j: "j < length hs'" using merges_Cons(1,5) by (simp add: list_all2_lengthD)
  have "omits D (e # t) (hs' ! j)" using merges_Cons(1,2,5) by (metis list_all2_nthD)
  then consider (kept) y where "hs' ! j = e # y" "omits D t y" | (dropped) "D e" "omits D t (hs' ! j)"
    by (rule omits_ConsE)
  then show ?case
  proof cases
    case (kept y)
    from merges_Cons.IH [OF list_all2_update_cong [OF merges_Cons(5) kept(2)]]
    obtain h' where "merges (hs'[j := y]) h'" "omits D h h'" by blast
    with merges.merges_Cons [OF j kept(1)] show ?thesis by (auto intro: omits_keep)
  next
    case dropped
    have "list_all2 (omits D) (hs[j := t]) (hs'[j := hs' ! j])"
      using merges_Cons(5) dropped(2) by (rule list_all2_update_cong)
    from merges_Cons.IH [OF this] obtain h' where "merges hs' h'" "omits D h h'" by auto
    with dropped(1) show ?thesis by (auto intro: omits_drop)
  qed
qed

lemma justified_omits:
  "omits D x y \<Longrightarrow> upward Q \<Longrightarrow> (\<And>e. P e \<Longrightarrow> \<not> D e) \<Longrightarrow> justified P Q A y \<Longrightarrow> justified P Q A x"
proof (induction arbitrary: A rule: omits.induct)
  case (omits_drop e x y)
  then have "justified P Q A x" "\<not> P e" by blast+
  with justified_mono [OF _ omits_drop.prems(1), of P A x "insert e A"] show ?case by auto
qed auto

section \<open>Counting in a list that is updated\<close>

lemma count_update:
  "j < length xs \<Longrightarrow>
     count_events P (xs[j := x]) + (if P (xs ! j) then 1 else 0) = count_events P xs + (if P x then 1 else 0)"
proof (induction xs arbitrary: j)
  case (Cons y ys)
  then show ?case by (cases j) auto
qed simp

end
