(* ===== verification/Steady_Runs.thy ===== *)
theory Steady_Runs
  imports Processor_Loops Sender_Service
begin

text \<open>
  What the services do while nothing but the webhook fails: the operations of the ports do what
  they are for, so that few of the traces of \<open>Processor_Spec\<close> and of the batch remain. The safety
  properties would hold of services that do nothing; here is what is done.
\<close>

section \<open>The operations of the ports\<close>

context message_repository_port begin

lemma steady_UpdateStatus:
  assumes "ends (UpdateStatus R i st) h (Done r)" and "steady h"
  shows "r = None \<and> (\<exists>e. trace h = [e] \<and> wrote_status i st None e)"
  using assms(2) UpdateStatus_fails [of i st h] UpdateStatus_trace [OF assms(1)] assms(1)
  by (cases r) (auto dest: attempt_done)

lemma steady_IncrementRetryCount:
  assumes "ends (IncrementRetryCount R i) h (Done r)" and "steady h"
  shows "r = None \<and> (\<exists>e. trace h = [e] \<and> wrote_retry i None e)"
  using assms(2) IncrementRetryCount_fails [of i h] IncrementRetryCount_trace [OF assms(1)] assms(1)
  by (cases r) (auto dest: attempt_done)

lemma steady_GetByID:
  assumes "ends (GetByID R i) h (Done r)" and "steady h"
  shows "\<exists>a. trace h = [FoundOne i a] \<and> found_answer a = r \<and> \<not> isl r"
  using assms(2) GetByID_fails [of i h] GetByID_trace [of i h] assms(1)
  by (cases r) auto

end

context idempotency_port begin

lemma steady_MarkAsProcessed:
  assumes "ends (MarkAsProcessed I k) h (Done r)" and "steady h"
  shows "r = None \<and> (\<exists>e. trace h = [e] \<and> marked k None e)"
  using assms(2) MarkAsProcessed_fails [of k h] MarkAsProcessed_trace [OF assms(1)] assms(1)
  by (cases r) (auto dest: attempt_done)

lemma steady_IsProcessed:
  assumes "ends (IsProcessed I k) h (Done r)" and "steady h"
  shows "\<exists>reply. trace h = [GotKey (inbox_key k) reply] \<and> inbox_answer reply = r \<and> \<not> isl r"
  using assms(2) IsProcessed_fails [of k h] IsProcessed_trace [of k h] assms(1)
  by (cases r) auto

end

context message_queue_port begin

lemma steady_PublishMessage:
  assumes "ends (PublishMessage Q m) h (Done r)" and "steady h"
  shows "r = None \<and> (\<exists>e. trace h = [e] \<and> to_main (marshal_queue_message m) None e)"
  using assms(2) PublishMessage_fails [of m h] PublishMessage_trace [OF assms(1)] assms(1)
  by (cases r) auto

lemma steady_MoveToDeadLetter:
  assumes "ends (MoveToDeadLetter Q d) h (Done r)" and "steady h"
  shows "r = None \<and> (\<exists>e. trace h = [e] \<and> to_dlq (Body d) None e)"
  using assms(2) MoveToDeadLetter_fails [of d h] MoveToDeadLetter_trace [OF assms(1)] assms(1)
  by (cases r) auto

lemma steady_MoveToRetryQueue:
  assumes "ends (MoveToRetryQueue Q d) h (Done r)" and "steady h"
  shows "r = None \<and> (\<exists>e. trace h = [e] \<and> to_retry (Body d) None e)"
  using assms(2) MoveToRetryQueue_fails [of d h] MoveToRetryQueue_trace [OF assms(1)] assms(1)
  by (cases r) auto

end

section \<open>The handler\<close>

text \<open>
  After the webhook failed, and after the inbox answered: \<open>n\<close> is the maximal number of retries, \<open>k\<close>
  the id in the queue message, \<open>i\<close> the parsed id, \<open>H\<close> the whole history.
\<close>

inductive refused_spec ::
  "int \<Rightarrow> oid \<Rightarrow> string \<Rightarrow> history \<Rightarrow> go_error option outcome \<Rightarrow> bool"
  for n i body where
  vanishing:
    "wrote_retry i None e\<^sub>1 \<Longrightarrow> wrote_status i StatusProcessing None e\<^sub>2 \<Longrightarrow>
     refused_spec n i body [e\<^sub>1, e\<^sub>2, FoundOne i ErrNoDocuments] (Stopped NilDereference)"
| last_attempt:
    "wrote_retry i None e\<^sub>1 \<Longrightarrow> wrote_status i StatusProcessing None e\<^sub>2 \<Longrightarrow> n \<le> msg_RetryCount u \<Longrightarrow>
     to_dlq body None e\<^sub>3 \<Longrightarrow> wrote_status i StatusFailed None e\<^sub>4 \<Longrightarrow>
     refused_spec n i body [e\<^sub>1, e\<^sub>2, FoundOne i (Found u), e\<^sub>3, e\<^sub>4] (Done (Some err))"
| another_attempt:
    "wrote_retry i None e\<^sub>1 \<Longrightarrow> wrote_status i StatusProcessing None e\<^sub>2 \<Longrightarrow> msg_RetryCount u < n \<Longrightarrow>
     to_retry body None e\<^sub>3 \<Longrightarrow>
     refused_spec n i body [e\<^sub>1, e\<^sub>2, FoundOne i (Found u), e\<^sub>3] (Done (Some err))"

inductive steady_spec ::
  "message_processor \<Rightarrow> string \<Rightarrow> oid \<Rightarrow> string \<Rightarrow> history \<Rightarrow> bool \<Rightarrow> history \<Rightarrow>
   go_error option outcome \<Rightarrow> bool"
  for p k i body H where
  already_processed:
    "wrote_status i StatusDuplicate None e \<Longrightarrow> steady_spec p k i body H True [e] (Done None)"
| no_document:
    "steady_spec p k i body H False [FoundOne i ErrNoDocuments] (Stopped NilDereference)"
| turned_down:
    "maxRetries p \<le> msg_RetryCount m \<or> (\<exists>t. Clock t \<in> set H \<and> stale_at p m t) \<Longrightarrow>
     to_dlq body None e \<Longrightarrow> wrote_status (msg_ID m) StatusFailed None e' \<Longrightarrow>
     steady_spec p k i body H False [FoundOne i (Found m), e, e'] (Done (Some err))"
| went_through:
    "msg_RetryCount m < maxRetries p \<Longrightarrow> webhook_accepted (msg_Content m) (msg_To m) post \<Longrightarrow>
     optional_webhook_id k es \<Longrightarrow> marked k None mark \<Longrightarrow> wrote_status i StatusSent None sent \<Longrightarrow>
     steady_spec p k i body H False (FoundOne i (Found m) # post # es @ [mark, sent]) (Done None)"
| refused:
    "msg_RetryCount m < maxRetries p \<Longrightarrow> optional_post m es \<Longrightarrow> \<exists>e\<in>set H. failed e \<Longrightarrow>
     refused_spec (maxRetries p) (msg_ID m) body es' out \<Longrightarrow>
     steady_spec p k i body H False (FoundOne i (Found m) # es @ es') out"

context processor_contract begin

lemma found_answer_not_isl: "\<not> isl (found_answer a) \<longleftrightarrow> a = ErrNoDocuments \<or> (\<exists>m. a = Found m)"
  by (cases a) (auto simp: found_answer_def)

lemmas steady_dests =
  R.steady_UpdateStatus R.steady_IncrementRetryCount R.steady_GetByID I.steady_MarkAsProcessed
  Q.steady_MoveToDeadLetter Q.steady_MoveToRetryQueue

lemma refused_refines:
  assumes "ends (handleWebhookError s d m err) h out" and "steady h"
  shows "refused_spec (maxRetries (processor s)) (msg_ID m) (Body d) (trace h) out"
  using assms unfolding handleWebhookError_def replay_simps GetMaxRetries_def
  by (auto simp: not_le found_answer_not_isl dest!: steady_dests intro: refused_spec.intros)

lemma steady_success:
  assumes "ends (handleSuccessfulProcessing s q i) h out" and "steady h"
  shows "out = Done None \<and> (\<exists>mark sent. trace h = [mark, sent] \<and> marked (qm_ID q) None mark \<and>
    wrote_status i StatusSent None sent)"
  using assms unfolding handleSuccessfulProcessing_def
  by (auto simp: replay_simps dest!: steady_dests)

lemma steady_deliver:
  assumes "ends (deliverMessage s d q i m) h out" and "steady h"
    and "msg_RetryCount m < maxRetries (processor s)" and "set h \<subseteq> set H"
  shows "steady_spec (processor s) (qm_ID q) i (Body d) H False (FoundOne i (Found m) # trace h) out"
  using assms(1) unfolding deliverMessage_def
proof (cases rule: ends_bind_sumE [OF _ W.SendMessage_no_halt, consumes 1, case_names failed accepted])
  case (failed h\<^sub>1 h\<^sub>2 err)
  have "optional_post m (trace h\<^sub>1)"
    using W.SendMessage_error_trace [OF failed(2)] by (auto simp: optional_post_def)
  moreover have "\<exists>e\<in>set H. failed e"
    using W.SendMessage_fails [OF failed(2)] assms(4) failed(1) by (auto simp: healthy_def list_all_iff)
  ultimately show ?thesis
    using refused [OF assms(3) _ _ refused_refines [OF failed(3)]] assms(2) failed(1) by simp
next
  case (accepted h\<^sub>1 h\<^sub>2 w)
  obtain post where post: "trace h\<^sub>1 = [post]" "webhook_accepted (msg_Content m) (msg_To m) post"
    using W.SendMessage_trace [OF accepted(2)] by blast
  from accepted(3) obtain h\<^sub>3 h\<^sub>4 where h2: "h\<^sub>2 = h\<^sub>3 @ h\<^sub>4" and stored: "optional_webhook_id (qm_ID q) (trace h\<^sub>3)"
    and rest: "ends (handleSuccessfulProcessing s q i) h\<^sub>4 out"
    by (auto simp: ends_bind dest: store_refines)
  have "steady h\<^sub>4" using assms(2) accepted(1) h2 by simp
  with steady_success [OF rest] obtain mark sent where "out = Done None" "trace h\<^sub>4 = [mark, sent]"
    "marked (qm_ID q) None mark" "wrote_status i StatusSent None sent" by blast
  with went_through [OF assms(3) post(2) stored] post(1) accepted(1) h2 show ?thesis by simp
qed

lemma steady_decide:
  assumes run: "ends (bind (ShouldProcessMessage (processor s) (Some m)) (\<lambda>result.
        if \<not> Success result then
          (if IsStale result then handleStaleMessage s d (Some m)
           else handleMaxRetriesReached s d (Some m))
        else deref (Some m) (deliverMessage s d q i))) h out"
    and steady: "steady h" and sub: "set h \<subseteq> set H"
  shows "steady_spec (processor s) (qm_ID q) i (Body d) H False (FoundOne i (Found m) # trace h) out"
proof -
  have down: "steady_spec (processor s) (qm_ID q) i (Body d) H False (FoundOne i (Found m) # trace h') out"
    if "ends (handleStaleMessage s d (Some m)) h' out \<or> ends (handleMaxRetriesReached s d (Some m)) h' out"
      and "steady h'"
      and "maxRetries (processor s) \<le> msg_RetryCount m \<or> (\<exists>t. Clock t \<in> set H \<and> stale_at (processor s) m t)"
    for h'
    using that(1,2) turned_down [OF that(3)]
    by (auto simp: handleStaleMessage_def handleMaxRetriesReached_def replay_simps dest!: steady_dests)
  from run consider
    (retries) "maxRetries (processor s) \<le> msg_RetryCount m"
      "ends (handleMaxRetriesReached s d (Some m)) h out"
  | (stale) t h' where "h = Clock t # h'" "stale_at (processor s) m t"
      "ends (handleStaleMessage s d (Some m)) h' out"
  | (proceed) t h' where "h = Clock t # h'"
      "msg_RetryCount m < maxRetries (processor s)" "ends (deliverMessage s d q i m) h' out"
    by (auto simp: replay_simps zero_result_def stale_at_def not_less)
  then show ?thesis
  proof cases
    case retries
    with down [of h] steady show ?thesis by blast
  next
    case (stale t h')
    with down [of h'] steady sub show ?thesis by auto
  next
    case (proceed t h')
    with steady_deliver [OF proceed(3) _ proceed(2)] steady sub show ?thesis by simp
  qed
qed

theorem steady_handler:
  assumes run: "ends (handleMessageProcessing L s d q\<^sub>0) h out" and steady: "steady h"
    and sub: "set h \<subseteq> set H" and body: "unmarshal_queue_message (Body d) q\<^sub>0 = Inr q"
    and id: "ObjectIDFromHex L (qm_ID q) = Inr i"
  shows "\<exists>reply es b. trace h = GotKey (inbox_key (qm_ID q)) reply # es \<and> inbox_answer reply = Inr b \<and>
    steady_spec (processor s) (qm_ID q) i (Body d) H b es out"
  using run unfolding handleMessageProcessing_def body sum.case
proof (cases rule: ends_bind_sumE [OF _ I.IsProcessed_no_halt, consumes 1, case_names redis inbox])
  case (redis h\<^sub>1 h\<^sub>2 err)
  with I.steady_IsProcessed [OF redis(2)] steady show ?thesis by auto
next
  case (inbox h\<^sub>1 h\<^sub>2 b)
  from I.steady_IsProcessed [OF inbox(2)] steady inbox(1) obtain reply where
    reply: "trace h\<^sub>1 = [GotKey (inbox_key (qm_ID q)) reply]" "inbox_answer reply = Inr b" by auto
  have "steady_spec (processor s) (qm_ID q) i (Body d) H b (trace h\<^sub>2) out"
  proof (cases b)
    case True
    with inbox(1,3) steady show ?thesis
      by (auto simp: handleDuplicateMessage_def id replay_simps dest!: R.steady_UpdateStatus
          intro: already_processed)
  next
    case False
    with inbox(3) have rest: "ends (bind (GetByID (repository s) i) (\<lambda>r. case r of
        Inl err \<Rightarrow> perform_ignoring (AmqpNack (DeliveryTag d) True) (Return (Some err))
      | Inr msg \<Rightarrow>
          bind (ShouldProcessMessage (processor s) msg) (\<lambda>result.
            if \<not> Success result then
              (if IsStale result then handleStaleMessage s d msg else handleMaxRetriesReached s d msg)
            else deref msg (\<lambda>m. deliverMessage s d q i m)))) h\<^sub>2 out"
      by (simp add: id)
    from rest show ?thesis
    proof (cases rule: ends_bind_sumE [OF _ R.GetByID_no_halt, consumes 1, case_names mongo found])
      case (mongo h\<^sub>3 h\<^sub>4 err)
      with R.steady_GetByID [OF mongo(2)] steady inbox(1) show ?thesis by auto
    next
      case (found h\<^sub>3 h\<^sub>4 msg)
      have steady': "steady h\<^sub>3" "steady h\<^sub>4" "set h\<^sub>4 \<subseteq> set H"
        using steady inbox(1) found(1) sub by auto
      from R.steady_GetByID [OF found(2) steady'(1)] obtain a where
        a: "trace h\<^sub>3 = [FoundOne i a]" "found_answer a = Inr msg" by auto
      show ?thesis
      proof (cases msg)
        case None
        with a found False show ?thesis by (auto simp: replay_simps intro: no_document)
      next
        case (Some m)
        from steady_decide [OF found(3) [unfolded Some] steady'(2,3)] a Some found(1) False
        show ?thesis by simp
      qed
    qed
  qed
  with reply inbox(1) show ?thesis by simp
qed

theorem steady_process:
  assumes "ends (processMessage L s d) h out" and "steady h"
    and "unmarshal_queue_message (Body d) empty_queue_message = Inr q"
    and "ObjectIDFromHex L (qm_ID q) = Inr i"
  obtains es\<^sub>1 reply es\<^sub>2 b out' where "trace h = es\<^sub>1 @ GotKey (inbox_key (qm_ID q)) reply # es\<^sub>2"
    "ack_spec d es\<^sub>1" "inbox_answer reply = Inr b"
    "steady_spec (processor s) (qm_ID q) i (Body d) h b es\<^sub>2 out'" "out = wrapped out'"
  using assms(1)
proof (rule process_cases)
  fix h\<^sub>1 h\<^sub>2 out'
  assume h: "h = h\<^sub>1 @ h\<^sub>2" and ack: "ack_spec d (trace h\<^sub>1)" and out: "out = wrapped out'"
    and run: "ends (handleMessageProcessing L s d empty_queue_message) h\<^sub>2 out'"
  have "steady h\<^sub>2" "set h\<^sub>2 \<subseteq> set h" using assms(2) h by auto
  from steady_handler [OF run this assms(3,4)] that [of "trace h\<^sub>1"] h ack out show thesis by auto
qed

end

section \<open>The batch\<close>

definition published_trace :: "oid_codec \<Rightarrow> message \<Rightarrow> history \<Rightarrow> bool" where
  "published_trace L m es \<longleftrightarrow>
     (\<exists>e e'. es = [e, e'] \<and> to_main (marshal_queue_message (queue_message_of L m)) None e \<and>
        wrote_status (msg_ID m) StatusProcessing None e')"

context sender_contract begin

lemma steady_handleMessage:
  assumes "ends (handleMessage L s m) h (Done r)" and "steady h"
  shows "published_trace L m (trace h)"
  using assms unfolding handleMessage_def published_trace_def
  by (auto simp: replay_simps dest!: Q.steady_PublishMessage R.steady_UpdateStatus)

theorem steady_batch:
  assumes "ends (processUnsentMessages L s) h out" and "steady h"
  shows "out = Done None \<and> (\<exists>ms ess. list_all2 (published_trace L) ms ess \<and>
    trace h = FetchedAll (unsent_query (batchSize (sender s))) (Inr ms) # concat ess)"
  using assms(1) unfolding processUnsentMessages_def GetBatchSize_def
proof (cases rule: ends_bind_sumE [OF _ R.FindUnsent_no_halt, consumes 1, case_names failed found])
  case (failed h\<^sub>1 h\<^sub>2 err)
  with R.FindUnsent_fails [OF failed(2)] assms(2) show ?thesis by simp
next
  case (found h\<^sub>1 h\<^sub>2 ms)
  have "no_halt (for_each ms (handleMessage L s))"
    by (rule no_halt_for_each) (rule handleMessage_returns)
  with found(3) have run: "ends (for_each ms (handleMessage L s)) h\<^sub>2 (Done ())"
    and out: "out = Done None"
    by (auto simp: replay_simps no_halt_def)
  from steady_for_each [OF run, where S = "published_trace L"] assms(2) found(1) steady_handleMessage obtain ess where
    "trace h\<^sub>2 = concat ess" "list_all2 (published_trace L) ms ess" by auto
  with R.FindUnsent_trace [OF found(2)] out found(1) show ?thesis by auto
qed

end

end
