(* ===== verification/Life_Cycle.thy ===== *)
theory Life_Cycle
  imports Steady_Runs Simulation
begin

text \<open>
  The life of one message in the processor: an abstract state machine over its status, its retry
  count and the inbox, and the proof that the deliveries of the message, handled one after the
  other by the consumer while nothing but the webhook fails, are runs of it. What happens over
  all attempts of a message is then read off the machine.
\<close>

section \<open>The machine\<close>

record life =
  life_status :: message_status
  life_retries :: int
  life_processed :: bool

text \<open>
  A step is labelled with what the processor did in the delivery: \<open>n\<close> is the maximal number of
  retries, \<open>c\<close> and \<open>t\<close> are the content and the recipient, \<open>b\<close> is the body of the delivery.
\<close>

inductive life_step :: "int \<Rightarrow> string \<Rightarrow> string \<Rightarrow> string \<Rightarrow> life \<Rightarrow> history \<Rightarrow> life \<Rightarrow> bool"
  for n c t b where
  repeated:
    "life_processed s \<Longrightarrow> filter is_http_call h = [] \<Longrightarrow> filter is_publish h = [] \<Longrightarrow>
     life_step n c t b s h (s\<lparr>life_status := StatusDuplicate\<rparr>)"
| exhausted:
    "\<not> life_processed s \<Longrightarrow> n \<le> life_retries s \<Longrightarrow> filter is_http_call h = [] \<Longrightarrow>
     filter is_publish h = [e] \<Longrightarrow> to_dlq b None e \<Longrightarrow>
     life_step n c t b s h (s\<lparr>life_status := StatusFailed\<rparr>)"
| accepted:
    "\<not> life_processed s \<Longrightarrow> life_retries s < n \<Longrightarrow> e \<in> set h \<Longrightarrow> webhook_accepted c t e \<Longrightarrow>
     filter is_publish h = [] \<Longrightarrow>
     life_step n c t b s h (s\<lparr>life_status := StatusSent, life_processed := True\<rparr>)"
| requeued:
    "\<not> life_processed s \<Longrightarrow> life_retries s + 1 < n \<Longrightarrow> e \<in> set h \<Longrightarrow> failed e \<Longrightarrow>
     filter is_publish h = [e'] \<Longrightarrow> to_retry b None e' \<Longrightarrow>
     life_step n c t b s h (s\<lparr>life_status := StatusProcessing, life_retries := life_retries s + 1\<rparr>)"
| given_up:
    "\<not> life_processed s \<Longrightarrow> life_retries s + 1 = n \<Longrightarrow> e \<in> set h \<Longrightarrow> failed e \<Longrightarrow>
     filter is_publish h = [e'] \<Longrightarrow> to_dlq b None e' \<Longrightarrow>
     life_step n c t b s h (s\<lparr>life_status := StatusFailed, life_retries := life_retries s + 1\<rparr>)"

primrec life_run ::
  "int \<Rightarrow> string \<Rightarrow> string \<Rightarrow> string \<Rightarrow> life \<Rightarrow> history list \<Rightarrow> life \<Rightarrow> bool" where
  "life_run n c t b s [] s' \<longleftrightarrow> s' = s"
| "life_run n c t b s (h # hs) s' \<longleftrightarrow> (\<exists>s\<^sub>1. life_step n c t b s h s\<^sub>1 \<and> life_run n c t b s\<^sub>1 hs s')"

lemma life_run_append:
  "life_run n c t b s (hs\<^sub>1 @ hs\<^sub>2) s' \<longleftrightarrow> (\<exists>s\<^sub>1. life_run n c t b s hs\<^sub>1 s\<^sub>1 \<and> life_run n c t b s\<^sub>1 hs\<^sub>2 s')"
  by (induction hs\<^sub>1 arbitrary: s) auto

section \<open>Looking up before the first write\<close>

lemma quiet_split:
  assumes "trace h = us' @ e # vs'" and "\<forall>x\<in>set us'. \<not> writes x"
  obtains us vs where "h = us @ e # vs" "trace us = us'" "trace vs = vs'" "\<forall>x\<in>set us. \<not> writes x"
  using filter_split [OF assms(1)] quiet_trace assms(2) by metis

lemma inbox_looked_up:
  assumes kv: "key_value_store E kv" and run: "follows E w h w'" and "steady h"
    and tr: "trace h = us' @ GotKey (inbox_key k) reply # vs'" and quiet: "\<forall>x\<in>set us'. \<not> writes x"
  shows "inbox_answer reply = Inr (in_inbox kv w k)"
proof -
  obtain us vs where h: "h = us @ GotKey (inbox_key k) reply # vs" and us: "\<forall>x\<in>set us. \<not> writes x"
    by (rule quiet_split [OF tr quiet])
  with run obtain w\<^sub>1 w\<^sub>2 where before: "follows E w us w\<^sub>1"
    and e: "answers E w\<^sub>1 (GotKey (inbox_key k) reply) w\<^sub>2"
    by (auto simp: follows_append)
  have "kv w\<^sub>1 = kv w" by (rule quiet_kv [OF kv before us])
  with kv [unfolded key_value_store_def, rule_format, OF e] assms(3) h show ?thesis
    by (cases reply) (auto simp: in_inbox_def)
qed

lemma found_after:
  assumes docs: "document_store E docs" and run: "follows E w (us @ FoundOne i a # vs) w'"
    and "steady (us @ FoundOne i a # vs)" and "docs w i = Some m"
  shows "a = Found (fold apply_update (updates_to i us) m) \<and> msg_ID (fold apply_update (updates_to i us) m) = i"
proof -
  from run obtain w\<^sub>1 w\<^sub>2 where before: "follows E w us w\<^sub>1" and e: "answers E w\<^sub>1 (FoundOne i a) w\<^sub>2"
    by (auto simp: follows_append)
  have "docs w\<^sub>1 i = Some (fold apply_update (updates_to i us) m)"
    using steady_docs [OF docs before _ assms(4)] assms(3) by simp
  with docs [unfolded document_store_def, rule_format, OF e] assms(3) show ?thesis
    by (cases a) auto
qed

lemma document_looked_up:
  assumes "document_store E docs" and "follows E w h w'" and "steady h" and "docs w i = Some m"
    and "trace h = us' @ FoundOne i a # vs'"
  shows "a = Found (fold apply_update (updates_to i us') m) \<and>
    msg_ID (fold apply_update (updates_to i us') m) = i"
proof -
  obtain us vs where "h = us @ FoundOne i a # vs" and "trace us = us'"
    by (rule filter_split [OF assms(5)])
  with found_after [OF assms(1), of w us i a vs w' m] assms(2-4) show ?thesis
    by (metis updates_to_trace)
qed

text \<open>Keys are written by sets only.\<close>

lemma kv_unchanged:
  "key_value_store E kv \<Longrightarrow> follows E w h w' \<Longrightarrow> \<forall>e\<in>set h. \<forall>k v d r. e \<noteq> Did (RedisSet k v d) r \<Longrightarrow> kv w' = kv w"
proof (induction h arbitrary: w)
  case (Cons e h)
  then obtain w\<^sub>1 where e: "answers E w e w\<^sub>1" and h: "follows E w\<^sub>1 h w'" by auto
  note law = Cons.prems(1) [unfolded key_value_store_def, rule_format, OF e]
  have "kv w\<^sub>1 = kv w"
  proof (cases e)
    case (Did f r)
    then show ?thesis using law Cons.prems(3) by (cases f) auto
  qed (use law in auto)
  with Cons.IH [OF Cons.prems(1) h] Cons.prems show ?case by simp
qed simp

section \<open>One delivery\<close>

text \<open>The document after the updates of a delivery, and the state of the machine it stands for.\<close>

definition life_of :: "message \<Rightarrow> bool \<Rightarrow> life" where
  "life_of m p = \<lparr>life_status = msg_Status m, life_retries = msg_RetryCount m, life_processed = p\<rparr>"

definition message_in :: "life \<Rightarrow> message \<Rightarrow> time \<Rightarrow> message" where
  "message_in s m t =
     m\<lparr>msg_Status := life_status s, msg_RetryCount := life_retries s, msg_UpdatedAt := t\<rparr>"

lemma message_in_fields [simp]:
  "msg_ID (message_in s m t) = msg_ID m" "msg_Content (message_in s m t) = msg_Content m"
  "msg_To (message_in s m t) = msg_To m" "msg_UpdatedAt (message_in s m t) = t"
  "msg_Status (message_in s m t) = life_status s" "msg_RetryCount (message_in s m t) = life_retries s"
  "message_in s' (message_in s m t) t' = message_in s' m t'" "life_of (message_in s m t) p = \<lparr>life_status = life_status s, life_retries = life_retries s, life_processed = p\<rparr>"
  by (simp_all add: message_in_def life_of_def)

lemma life_of_fields [simp]:
  "life_status (life_of m p) = msg_Status m" "life_retries (life_of m p) = msg_RetryCount m"
  "life_processed (life_of m p) = p"
  by (simp_all add: life_of_def)

definition update_times :: "oid \<Rightarrow> history \<Rightarrow> time set" where
  "update_times i h = {t. \<exists>u\<in>set (updates_to i h). set_updated_at u = Some t}"

lemma update_times_append: "update_times i (h\<^sub>1 @ h\<^sub>2) = update_times i h\<^sub>1 \<union> update_times i h\<^sub>2"
  by (auto simp: update_times_def updates_to_append)

lemma updates_to_observed:
  "wrote_status i st r e \<Longrightarrow> \<exists>t. updates_to j (e # es) = (if i = j then [status_update st t] else []) @ updates_to j es"
  "wrote_retry i r e \<Longrightarrow> \<exists>t. updates_to j (e # es) = (if i = j then [retry_update t] else []) @ updates_to j es"
  "marked k r e \<Longrightarrow> updates_to j (e # es) = updates_to j es"
  "to_dlq b r e \<Longrightarrow> updates_to j (e # es) = updates_to j es"
  "to_retry b r e \<Longrightarrow> updates_to j (e # es) = updates_to j es"
  "webhook_posted c t e \<Longrightarrow> updates_to j (e # es) = updates_to j es"
  "stored_webhook_id k v e \<Longrightarrow> updates_to j (e # es) = updates_to j es"
  by (auto simp: wrote_status_def wrote_retry_def marked_def to_dlq_def to_retry_def webhook_posted_def
      stored_webhook_id_def)

lemma quiet_updates: "ack_spec d es \<Longrightarrow> updates_to j es = []"
  by (auto simp: ack_spec_def split: if_splits)

lemma optional_updates:
  "optional_post m es \<Longrightarrow> updates_to j es = []" "optional_webhook_id k es \<Longrightarrow> updates_to j es = []"
  by (auto simp: optional_post_def optional_webhook_id_def webhook_posted_def stored_webhook_id_def)

lemma not_set: "wrote_status i st r e \<Longrightarrow> e \<noteq> Did (RedisSet k v x) r'" "wrote_retry i r e \<Longrightarrow> e \<noteq> Did (RedisSet k v x) r'"
  "to_dlq b r e \<Longrightarrow> e \<noteq> Did (RedisSet k v x) r'" "to_retry b r e \<Longrightarrow> e \<noteq> Did (RedisSet k v x) r'"
  "webhook_posted c t e \<Longrightarrow> e \<noteq> Did (RedisSet k v x) r'"
  by (auto simp: event_defs)

lemma kv_trace:
  assumes "key_value_store E kv" and "follows E w h w'" and "\<forall>e\<in>set (trace h). \<forall>k v d r. e \<noteq> Did (RedisSet k v d) r"
  shows "kv w' = kv w"
  by (rule kv_unchanged [OF assms(1,2)]) (use assms(3) in auto)

lemma ack_quiet:
  assumes "ack_spec d es"
  shows "\<forall>e\<in>set es. \<not> writes e" "filter is_http_call es = []" "filter is_publish es = []"
  using assms by (auto simp: ack_spec_def writes_def is_http_call_def is_publish_def split: if_splits)

lemma lookups_plain [simp]:
  "\<not> is_http_call (GotKey k r)" "\<not> is_publish (GotKey k r)" "\<not> is_http_call (FoundOne i a)"
  "\<not> is_publish (FoundOne i a)" "\<not> writes (GotKey k r)" "\<not> writes (FoundOne i a)"
  by (auto simp: is_http_call_def is_publish_def writes_def)

lemma written_plain [simp]:
  "wrote_status i st r e \<Longrightarrow> \<not> is_http_call e \<and> \<not> is_publish e"
  "wrote_retry i r e \<Longrightarrow> \<not> is_http_call e \<and> \<not> is_publish e"
  "marked k r e \<Longrightarrow> \<not> is_http_call e \<and> \<not> is_publish e"
  "to_dlq b r e \<Longrightarrow> \<not> is_http_call e \<and> is_publish e"
  "to_retry b r e \<Longrightarrow> \<not> is_http_call e \<and> is_publish e"
  "webhook_posted c t e \<Longrightarrow> \<not> is_publish e"
  by (auto simp: event_defs)

lemma optional_plain: "optional_post m es \<Longrightarrow> filter is_publish es = []" "optional_webhook_id k es \<Longrightarrow> filter is_publish es = []"
  by (auto simp: event_defs)

text \<open>What is left of the five traces when the document is in the store and recent enough.\<close>

lemma refused_life:
  assumes spec: "refused_spec n (msg_ID m) b es out'"
    and docs: "document_store E docs" and run: "follows E w h w'" and "steady h" and "docs w (msg_ID m) = Some m"
    and tr: "trace h = us @ es" and quiet: "updates_to (msg_ID m) us = []" "filter is_publish us = []"
    and "msg_RetryCount m < n" and "e \<in> set h" and "failed e"
  shows "(\<exists>r. out' = Done r) \<and> (\<exists>s' x. life_step n c t b (life_of m False) h s' \<and>
    fold apply_update (updates_to (msg_ID m) es) m = message_in s' m x \<and> x \<in> update_times (msg_ID m) es \<and>
    \<not> life_processed s')"
proof -
  have pub: "filter is_publish h = filter is_publish es"
    using tr quiet(2) filter_trace [of is_publish h, OF is_publish_observed] by simp
  note found = document_looked_up [OF docs run assms(4,5)]
  from spec show ?thesis
  proof cases
    case (vanishing e\<^sub>1 e\<^sub>2)
    with found [of "us @ [e\<^sub>1, e\<^sub>2]" ErrNoDocuments "[]"] tr show ?thesis by simp
  next
    case (last_attempt e\<^sub>1 e\<^sub>2 u e\<^sub>3 e\<^sub>4 err)
    from last_attempt(3,4,7) obtain x y z where es:
      "e\<^sub>1 = Did (MongoUpdateOne (msg_ID m) (retry_update x)) None"
      "e\<^sub>2 = Did (MongoUpdateOne (msg_ID m) (status_update StatusProcessing y)) None"
      "e\<^sub>4 = Did (MongoUpdateOne (msg_ID m) (status_update StatusFailed z)) None"
      by (auto simp: wrote_status_def wrote_retry_def)
    have "u = fold apply_update [retry_update x, status_update StatusProcessing y] m"
      using found [of "us @ [e\<^sub>1, e\<^sub>2]" "Found u" "[e\<^sub>3, e\<^sub>4]"] tr last_attempt(1) quiet(1) es
      by (simp add: updates_to_append)
    then have "msg_RetryCount m + 1 = n"
      using last_attempt(5) assms(9) by (simp add: apply_update_def retry_update_def status_update_def)
    then have "life_step n c t b (life_of m False) h
        (life_of m False\<lparr>life_status := StatusFailed, life_retries := msg_RetryCount m + 1\<rparr>)"
      using given_up [of "life_of m False" n e h e\<^sub>3 b c t] assms(10,11) last_attempt pub by simp
    moreover have "updates_to (msg_ID m) es = [retry_update x, status_update StatusProcessing y, status_update StatusFailed z]"
      using last_attempt(1,6) es by (auto simp: to_dlq_def)
    ultimately show ?thesis
      using last_attempt(2)
      by (intro conjI exI [of _ z] exI [of _ "life_of m False\<lparr>life_status := StatusFailed, life_retries := msg_RetryCount m + 1\<rparr>"])
        (auto simp: message_in_def apply_update_def retry_update_def status_update_def update_times_def)
  next
    case (another_attempt e\<^sub>1 e\<^sub>2 u e\<^sub>3 err)
    from another_attempt(3,4) obtain x y where es:
      "e\<^sub>1 = Did (MongoUpdateOne (msg_ID m) (retry_update x)) None"
      "e\<^sub>2 = Did (MongoUpdateOne (msg_ID m) (status_update StatusProcessing y)) None"
      by (auto simp: wrote_status_def wrote_retry_def)
    have "u = fold apply_update [retry_update x, status_update StatusProcessing y] m"
      using found [of "us @ [e\<^sub>1, e\<^sub>2]" "Found u" "[e\<^sub>3]"] tr another_attempt(1) quiet(1) es
      by (simp add: updates_to_append)
    then have "msg_RetryCount m + 1 < n"
      using another_attempt(5) by (simp add: apply_update_def retry_update_def status_update_def)
    then have "life_step n c t b (life_of m False) h
        (life_of m False\<lparr>life_status := StatusProcessing, life_retries := msg_RetryCount m + 1\<rparr>)"
      using requeued [of "life_of m False" n e h e\<^sub>3 b c t] assms(10,11) another_attempt pub by simp
    moreover have "updates_to (msg_ID m) es = [retry_update x, status_update StatusProcessing y]"
      using another_attempt(1,6) es by (auto simp: to_retry_def)
    ultimately show ?thesis
      using another_attempt(2)
      by (intro conjI exI [of _ y] exI [of _ "life_of m False\<lparr>life_status := StatusProcessing, life_retries := msg_RetryCount m + 1\<rparr>"])
        (auto simp: message_in_def apply_update_def retry_update_def status_update_def update_times_def)
  qed
qed

lemma wrapped_Done: "(\<exists>r. wrapped out = Done r) \<longleftrightarrow> (\<exists>r. out = Done r)"
  by (cases out rule: wrapped.cases) auto

lemma delivery_life:
  assumes docs: "document_store E docs" and kv: "key_value_store E kv"
    and run: "run E (processMessage L (production n url timeout mq) d) w = (out, h, w')"
    and steady: "steady h"
    and body: "unmarshal_queue_message (Body d) empty_queue_message = Inr q"
    and id: "ObjectIDFromHex L (qm_ID q) = Inr i" and doc: "docs w i = Some m"
    and prompt: "\<forall>x\<in>set (clock_readings h). time_sub x (msg_UpdatedAt m) \<le> 4 * Minute"
  shows "(\<exists>r. out = Done r \<and>
      (healthy h \<and> \<not> in_inbox kv w (qm_ID q) \<and> msg_RetryCount m < n \<longrightarrow> r = None)) \<and> (\<exists>s' x.
    life_step n (msg_Content m) (msg_To m) (Body d) (life_of m (in_inbox kv w (qm_ID q))) h s' \<and>
    docs w' i = Some (message_in s' m x) \<and> x \<in> update_times i h \<and>
    in_inbox kv w' (qm_ID q) = life_processed s')"
proof -
  from run have ends: "ends (processMessage L (production n url timeout mq) d) h out"
    and follows: "follows E w h w'" by (simp_all add: run_iff)
  from ends steady body id obtain us reply es b out' where
    tr: "trace h = us @ GotKey (inbox_key (qm_ID q)) reply # es" and ack: "ack_spec d us"
    and reply: "inbox_answer reply = Inr b"
    and spec: "steady_spec (NewMessageProcessor n (4 * Minute)) (qm_ID q) i (Body d) h b es out'"
    and out: "out = wrapped out'"
    by (rule production.steady_process) simp
  have b: "b = in_inbox kv w (qm_ID q)"
    using inbox_looked_up [OF kv follows steady tr ack_quiet(1) [OF ack]] reply by simp
  have after: "docs w' i = Some (fold apply_update (updates_to i es) m)"
    and upd: "updates_to i h = updates_to i es"
    using steady_docs [OF docs follows steady doc] quiet_updates [OF ack, of i]
    by (simp_all flip: updates_to_trace [of i h] add: tr updates_to_append)
  then have times: "update_times i h = update_times i es" by (simp add: update_times_def)
  have plain: "filter is_http_call h = filter is_http_call es" "filter is_publish h = filter is_publish es"
    using tr ack_quiet(2,3) [OF ack] filter_trace [of is_publish h, OF is_publish_observed]
      filter_trace [of is_http_call h, OF is_http_call_observed] by simp_all
  note found = document_looked_up [OF docs follows steady doc,
      of "us @ [GotKey (inbox_key (qm_ID q)) reply]", simplified updates_to_append quiet_updates [OF ack]]
  have same_kv: "kv w' = kv w" if "\<forall>e\<in>set es. \<forall>k v d r. e \<noteq> Did (RedisSet k v d) r"
    using kv_trace [OF kv follows] that ack tr by (auto simp: ack_spec_def split: if_splits)
  have concl: ?thesis
    if "life_step n (msg_Content m) (msg_To m) (Body d) (life_of m (in_inbox kv w (qm_ID q))) h s'"
      and "docs w' i = Some (message_in s' m x)" and "x \<in> update_times i h"
      and "in_inbox kv w' (qm_ID q) = life_processed s'"
      and "out' = Done None \<or> (\<exists>r. out' = Done r) \<and> (n \<le> msg_RetryCount m \<or> \<not> healthy h)" for s' x
  proof -
    have "\<exists>r. out = Done r \<and> (healthy h \<and> msg_RetryCount m < n \<longrightarrow> r = None)"
      using that(5) wrapped_Done [of out'] unfolding out by auto
    with that(1-4) show ?thesis by blast
  qed
  from spec show ?thesis
  proof cases
    case (already_processed e)
    then obtain x where "e = Did (MongoUpdateOne i (status_update StatusDuplicate x)) None"
      by (auto simp: wrote_status_def)
    with already_processed b have
      "life_step n (msg_Content m) (msg_To m) (Body d) (life_of m (in_inbox kv w (qm_ID q))) h
        (life_of m True\<lparr>life_status := StatusDuplicate\<rparr>)"
      "docs w' i = Some (message_in (life_of m True\<lparr>life_status := StatusDuplicate\<rparr>) m x)"
      "x \<in> update_times i h" "in_inbox kv w' (qm_ID q)"
      using repeated [of "life_of m True" h] plain after same_kv times
      by (simp_all add: apply_update_def message_in_def update_times_def status_update_def in_inbox_def)
    with already_processed(3) show ?thesis
      by (intro concl [of "life_of m True\<lparr>life_status := StatusDuplicate\<rparr>" x]) simp_all
  next
    case no_document
    with found [of ErrNoDocuments "[]"] tr show ?thesis by simp
  next
    case (turned_down m' e e' err)
    with found [of "Found m'" "[e, e']"] tr have m: "m' = m" "msg_ID m = i" by simp_all
    from turned_down(6) m obtain x where e': "e' = Did (MongoUpdateOne i (status_update StatusFailed x)) None"
      by (auto simp: wrote_status_def)
    have "\<not> stale_at (NewMessageProcessor n (4 * Minute)) m t" if "Clock t \<in> set h" for t
      using prompt that by (auto simp: stale_at_def NewMessageProcessor_def set_clock_readings not_less)
    with turned_down(4) m have "n \<le> msg_RetryCount m" by (auto simp: NewMessageProcessor_def)
    from this turned_down b e' have
      "life_step n (msg_Content m) (msg_To m) (Body d) (life_of m (in_inbox kv w (qm_ID q))) h
        (life_of m False\<lparr>life_status := StatusFailed\<rparr>)"
      using exhausted [of "life_of m False" n h e "Body d"] plain by simp
    moreover from turned_down(2,5) e' have "updates_to i es = [status_update StatusFailed x]"
      by (auto simp: to_dlq_def)
    moreover have "kv w' = kv w"
      by (rule same_kv) (use turned_down(2,5) e' in \<open>auto simp: to_dlq_def\<close>)
    ultimately show ?thesis
      using turned_down(1,3) b after times \<open>n \<le> msg_RetryCount m\<close>
      by (intro concl [of "life_of m False\<lparr>life_status := StatusFailed\<rparr>" x])
        (simp_all add: apply_update_def message_in_def update_times_def status_update_def in_inbox_def)
  next
    case (went_through m' post es' mark sent)
    with found [of "Found m'" "post # es' @ [mark, sent]"] tr have m: "m' = m" "msg_ID m = i" by simp_all
    from went_through(8) obtain x where sent: "sent = Did (MongoUpdateOne i (status_update StatusSent x)) None"
      by (auto simp: wrote_status_def)
    have accepted_post: "webhook_accepted (msg_Content m) (msg_To m) post" using went_through(5) m by simp
    have "post \<in> set (trace h)" unfolding tr went_through(2) by simp
    then have "post \<in> set h" by simp
    moreover have "filter is_publish es = []"
      using went_through(2,6,7) accepted_post sent optional_plain(2) [OF went_through(6)]
      by (auto simp: event_defs)
    ultimately have step: "life_step n (msg_Content m) (msg_To m) (Body d) (life_of m (in_inbox kv w (qm_ID q))) h
        (life_of m False\<lparr>life_status := StatusSent, life_processed := True\<rparr>)"
      using accepted [of "life_of m False" n post h] went_through(1,4) m b accepted_post plain
      by (simp add: NewMessageProcessor_def)
    have "updates_to i es = [status_update StatusSent x]"
      using went_through(2,6,7) sent accepted_post optional_updates(2) [OF went_through(6), of i]
      by (auto simp: updates_to_append webhook_accepted_def marked_def)
    then have "docs w' i = Some (message_in (life_of m False\<lparr>life_status := StatusSent, life_processed := True\<rparr>) m x)"
      "x \<in> update_times i h"
      using after times by (simp_all add: apply_update_def status_update_def message_in_def update_times_def)
    moreover have "in_inbox kv w' (qm_ID q)"
    proof (rule marked_in_inbox [OF kv follows])
      show "\<forall>e\<in>set h. only_marks e"
        using process_benign [OF production.process_refines [OF ends]] by (simp add: benign_def)
      have "mark \<in> set (trace h)" unfolding tr went_through(2) by simp
      then show "mark \<in> set h" by simp
    qed (rule went_through(7))
    ultimately show ?thesis using step went_through(3)
      by (intro concl [of "life_of m False\<lparr>life_status := StatusSent, life_processed := True\<rparr>" x]) simp_all
  next
    case (refused m' es\<^sub>1 es\<^sub>2)
    with found [of "Found m'" "es\<^sub>1 @ es\<^sub>2"] tr have m: "m' = m" "msg_ID m = i" by simp_all
    obtain e where e: "e \<in> set h" "failed e" using refused(5) by blast
    let ?us = "us @ GotKey (inbox_key (qm_ID q)) reply # FoundOne i (Found m) # es\<^sub>1"
    have "updates_to i ?us = []" "filter is_publish ?us = []"
      using quiet_updates [OF ack] ack_quiet(3) [OF ack] optional_updates(1) [OF refused(4)]
        optional_plain(1) [OF refused(4)] by (simp_all add: updates_to_append)
    moreover have "trace h = ?us @ es\<^sub>2" using tr refused(2) m by simp
    ultimately have "(\<exists>r. out' = Done r) \<and>
      (\<exists>s' x. life_step n (msg_Content m) (msg_To m) (Body d) (life_of m False) h s' \<and>
         fold apply_update (updates_to i es\<^sub>2) m = message_in s' m x \<and> x \<in> update_times i es\<^sub>2 \<and>
         \<not> life_processed s')"
      using refused_life [of n m "Body d" es\<^sub>2 out' E docs w h w' ?us e "msg_Content m" "msg_To m"]
        refused(3,6) docs follows steady doc e m by (simp add: NewMessageProcessor_def)
    then obtain s' x where
      life: "\<exists>r. out' = Done r" "life_step n (msg_Content m) (msg_To m) (Body d) (life_of m False) h s'"
        "fold apply_update (updates_to i es\<^sub>2) m = message_in s' m x" "x \<in> update_times i es\<^sub>2"
        "\<not> life_processed s'"
      by blast
    have upd2: "updates_to i es = updates_to i es\<^sub>2"
      using refused(2) optional_updates(1) [OF refused(4), of i] by (simp add: updates_to_append)
    then have "x \<in> update_times i h" using life(4) times by (simp add: update_times_def)
    moreover have "kv w' = kv w"
    proof (rule same_kv)
      show "\<forall>e\<in>set es. \<forall>k v d r. e \<noteq> Did (RedisSet k v d) r"
        using refused(2,4,6) by (auto simp: optional_post_def elim!: refused_spec.cases dest: not_set)
    qed
    then have "in_inbox kv w' (qm_ID q) = in_inbox kv w (qm_ID q)" by (simp add: in_inbox_def)
    moreover have "\<not> healthy h" using e by (auto simp: healthy_def list_all_iff)
    ultimately show ?thesis
      using life refused(1) b after upd2 by (intro concl [of s' x]) simp_all
  qed
qed

text \<open>A message that is to be delivered, and is delivered while nothing fails, is sent.\<close>

lemma sent_when_healthy:
  assumes docs: "document_store E docs" and kv: "key_value_store E kv"
    and run: "run E (processMessage L (production n url timeout mq) d) w = (out, h, w')"
    and ok: "healthy h"
    and body: "unmarshal_queue_message (Body d) empty_queue_message = Inr q"
    and id: "ObjectIDFromHex L (qm_ID q) = Inr i"
    and doc: "docs w i = Some m" and new: "\<not> in_inbox kv w (qm_ID q)"
    and retries: "msg_RetryCount m < n"
    and fresh: "\<forall>t\<in>set (clock_readings h). time_sub t (msg_UpdatedAt m) \<le> 4 * Minute"
  shows "out = Done None \<and> (\<exists>e\<in>set h. webhook_accepted (msg_Content m) (msg_To m) e) \<and>
    filter is_publish h = [] \<and> in_inbox kv w' (qm_ID q) \<and>
    (\<exists>t. docs w' i = Some (m\<lparr>msg_Status := StatusSent, msg_UpdatedAt := t\<rparr>))"
proof -
  from delivery_life [OF docs kv run healthy_steady [OF ok] body id doc fresh] ok new retries obtain s' x where
    out: "out = Done None"
    and step: "life_step n (msg_Content m) (msg_To m) (Body d) (life_of m False) h s'"
    and stored: "docs w' i = Some (message_in s' m x)" "in_inbox kv w' (qm_ID q) = life_processed s'"
    by auto
  from step show ?thesis
  proof cases
    case (accepted e)
    with out stored show ?thesis by (auto simp: message_in_def life_of_def)
  qed (use ok retries in \<open>auto simp: healthy_def list_all_iff\<close>)
qed

section \<open>All deliveries of a message\<close>

text \<open>
  No decision comes later than four minutes after the update it looks at: the clock is never read
  later than that after the time of the document or of an update made to it.
\<close>

definition prompt :: "oid \<Rightarrow> time \<Rightarrow> history \<Rightarrow> bool" where
  "prompt i x\<^sub>0 h \<longleftrightarrow> (\<forall>x\<in>set (clock_readings h).
     time_sub x x\<^sub>0 \<le> 4 * Minute \<and> (\<forall>u\<in>set (updates_to i h). case set_updated_at u of
       None \<Rightarrow> True | Some y \<Rightarrow> time_sub x y \<le> 4 * Minute))"

lemma prompt_append:
  "prompt i x\<^sub>0 (h\<^sub>1 @ h\<^sub>2) \<Longrightarrow> prompt i x\<^sub>0 h\<^sub>1"
  "prompt i x\<^sub>0 (h\<^sub>1 @ h\<^sub>2) \<Longrightarrow> y \<in> insert x\<^sub>0 (update_times i h\<^sub>1) \<Longrightarrow> prompt i y h\<^sub>2"
  unfolding prompt_def update_times_def
  by (auto simp: clock_readings_def updates_to_append) force+

lemma message_in_self: "message_in (life_of m p) m (msg_UpdatedAt m) = m"
  by (simp add: message_in_def life_of_def)

lemma life_of_again: "life_of (message_in s m x) (life_processed s) = s"
  by (simp add: message_in_def life_of_def)

lemma deliveries_life:
  assumes docs: "document_store E docs" and kv: "key_value_store E kv"
    and body: "unmarshal_queue_message body empty_queue_message = Inr q"
    and id: "ObjectIDFromHex L (qm_ID q) = Inr i"
  shows "\<forall>d\<in>set ds. Body d = body \<Longrightarrow>
    run E (consume L (production n url timeout mq) (map Delivered ds)) w = (out, h, w') \<Longrightarrow>
    steady h \<Longrightarrow> docs w i = Some m \<Longrightarrow> prompt i (msg_UpdatedAt m) h \<Longrightarrow>
    out = Done () \<and> (\<exists>hs s' x. h = concat hs \<and> length hs = length ds \<and>
      life_run n (msg_Content m) (msg_To m) body (life_of m (in_inbox kv w (qm_ID q))) hs s' \<and>
      docs w' i = Some (message_in s' m x) \<and> x \<in> insert (msg_UpdatedAt m) (update_times i h) \<and>
      in_inbox kv w' (qm_ID q) = life_processed s')"
proof (induction ds arbitrary: w h m)
  case Nil
  then have "out = Done ()" "h = []" "w' = w" by (auto simp: run_iff ends_Return)
  with Nil show ?case
    by (intro conjI exI [of _ "[]"] exI [of _ "life_of m (in_inbox kv w (qm_ID q))"] exI [of _ "msg_UpdatedAt m"])
      (simp_all add: message_in_self)
next
  case (Cons d ds)
  let ?s = "production n url timeout mq"
  from Cons.prems(2) have ends: "ends (bind (processMessage L ?s d) (\<lambda>_. consume L ?s (map Delivered ds))) h out"
    and follows: "follows E w h w'" by (simp_all add: run_iff)
  have first: "(\<exists>r. out\<^sub>1 = Done r) \<and> (\<exists>s\<^sub>1 x.
      life_step n (msg_Content m) (msg_To m) body (life_of m (in_inbox kv w (qm_ID q))) h\<^sub>1 s\<^sub>1 \<and>
      docs w\<^sub>1 i = Some (message_in s\<^sub>1 m x) \<and> x \<in> update_times i h\<^sub>1 \<and>
      in_inbox kv w\<^sub>1 (qm_ID q) = life_processed s\<^sub>1)"
    if "h = h\<^sub>1 @ h\<^sub>2" "ends (processMessage L ?s d) h\<^sub>1 out\<^sub>1" "follows E w h\<^sub>1 w\<^sub>1" for h\<^sub>1 h\<^sub>2 out\<^sub>1 w\<^sub>1
  proof -
    have "prompt i (msg_UpdatedAt m) h\<^sub>1" using prompt_append(1) Cons.prems(5) that(1) by simp
    with delivery_life [OF docs kv _ _ _ id Cons.prems(4), of n url timeout mq d out\<^sub>1 h\<^sub>1 w\<^sub>1] that
      Cons.prems(1,3) body show ?thesis
      by (auto simp: run_iff prompt_def)
  qed
  from ends show ?case
    unfolding ends_bind
  proof (elim disjE exE conjE)
    fix y assume "ends (processMessage L ?s d) h (Stopped y)"
    with first [of h "[]" "Stopped y" w'] follows show ?thesis by simp
  next
    fix h\<^sub>1 h\<^sub>2 r
    assume h: "h = h\<^sub>1 @ h\<^sub>2" and run1: "ends (processMessage L ?s d) h\<^sub>1 (Done r)"
      and run2: "ends (consume L ?s (map Delivered ds)) h\<^sub>2 out"
    from follows h obtain w\<^sub>1 where f1: "follows E w h\<^sub>1 w\<^sub>1" and f2: "follows E w\<^sub>1 h\<^sub>2 w'"
      by (auto simp: follows_append)
    from first [OF h run1 f1] obtain s\<^sub>1 x where
      step: "life_step n (msg_Content m) (msg_To m) body (life_of m (in_inbox kv w (qm_ID q))) h\<^sub>1 s\<^sub>1"
      and doc: "docs w\<^sub>1 i = Some (message_in s\<^sub>1 m x)" and x: "x \<in> update_times i h\<^sub>1"
      and inbox: "in_inbox kv w\<^sub>1 (qm_ID q) = life_processed s\<^sub>1" by blast
    have "prompt i x h\<^sub>2" using prompt_append(2) Cons.prems(5) h x by simp
    with Cons.IH [of w\<^sub>1 h\<^sub>2 "message_in s\<^sub>1 m x"] Cons.prems(1,3) run2 f2 doc h obtain hs s' x' where
      "out = Done ()" "h\<^sub>2 = concat hs" "length hs = length ds"
      "life_run n (msg_Content m) (msg_To m) body (life_of (message_in s\<^sub>1 m x) (life_processed s\<^sub>1)) hs s'"
      "docs w' i = Some (message_in s' m x')" "x' \<in> insert x (update_times i h\<^sub>2)"
      "in_inbox kv w' (qm_ID q) = life_processed s'"
      by (auto simp: run_iff inbox simp del: message_in_fields(8))
    then show ?thesis
      using step h x update_times_append [of i h\<^sub>1 h\<^sub>2] unfolding life_of_again
      by (intro conjI exI [of _ "h\<^sub>1 # hs"] exI [of _ s'] exI [of _ x']) auto
  qed
qed

section \<open>Runs of the machine\<close>

lemma count_publishes:
  assumes "filter is_publish h = es" and "\<And>e. P e \<Longrightarrow> is_publish e"
  shows "count_events P h = count_events P es"
  using assms(2) by (simp add: assms(1) [symmetric]) (meson filter_cong)

lemma refused_step:
  assumes "life_step n c t b s h s'" and "\<not> life_processed s" and "life_retries s < n"
    and "\<forall>e\<in>set h. \<not> webhook_accepted c t e"
  shows "\<not> life_processed s' \<and> life_retries s' = life_retries s + 1 \<and>
    life_status s' = (if life_retries s' = n then StatusFailed else StatusProcessing) \<and>
    count_events is_publish h = 1 \<and>
    count_events (to_dlq b None) h = (if life_retries s' = n then 1 else 0) \<and>
    count_events (to_retry b None) h = (if life_retries s' = n then 0 else 1)"
  using assms
proof cases
  case (requeued e e')
  with count_publishes [OF requeued(6)] show ?thesis
    using to_queue_exclusive(1) [of b None e'] by (auto dest: to_queue_publish)
next
  case (given_up e e')
  with count_publishes [OF given_up(6)] show ?thesis
    using to_queue_exclusive(1) [of b None e'] by (auto dest: to_queue_publish)
qed (use assms in auto)

lemma refused_run:
  assumes "life_run n c t b s hs s'" and "\<not> life_processed s" and "life_retries s + int (length hs) \<le> n"
    and "\<forall>e\<in>set (concat hs). \<not> webhook_accepted c t e"
  shows "\<not> life_processed s' \<and> life_retries s' = life_retries s + int (length hs) \<and>
    (hs \<noteq> [] \<longrightarrow> life_status s' = (if life_retries s' = n then StatusFailed else StatusProcessing)) \<and>
    count_events is_publish (concat hs) = length hs \<and>
    count_events (to_dlq b None) (concat hs) = (if hs \<noteq> [] \<and> life_retries s' = n then 1 else 0) \<and>
    count_events (to_retry b None) (concat hs) = length hs - (if hs \<noteq> [] \<and> life_retries s' = n then 1 else 0)"
  using assms
proof (induction hs arbitrary: s)
  case (Cons h hs)
  then obtain s\<^sub>1 where step: "life_step n c t b s h s\<^sub>1" and rest: "life_run n c t b s\<^sub>1 hs s'" by auto
  from refused_step [OF step] Cons.prems have first: "\<not> life_processed s\<^sub>1" "life_retries s\<^sub>1 = life_retries s + 1"
    "life_status s\<^sub>1 = (if life_retries s\<^sub>1 = n then StatusFailed else StatusProcessing)"
    "count_events is_publish h = 1"
    "count_events (to_dlq b None) h = (if life_retries s\<^sub>1 = n then 1 else 0)"
    "count_events (to_retry b None) h = (if life_retries s\<^sub>1 = n then 0 else 1)" by auto
  note IH = Cons.IH [OF rest]
  show ?case
  proof (cases hs)
    case Nil
    with rest first show ?thesis by auto
  next
    case (Cons h' hs')
    then have "life_retries s\<^sub>1 \<noteq> n" using Cons.prems(3) first(2) by simp
    with Cons Cons.prems first IH show ?thesis by (auto simp: Suc_diff_le)
  qed
qed simp

section \<open>A message in the simulation\<close>

text \<open>\<open>k\<close> deliveries of the sample message, to a webhook that answers with the given statuses.\<close>

abbreviation sample_mq :: rabbitMQAdapter where
  "sample_mq \<equiv> \<lparr>has_conn = True, has_channel = True\<rparr>"

definition attempts :: "int \<Rightarrow> nat \<Rightarrow> int list \<Rightarrow> unit outcome \<times> history \<times> sim" where
  "attempts n k statuses =
     run sim_env (consume decimal_codec (production n ''http://webhook'' (30 * Second) sample_mq)
       (map Delivered (replicate k sample_delivery))) (sample_world statuses [])"

definition no_acceptance :: "history \<Rightarrow> bool" where
  "no_acceptance h \<longleftrightarrow> list_all (\<lambda>e. case e of HttpDone m u b (Inr status) \<Rightarrow> 400 \<le> status | _ \<Rightarrow> True) h"

lemma no_acceptanceD: "no_acceptance h \<Longrightarrow> \<forall>e\<in>set h. \<not> webhook_accepted c t e"
  by (auto simp: no_acceptance_def list_all_iff webhook_accepted_def)

lemma attempts_facts:
  "unmarshal_queue_message (Body sample_delivery) empty_queue_message = Inr sample_queue_message"
  "ObjectIDFromHex decimal_codec (qm_ID sample_queue_message) = Inr 7"
  "\<forall>d\<in>set (replicate k sample_delivery). Body d = Body sample_delivery"
  "run sim_env (consume decimal_codec (production n ''http://webhook'' (30 * Second) sample_mq)
     (map Delivered (replicate k sample_delivery))) (sample_world statuses []) =
     (fst (attempts n k statuses), fst (snd (attempts n k statuses)), snd (snd (attempts n k statuses)))"
  "sim_docs (sample_world statuses []) 7 = Some sample_message"
  "\<not> in_inbox sim_kv (sample_world statuses []) (qm_ID sample_queue_message)"
proof -
  show "unmarshal_queue_message (Body sample_delivery) empty_queue_message = Inr sample_queue_message"
    by code_simp
  show "ObjectIDFromHex decimal_codec (qm_ID sample_queue_message) = Inr 7" by code_simp
qed (simp_all add: attempts_def sample_world_def in_inbox_def)

section \<open>Properties\<close>






definition last_attempt_run :: "go_error option outcome \<times> history \<times> sim" where
  "last_attempt_run =
     run sim_env (processMessage decimal_codec (production 3 ''http://webhook'' (30 * Second) sample_mq)
       sample_delivery) (snd (snd (attempts 3 2 [500, 503, 200])))"


end
