(* ===== verification/Delivery.thy ===== *)
theory Delivery
  imports Life_Cycle Http_Api
begin

text \<open>
  Delivery in production: against any document store and any key-value store, a message that is
  delivered while nothing fails is sent; and a message that is unsent when a batch of the sender
  runs, and whose publish is then delivered, reaches the webhook, the inbox and the status sent.
\<close>

section \<open>The stores after a batch that went through\<close>

lemma published_updates_one:
  "published_trace L m es \<Longrightarrow> \<exists>t. updates_to i es =
     (if msg_ID m = i then [status_update StatusProcessing t] else [])"
  by (auto simp: published_trace_def to_main_def wrote_status_def updates_to_Cons)

lemma published_updates_other:
  assumes "list_all2 (published_trace L) ms ess" and "i \<notin> msg_ID ` set ms"
  shows "updates_to i (concat ess) = []"
  using assms
  by (induction rule: list_all2_induct) (auto simp: updates_to_append dest: published_updates_one [of _ _ _ i])

lemma published_updates:
  assumes "list_all2 (published_trace L) ms ess" and "distinct (map msg_ID ms)" and "m \<in> set ms"
  shows "\<exists>t. updates_to (msg_ID m) (concat ess) = [status_update StatusProcessing t]"
  using assms
proof (induction rule: list_all2_induct)
  case (Cons m' ms es ess)
  show ?case
  proof (cases "m = m'")
    case True
    with Cons have "updates_to (msg_ID m) (concat ess) = []"
      by (intro published_updates_other) auto
    with True published_updates_one [OF Cons(1), of "msg_ID m"] show ?thesis
      by (auto simp: updates_to_append)
  next
    case False
    with Cons.prems have "msg_ID m' \<noteq> msg_ID m" by force
    with False Cons published_updates_one [OF Cons(1), of "msg_ID m"] show ?thesis
      by (auto simp: updates_to_append)
  qed
qed simp

lemma published_to_main:
  assumes "list_all2 (published_trace L) ms ess" and "m \<in> set ms"
  shows "\<exists>e\<in>set (concat ess). to_main (marshal_queue_message (queue_message_of L m)) None e"
  using assms by (induction rule: list_all2_induct) (auto simp: published_trace_def)

section \<open>In production\<close>

lemma published_when_steady:
  assumes docs: "document_store E docs"
    and run: "run E (processUnsentMessages L (sender_production mq)) w = (out, h, w')"
    and ok: "steady h" and fetched: "FetchedAll (unsent_query 2) (Inr ms) \<in> set h" and "m \<in> set ms"
  shows "out = Done None \<and> docs w (msg_ID m) = Some m \<and>
    (\<exists>e\<in>set h. to_main (marshal_queue_message (queue_message_of L m)) None e) \<and>
    (\<exists>t. updates_to (msg_ID m) h = [status_update StatusProcessing t] \<and>
       docs w' (msg_ID m) = Some (m\<lparr>msg_Status := StatusProcessing, msg_UpdatedAt := t\<rparr>))"
proof -
  from run have ends: "ends (processUnsentMessages L (sender_production mq)) h out"
    and follows: "follows E w h w'" by (simp_all add: run_iff)
  from sender.steady_batch [OF ends ok] obtain ms' ess where out: "out = Done None"
    and each: "list_all2 (published_trace L) ms' ess"
    and tr: "trace h = FetchedAll (unsent_query 2) (Inr ms') # concat ess"
    by (auto simp: NewMessageSender_def)
  have "FetchedAll (unsent_query 2) (Inr ms) \<notin> set (concat ess)"
    using each by (induction rule: list_all2_induct)
      (auto simp: published_trace_def to_main_def wrote_status_def)
  moreover have "FetchedAll (unsent_query 2) (Inr ms) \<in> set (trace h)" using fetched by simp
  ultimately have ms: "ms' = ms" unfolding tr by simp
  from tr [unfolded ms] obtain us vs where h: "h = us @ FetchedAll (unsent_query 2) (Inr ms) # vs"
    and us: "trace us = []" and "trace vs = concat ess"
    by (metis append_Nil filter_split)
  from follows h obtain w\<^sub>1 w\<^sub>2 where e: "answers E w\<^sub>1 (FetchedAll (unsent_query 2) (Inr ms)) w\<^sub>2"
    and before: "follows E w us w\<^sub>1" and vs: "follows E w\<^sub>2 vs w'" by (auto simp: follows_append)
  from docs [unfolded document_store_def, rule_format, OF e] \<open>m \<in> set ms\<close>
  have "docs w\<^sub>1 (msg_ID m) = Some m" "docs w\<^sub>2 (msg_ID m) = Some m"
    and distinct: "distinct (map msg_ID ms)" by auto
  have "\<forall>e\<in>set us. \<not> writes e" by (rule quiet_trace) (simp only: us list.set ball_simps)
  with quiet_docs [OF docs before] ok h \<open>docs w\<^sub>1 (msg_ID m) = Some m\<close>
  have stored: "docs w (msg_ID m) = Some m" by simp
  from published_updates [OF each [unfolded ms] distinct \<open>m \<in> set ms\<close>] obtain t where
    t: "updates_to (msg_ID m) (concat ess) = [status_update StatusProcessing t]" ..
  have "updates_to (msg_ID m) vs = [status_update StatusProcessing t]"
    using t \<open>trace vs = concat ess\<close> by (metis updates_to_trace)
  with steady_docs [OF docs vs _ \<open>docs w\<^sub>2 (msg_ID m) = Some m\<close>] ok h
  have "docs w' (msg_ID m) = Some (m\<lparr>msg_Status := StatusProcessing, msg_UpdatedAt := t\<rparr>)"
    by (simp add: apply_update_def status_update_def)
  moreover have "updates_to (msg_ID m) h = [status_update StatusProcessing t]"
    using t tr updates_to_trace [of "msg_ID m" h] by (simp add: updates_to_Cons)
  moreover have "\<exists>e\<in>set h. to_main (marshal_queue_message (queue_message_of L m)) None e"
  proof -
    from published_to_main [OF each [unfolded ms] \<open>m \<in> set ms\<close>] obtain e where
      e: "e \<in> set (trace h)" "to_main (marshal_queue_message (queue_message_of L m)) None e"
      unfolding tr by auto
    then show ?thesis by auto
  qed
  ultimately show ?thesis using out stored by blast
qed

lemma accepted_stores:
  assumes docs: "document_store E docs"
    and run: "run E (sender_api L mq (PostMessages (Inr req))) w = (Done (Answer 200 b), h, w')"
    and new: "docs w i = None" and stored: "docs w' i = Some m"
  shows "msg_ID m = i \<and> msg_Content m = req_Content req \<and> msg_To m = req_To req \<and>
    msg_Status m = StatusUnsent \<and> msg_RetryCount m = 0"
proof -
  from run obtain t\<^sub>1 t\<^sub>2 where "follows E w [Allowed True, Clock t\<^sub>1, Clock t\<^sub>2,
      Did (MongoInsertOne (new_message (req_Content req) (req_To req) t\<^sub>1 t\<^sub>2)) None] w'"
    by (auto simp: run_iff sender_api_def ends_RateLimit sender_route_def ends_SendMessage)
  then obtain w\<^sub>1 w\<^sub>2 w\<^sub>3 where e\<^sub>1: "answers E w (Allowed True) w\<^sub>1" and e\<^sub>2: "answers E w\<^sub>1 (Clock t\<^sub>1) w\<^sub>2"
    and e\<^sub>3: "answers E w\<^sub>2 (Clock t\<^sub>2) w\<^sub>3"
    and e\<^sub>4: "answers E w\<^sub>3 (Did (MongoInsertOne (new_message (req_Content req) (req_To req) t\<^sub>1 t\<^sub>2)) None) w'"
    unfolding follows.simps by blast
  note law = docs [unfolded document_store_def, rule_format]
  have "docs w\<^sub>3 = docs w" using law [OF e\<^sub>1] law [OF e\<^sub>2] law [OF e\<^sub>3] by simp
  with law [OF e\<^sub>4] new stored show ?thesis by (auto simp: new_message_def split: if_splits)
qed

section \<open>Properties\<close>

text \<open>
  C3: from the request to the webhook. A request is accepted; later a batch in which no call fails
  gets the new document among the unsent ones; what it publishes is delivered to the processor
  within four minutes, and no call fails there either. Then the webhook accepted the content and
  the recipient of the request, the delivery is done without an error, the inbox has the message
  and the document's status is sent. This in any environment whose document store and key-value
  store do what they document, for texts that are valid UTF-8.
\<close>

theorem accepted_request_reaches_webhook:
  assumes "document_store E docs" and "key_value_store E kv" and "oid_codec_ok L"
    and "run E (sender_api L mq (PostMessages (Inr req))) w\<^sub>0 = (Done (Answer 200 b), h\<^sub>0, w\<^sub>1)"
    and "run E (processUnsentMessages L (sender_production mq)) w\<^sub>1 = (out\<^sub>1, h\<^sub>1, w\<^sub>2)" and "healthy h\<^sub>1"
    and "FetchedAll (unsent_query 2) (Inr ms) \<in> set h\<^sub>1" and "m \<in> set ms" and "docs w\<^sub>0 (msg_ID m) = None"
    and "Body d = marshal_queue_message (queue_message_of L m)"
    and "run E (processMessage L (production n url timeout mq') d) w\<^sub>2 = (out\<^sub>2, h\<^sub>2, w\<^sub>3)" and "healthy h\<^sub>2"
    and "\<not> in_inbox kv w\<^sub>2 (Hex L (msg_ID m))" and "0 < n"
    and "\<forall>u\<in>set (updates_to (msg_ID m) h\<^sub>1). \<forall>t\<in>set (clock_readings h\<^sub>2).
      case set_updated_at u of None \<Rightarrow> True | Some t\<^sub>0 \<Rightarrow> time_sub t t\<^sub>0 \<le> 4 * Minute"
    and "valid_utf8 (Hex L (msg_ID m))" and "valid_utf8 (req_Content req)" and "valid_utf8 (req_To req)"
  shows "(\<exists>e\<in>set h\<^sub>1. to_main (Body d) None e) \<and>
    (\<exists>e\<in>set h\<^sub>2. webhook_accepted (req_Content req) (req_To req) e) \<and> out\<^sub>2 = Done None \<and>
    in_inbox kv w\<^sub>3 (Hex L (msg_ID m)) \<and>
    map_option msg_Status (docs w\<^sub>3 (msg_ID m)) = Some StatusSent"
proof -
  from published_when_steady [OF assms(1,5) healthy_steady [OF assms(6)] assms(7,8)] obtain t where
    published: "\<exists>e\<in>set h\<^sub>1. to_main (Body d) None e" and stored: "docs w\<^sub>1 (msg_ID m) = Some m"
    and upd: "updates_to (msg_ID m) h\<^sub>1 = [status_update StatusProcessing t]"
    and doc: "docs w\<^sub>2 (msg_ID m) = Some (m\<lparr>msg_Status := StatusProcessing, msg_UpdatedAt := t\<rparr>)"
    unfolding assms(10) by blast
  from accepted_stores [OF assms(1,4,9) stored]
  have m: "msg_Content m = req_Content req" "msg_To m = req_To req" "msg_RetryCount m = 0" by simp_all
  let ?q = "queue_message_of L m" and ?m = "m\<lparr>msg_Status := StatusProcessing, msg_UpdatedAt := t\<rparr>"
  have body: "unmarshal_queue_message (Body d) empty_queue_message = Inr ?q"
    unfolding assms(10)
    by (rule queue_message_round_trip)
      (use assms(16-18) m in \<open>simp_all add: queue_message_of_def in_int64_def int64_min_def int64_max_def\<close>)
  have id: "ObjectIDFromHex L (qm_ID ?q) = Inr (msg_ID m)"
    using assms(3) by (simp add: queue_message_of_def oid_codec_ok_def)
  have new: "\<not> in_inbox kv w\<^sub>2 (qm_ID ?q)" using assms(13) by (simp add: queue_message_of_def)
  have retries: "msg_RetryCount ?m < n" using assms(14) m(3) by simp
  have fresh: "\<forall>t'\<in>set (clock_readings h\<^sub>2). time_sub t' (msg_UpdatedAt ?m) \<le> 4 * Minute"
    using assms(15) by (simp add: upd status_update_def)
  from sent_when_healthy [OF assms(1,2,11,12) body id doc new retries fresh]
  show ?thesis using published m by (auto simp: queue_message_of_def)
qed

definition empty_world :: sim where
  "empty_world =
     \<lparr>sim_docs = Map.empty, sim_ids = [0], sim_kv = Map.empty, sim_clock = Minute,
      sim_webhook = [200], sim_down = []\<rparr>"

definition sample_request :: send_message_request where
  "sample_request = \<lparr>req_To = ''+905551111111'', req_Content = ''hello''\<rparr>"

definition created_message :: message where
  "created_message = new_message ''hello'' ''+905551111111'' Minute Minute"

definition sample_accepted :: "api_body http_answer outcome \<times> history \<times> sim" where
  "sample_accepted =
     run sim_env (sender_api decimal_codec \<lparr>has_conn = True, has_channel = True\<rparr>
       (PostMessages (Inr sample_request))) empty_world"

definition sample_batch :: "go_error option outcome \<times> history \<times> sim" where
  "sample_batch =
     run sim_env (processUnsentMessages decimal_codec
       (sender_production \<lparr>has_conn = True, has_channel = True\<rparr>)) (snd (snd sample_accepted))"

definition created_delivery :: delivery where
  "created_delivery =
     \<lparr>DeliveryTag = 1, Headers = None, ContentType = ''application/json'',
      Body = marshal_queue_message (queue_message_of decimal_codec created_message)\<rparr>"

definition sample_delivered :: "go_error option outcome \<times> history \<times> sim" where
  "sample_delivered =
     run sim_env (processMessage decimal_codec
       (production 5 ''http://webhook'' (30 * Second) \<lparr>has_conn = True, has_channel = True\<rparr>)
       created_delivery) (snd (snd sample_batch))"

theorem accepted_request_reaches_webhook_witness:
  "(\<exists>e\<in>set (fst (snd sample_delivered)). webhook_accepted ''hello'' ''+905551111111'' e) \<and>
   fst sample_delivered = Done None \<and>
   map_option msg_Status (sim_docs (snd (snd sample_delivered)) 0) = Some StatusSent"
proof -
  have "case fst sample_accepted of Done (Answer c (SendMessageResponse s i)) \<Rightarrow>
      c = 200 \<and> s = ''Accepted'' \<and> i = ''0'' | _ \<Rightarrow> False"
    by code_simp
  then have accepted: "fst sample_accepted = Done (Answer 200 (SendMessageResponse ''Accepted'' ''0''))"
    by (auto split: outcome.splits http_answer.splits api_body.splits)
  have h1: "healthy (fst (snd sample_batch))" by code_simp
  have fetched: "FetchedAll (unsent_query 2) (Inr [created_message]) \<in> set (fst (snd sample_batch))"
    by code_simp
  have h2: "healthy (fst (snd sample_delivered))" by code_simp
  have "sim_kv (snd (snd sample_batch)) (inbox_key ''0'') = None" by code_simp
  then have new: "\<not> in_inbox sim_kv (snd (snd sample_batch)) ''0''" by (simp add: in_inbox_def)
  have fresh: "\<forall>u\<in>set (updates_to 0 (fst (snd sample_batch))).
      \<forall>t\<in>set (clock_readings (fst (snd sample_delivered))).
      case set_updated_at u of None \<Rightarrow> True | Some t\<^sub>0 \<Rightarrow> time_sub t t\<^sub>0 \<le> 4 * Minute"
    by code_simp
  have id: "msg_ID created_message = 0" "Hex decimal_codec 0 = ''0''" by code_simp+
  have utf8: "valid_utf8 ''0''" "valid_utf8 (req_Content sample_request)" "valid_utf8 (req_To sample_request)"
    by code_simp+
  let ?mq = "\<lparr>has_conn = True, has_channel = True\<rparr>"
  have runs: "run sim_env (sender_api decimal_codec ?mq (PostMessages (Inr sample_request))) empty_world =
        (Done (Answer 200 (SendMessageResponse ''Accepted'' ''0'')), fst (snd sample_accepted), snd (snd sample_accepted))"
      "run sim_env (processUnsentMessages decimal_codec (sender_production ?mq)) (snd (snd sample_accepted)) =
        (fst sample_batch, fst (snd sample_batch), snd (snd sample_batch))"
      "run sim_env (processMessage decimal_codec (production 5 ''http://webhook'' (30 * Second) ?mq) created_delivery)
        (snd (snd sample_batch)) =
        (fst sample_delivered, fst (snd sample_delivered), snd (snd sample_delivered))"
    unfolding accepted [symmetric] by (simp_all add: sample_accepted_def sample_batch_def sample_delivered_def)
  from accepted_request_reaches_webhook [OF sim_document_store sim_key_value_store decimal_codec_ok
      runs(1,2) h1 fetched, of created_message created_delivery, unfolded id, OF _ _ _ runs(3) h2 new _ fresh utf8]
  show ?thesis
    by (simp add: empty_world_def created_delivery_def sample_request_def)
qed

text \<open>
  C18: an error has a cause. A delivery of a message that is to be delivered (its body and its id
  are well formed, its document is there with retries left and recent enough, the inbox does not
  have it) ends without an error unless a call whose error is looked at failed, the limiter
  or a breaker refused one, or the webhook answered from 400 on.
\<close>

theorem delivery_errors_have_a_cause:
  assumes "document_store E docs" and "key_value_store E kv"
    and "run E (processMessage L (production n url timeout mq) d) w = (out, h, w')"
    and "unmarshal_queue_message (Body d) empty_queue_message = Inr q"
    and "ObjectIDFromHex L (qm_ID q) = Inr i" and "docs w i = Some m" and "\<not> in_inbox kv w (qm_ID q)"
    and "msg_RetryCount m < n"
    and "\<forall>t\<in>set (clock_readings h). time_sub t (msg_UpdatedAt m) \<le> 4 * Minute"
    and "out \<noteq> Done None"
  shows "\<exists>e\<in>set h. failed e"
proof (rule ccontr)
  assume "\<not> (\<exists>e\<in>set h. failed e)"
  then have "healthy h" by (simp add: healthy_def list_all_iff)
  from sent_when_healthy [OF assms(1-3) this assms(4-9)] assms(10) show False by simp
qed

definition sample_refused :: "go_error option outcome \<times> history \<times> sim" where
  "sample_refused =
     run sim_env (processMessage decimal_codec sample_service sample_delivery) (sample_world [500] [])"

theorem delivery_errors_have_a_cause_witness:
  "\<exists>e\<in>set (fst (snd sample_refused)). failed e"
proof -
  have run: "run sim_env (processMessage decimal_codec (production 5 ''http://webhook'' (30 * Second)
      \<lparr>has_conn = True, has_channel = True\<rparr>) sample_delivery) (sample_world [500] []) =
      (fst sample_refused, fst (snd sample_refused), snd (snd sample_refused))"
    by (simp add: sample_refused_def sample_service_def)
  have body: "unmarshal_queue_message (Body sample_delivery) empty_queue_message = Inr sample_queue_message"
    by code_simp
  have id: "ObjectIDFromHex decimal_codec (qm_ID sample_queue_message) = Inr 7" by code_simp
  have doc: "sim_docs (sample_world [500] []) 7 = Some sample_message" by (simp add: sample_world_def)
  have new: "\<not> in_inbox sim_kv (sample_world [500] []) (qm_ID sample_queue_message)"
    by (simp add: in_inbox_def sample_world_def)
  have retries: "msg_RetryCount sample_message < 5" by (simp add: sample_message_def)
  have fresh: "\<forall>t\<in>set (clock_readings (fst (snd sample_refused))). time_sub t (msg_UpdatedAt sample_message) \<le> 4 * Minute"
    by code_simp
  have "case fst sample_refused of Done (Some err) \<Rightarrow> True | _ \<Rightarrow> False" by code_simp
  then have "fst sample_refused \<noteq> Done None" by auto
  from delivery_errors_have_a_cause [OF sim_document_store sim_key_value_store run body id doc new retries fresh this]
  show ?thesis .
qed

end
