(* ===== verification/Concurrency.thy ===== *)
theory Concurrency
  imports Interleaving Delivery
begin

text \<open>
  The whole system: any number of goroutines of both services (consumers, monitors of stale
  messages, schedulers, HTTP requests), each stopped at any point, interleaved call by call.
\<close>

section \<open>The goroutines\<close>

datatype goroutine =
    Consumer string duration rabbitMQAdapter "received list"
  | Monitor string duration rabbitMQAdapter "tick list"
  | SchedulerRun rabbitMQAdapter "scheduler_input list"
  | SenderRequest rabbitMQAdapter api_request
  | ProcessorRequest rabbitMQAdapter

primrec goroutine_prog :: "oid_codec \<Rightarrow> int \<Rightarrow> goroutine \<Rightarrow> unit prog" where
  "goroutine_prog L n (Consumer url timeout mq rs) = consume L (production n url timeout mq) rs"
| "goroutine_prog L n (Monitor url timeout mq ts) = monitorStaleMessages L (production n url timeout mq) ts"
| "goroutine_prog L n (SchedulerRun mq xs) = scheduler_run L (sender_production mq) xs"
| "goroutine_prog L n (SenderRequest mq req) = bind (sender_api L mq req) (\<lambda>_. Return ())"
| "goroutine_prog L n (ProcessorRequest mq) = bind (ProcessorGetStatus (processor_health mq)) (\<lambda>_. Return ())"

primrec is_consumer :: "goroutine \<Rightarrow> bool" where
  "is_consumer (Consumer url timeout mq rs) \<longleftrightarrow> True"
| "is_consumer (Monitor url timeout mq ts) \<longleftrightarrow> False"
| "is_consumer (SchedulerRun mq xs) \<longleftrightarrow> False"
| "is_consumer (SenderRequest mq req) \<longleftrightarrow> False"
| "is_consumer (ProcessorRequest mq) \<longleftrightarrow> False"

text \<open>What a list of goroutines, each stopped somewhere, did in some interleaving.\<close>

definition system_history :: "oid_codec \<Rightarrow> int \<Rightarrow> goroutine list \<Rightarrow> history \<Rightarrow> bool" where
  "system_history L n gs h \<longleftrightarrow>
     (\<exists>hs. list_all2 (\<lambda>g x. \<exists>rest. replay (goroutine_prog L n g) x = Some rest) gs hs \<and> merges hs h)"

section \<open>The scheduler\<close>

text \<open>
  What only a consumer does, and only in a delivery: post to the webhook, mark a message, set a
  status to sent, put a message into the retry queue. The sender, and the other goroutines, do
  none of it.
\<close>

definition delivering :: "event \<Rightarrow> bool" where
  "delivering e \<longleftrightarrow>
     (\<exists>c t. webhook_posted c t e) \<or> (\<exists>k r. marked k r e) \<or>
     (\<exists>j r. wrote_status j StatusSent r e) \<or> (\<exists>body r. to_retry body r e)"

definition sender_event :: "event \<Rightarrow> bool" where
  "sender_event e \<longleftrightarrow> \<not> delivering e \<and> benign e"

lemmas delivering_defs = delivering_def webhook_posted_def marked_def wrote_status_def to_retry_def

lemmas sender_event_defs = sender_event_def delivering_defs benign_defs

lemma not_delivering:
  "\<not> delivering e \<Longrightarrow> \<not> webhook_posted c t e" "\<not> delivering e \<Longrightarrow> \<not> marked k r e"
  "\<not> delivering e \<Longrightarrow> \<not> wrote_status j StatusSent r e" "\<not> delivering e \<Longrightarrow> \<not> to_retry body r e"
  "\<not> delivering e \<Longrightarrow> \<not> requeue_of L i e"
  by (auto simp: delivering_def requeue_of_def)

lemma lookups_not_delivering [simp]: "\<not> delivering (GotKey k v)" "\<not> delivering (FoundOne i a)"
  by (simp_all add: delivering_defs)

lemma delivering_observed: "delivering e \<Longrightarrow> observed e"
  by (auto simp: delivering_def to_retry_def webhook_posted_def dest: wrote_observed marked_observed)

text \<open>A delivery that gets to the webhook looked the message up before, in the inbox and in the repository.\<close>

lemma process_parts:
  assumes "process_spec L p d H es out"
  obtains (quiet) "\<forall>e\<in>set es. \<not> delivering e"
  | (delivered) es\<^sub>1 q reply i m es\<^sub>2 out' where
      "es = es\<^sub>1 @ GotKey (inbox_key (qm_ID q)) reply # FoundOne i (Found m) # es\<^sub>2"
      "\<forall>e\<in>set es\<^sub>1. \<not> delivering e" "\<forall>k v. \<forall>e\<in>set es\<^sub>1. e \<noteq> GotKey k v"
      "inbox_answer reply = Inr False" "ObjectIDFromHex L (qm_ID q) = Inr i"
      "unmarshal_queue_message (Body d) empty_queue_message = Inr q"
      "delivery_spec (maxRetries p) (qm_ID q) i m (Body d) es\<^sub>2 out'"
proof -
  from assms obtain es\<^sub>1 es\<^sub>2 out' where es: "es = es\<^sub>1 @ es\<^sub>2" and ack: "ack_spec d es\<^sub>1"
    and spec: "handler_spec L p d empty_queue_message H es\<^sub>2 out'"
    unfolding process_spec_def by blast
  have quiet: "\<forall>e\<in>set es\<^sub>1. \<not> delivering e" "\<forall>k v. \<forall>e\<in>set es\<^sub>1. e \<noteq> GotKey k v"
    using ack by (auto simp: ack_spec_def delivering_defs split: if_splits)
  from spec show thesis
  proof cases
    case (processed q reply i m t es\<^sub>3)
    show thesis by (rule delivered [of es\<^sub>1 q reply i m es\<^sub>3 out']) (use processed quiet es in simp_all)
  qed (use quiet es that(1) in \<open>auto simp: delivering_defs attempt_def to_dlq_def queue_names status_update_def\<close>)
qed

lemma sender_event_simps [simp]:
  "sender_event (FetchedAll q r)" "sender_event (Clock t)" "sender_event (Allowed ok)"
  "sender_event (Inspected n c)" "sender_event (GotKey k v)" "sender_event (HttpDone ''GET'' m b a)"
  "sender_event (Did (HttpNewRequest u m b) r')"
  "sender_event (Did HttpCloseBody r')" "sender_event (Did SchedulerStart r')"
  "sender_event (Did SchedulerStop r')"
  by (simp_all add: sender_event_defs)

lemma unobserved_sender_event: "\<not> observed e \<Longrightarrow> sender_event e"
  using unobserved_benign delivering_observed by (auto simp: sender_event_def)

lemma publish_events: "publish_spec L m es \<Longrightarrow> e \<in> set es \<Longrightarrow> sender_event e"
  by (auto simp: publish_spec_def attempt_def to_main_def status_update_def queue_names sender_event_defs)

lemma batch_events:
  assumes "batch_spec L n es out" and "e \<in> set es"
  shows "sender_event e"
  using assms
proof cases
  case (published ms ess)
  have "list_all (list_all sender_event) ess"
    using published(3) by (induction rule: list_all2_induct) (auto simp: list_all_iff publish_events)
  with published(1) assms(2) show ?thesis by (auto simp: list_all_iff)
qed auto

lemma scheduler_events:
  assumes "ends (scheduler_run L (sender_production mq) xs) h out" and "e \<in> set h"
  shows "sender_event e"
  using assms
proof (induction xs arbitrary: h)
  case (Cons x xs)
  show ?case
  proof (cases x)
    case TickerTick
    with Cons.prems(1) obtain h\<^sub>1 h\<^sub>2 r\<^sub>1 where h: "h = h\<^sub>1 @ h\<^sub>2"
      and batch: "ends (processUnsentMessages L (sender_production mq)) h\<^sub>1 (Done r\<^sub>1)"
      and rest: "ends (scheduler_run L (sender_production mq) xs) h\<^sub>2 out"
      by (auto simp: ends_bind_no_halt [OF sender.batch_returns])
    have "sender_event e" if "e \<in> set h\<^sub>1"
      using that batch_events [OF sender.batch_refines [OF batch], of e] unobserved_sender_event [of e]
      by auto
    with Cons.IH [OF rest] Cons.prems(2) h show ?thesis by auto
  qed (use Cons.prems in \<open>auto simp: replay_simps\<close>)
qed (auto simp: replay_simps)

section \<open>The other goroutines that are not consumers\<close>

lemma monitor_histories:
  assumes "ends (monitorStaleMessages L (production n url timeout mq) ts) h out" and "P []"
    and "\<And>x r. ends (checkStaleMessages L (production n url timeout mq)) x (Done r) \<Longrightarrow> P x"
    and "\<And>x y. P x \<Longrightarrow> P y \<Longrightarrow> P (x @ y)"
  shows "P h"
  using assms(1)
proof (induction ts arbitrary: h)
  case (Cons t ts)
  show ?case
  proof (cases t)
    case Tick
    let ?check = "checkStaleMessages L (production n url timeout mq)"
    have "no_halt ?check"
      using production.stale_check_refines by (fastforce simp: no_halt_def)
    with Tick Cons.prems obtain h\<^sub>1 h\<^sub>2 r where h: "h = h\<^sub>1 @ h\<^sub>2" and "ends ?check h\<^sub>1 (Done r)"
      and rest: "ends (monitorStaleMessages L (production n url timeout mq) ts) h\<^sub>2 out"
      by (auto simp: ends_bind_no_halt)
    with assms(3,4) Cons.IH [OF rest] show ?thesis by blast
  qed (use Cons.prems assms(2) in \<open>auto simp: replay_simps\<close>)
qed (use assms(2) in \<open>auto simp: replay_simps\<close>)

lemma recovery_events:
  assumes "recovery_spec L m es" and "e \<in> set es"
  shows "(\<exists>b r. to_dlq b r e) \<or> (\<exists>i r. wrote_status i StatusFailed r e)"
proof -
  from assms(1) obtain e' es\<^sub>1 b r where es: "es = e' # es\<^sub>1" and dlq: "to_dlq b r e'"
    and rest: "es\<^sub>1 = [] \<or> (\<exists>ok. attempt (wrote_status (msg_ID m) StatusFailed) es\<^sub>1 ok)"
    unfolding recovery_spec_def by blast
  show ?thesis
  proof (cases "e = e'")
    case True
    with dlq show ?thesis by blast
  next
    case False
    with es assms(2) rest attempt_elements show ?thesis by fastforce
  qed
qed

definition monitor_event :: "event \<Rightarrow> bool" where
  "monitor_event e \<longleftrightarrow>
     (\<exists>q r. e = FetchedAll q r) \<or> (\<exists>b r. to_dlq b r e) \<or> (\<exists>i r. wrote_status i StatusFailed r e)"

lemma monitor_trace_events:
  assumes "ends (monitorStaleMessages L (production n url timeout mq) ts) h out"
  shows "\<forall>e\<in>set (trace h). monitor_event e"
proof -
  have one: "list_all monitor_event es" if "recovery_spec L m es" for m es
    using recovery_events [OF that] by (simp add: list_all_iff monitor_event_def)
  have recovered: "list_all (list_all monitor_event) ess" if "list_all2 (recovery_spec L) ms ess" for ms ess
    using that by (induction rule: list_all2_induct) (simp_all add: one)
  have fetched: "monitor_event (FetchedAll q r)" for q r by (simp add: monitor_event_def)
  from assms show ?thesis
  proof (rule monitor_histories)
    fix x r assume "ends (checkStaleMessages L (production n url timeout mq)) x (Done r)"
    from production.stale_check_refines [OF this] recovered fetched show "\<forall>e\<in>set (trace x). monitor_event e"
      by (fastforce simp: list_all_iff)
  qed (simp_all add: ball_Un del: set_filter)
qed

lemma monitor_events:
  assumes "ends (monitorStaleMessages L (production n url timeout mq) ts) h out" and "e \<in> set h"
  shows "sender_event e"
proof (cases "observed e")
  case True
  with assms(2) have "e \<in> set (trace h)" by simp
  with monitor_trace_events [OF assms(1)] show ?thesis
    by (auto simp: monitor_event_def to_dlq_def status_update_def queue_names sender_event_defs)
qed (rule unobserved_sender_event)

definition emits :: "'a prog \<Rightarrow> (event \<Rightarrow> bool) \<Rightarrow> bool" where
  "emits p S \<longleftrightarrow> (\<forall>h out. ends p h out \<longrightarrow> (\<forall>e\<in>set h. S e))"

lemma emits_Return [simp]: "emits (Return x) S" "emits (Halt y) S"
  by (simp_all add: emits_def replay_simps)

lemma emits_bind: "emits p S \<Longrightarrow> (\<And>x. emits (f x) S) \<Longrightarrow> emits (bind p f) S"
  unfolding emits_def replay_simps by fastforce

lemma emits_calls:
  "(\<And>r. S (Did e r)) \<Longrightarrow> (\<And>r. emits (k1 r) S) \<Longrightarrow> emits (Do e k1) S"
  "(\<And>t. S (Clock t)) \<Longrightarrow> (\<And>t. emits (k2 t) S) \<Longrightarrow> emits (Now k2) S"
  "(\<And>r. S (HttpDone m u b r)) \<Longrightarrow> (\<And>r. emits (k3 r) S) \<Longrightarrow> emits (HttpDo m u b k3) S"
  "(\<And>ok. S (Allowed ok)) \<Longrightarrow> (\<And>ok. emits (k4 ok) S) \<Longrightarrow> emits (LimiterAllow k4) S"
  unfolding emits_def replay_simps by fastforce+

lemma emits_mono: "emits p S \<Longrightarrow> (\<And>e. S e \<Longrightarrow> S' e) \<Longrightarrow> emits p S'"
  unfolding emits_def by blast

text \<open>The requests, of both services, publish nothing.\<close>

definition plain_event :: "event \<Rightarrow> bool" where
  "plain_event e \<longleftrightarrow> sender_event e \<and> \<not> is_publish e"

lemma plain_event_simps [simp]:
  "plain_event (FetchedAll q r)" "plain_event (Clock t)" "plain_event (Allowed ok)"
  "plain_event (Inspected n c)" "plain_event (GotKey k v)" "plain_event (HttpDone ''GET'' m b a)"
  "plain_event (Did (HttpNewRequest u m b) r')"
  "plain_event (Did HttpCloseBody r')" "plain_event (Did SchedulerStart r')"
  "plain_event (Did SchedulerStop r')"
  by (simp_all add: plain_event_def is_publish_def)

lemma unobserved_plain_event: "\<not> observed e \<Longrightarrow> plain_event e"
  using unobserved_sender_event is_publish_observed by (auto simp: plain_event_def)

lemma emits_lookups:
  "emits (ListMessages mongoMessageRepository) plain_event"
  "emits (GetDLQMessageCount (rabbitMQ mq)) plain_event"
  "emits (IsProcessed redisIdempotencyService k) plain_event"
proof -
  have emits: "emits p plain_event"
    if "no_halt p" "\<And>h r. ends p h (Done r) \<Longrightarrow> \<forall>x\<in>set (trace h). plain_event x" for p :: "'b prog"
    unfolding emits_def
  proof (intro allI impI ballI)
    fix h out e assume "ends p h out" "e \<in> set h"
    moreover from this(1) that(1) obtain r where "out = Done r" by (cases out) (auto simp: no_halt_def)
    ultimately show "plain_event e"
      using that(2) [of h r] unobserved_plain_event [of e] by auto
  qed
  show "emits (ListMessages mongoMessageRepository) plain_event"
    by (rule emits [OF mongo.ListMessages_no_halt]; erule list_answered; simp del: set_filter)
  show "emits (GetDLQMessageCount (rabbitMQ mq)) plain_event"
    by (rule emits [OF rabbit.GetDLQMessageCount_no_halt]; erule dlq_answered; simp del: set_filter)
  show "emits (IsProcessed redisIdempotencyService k) plain_event"
    by (rule emits [OF redis.IsProcessed_no_halt]; erule inbox_answered; simp del: set_filter)
qed

lemmas emits_intros = emits_bind emits_calls emits_lookups

text \<open>What a request stores: a document of its content and recipient, unsent and with no retries.\<close>

definition inserted_for :: "goroutine \<Rightarrow> event \<Rightarrow> bool" where
  "inserted_for g e \<longleftrightarrow>
     (\<exists>mq req m r. g = SenderRequest mq (PostMessages (Inr req)) \<and> e = Did (MongoInsertOne m) r \<and>
        msg_Content m = req_Content req \<and> msg_To m = req_To req \<and>
        msg_Status m = StatusUnsent \<and> msg_RetryCount m = 0)"

abbreviation bystander_event :: "goroutine \<Rightarrow> event \<Rightarrow> bool" where
  "bystander_event g e \<equiv> sender_event e \<or> inserted_for g e"

lemma inserted_for_events: "inserted_for g e \<Longrightarrow> \<not> delivering e \<and> only_marks e \<and> advances e"
  by (auto simp: inserted_for_def delivering_defs benign_defs)

lemma bystander_events_only:
  assumes "bystander_event g e"
  shows "\<not> delivering e" "only_marks e" "advances e" "no_insert e \<or> inserted_for g e"
  using assms inserted_for_events [of g e] by (auto simp: sender_event_def benign_def)

lemma emits_health:
  "emits (SenderCheckHealth (sender_health mq)) plain_event"
  "emits (ProcessorCheckHealth (processor_health mq)) plain_event"
  unfolding SenderCheckHealth_def sender_health_def NewSenderHealthService_def
    ProcessorCheckHealth_def processor_health_def NewProcessorHealthService_def Let_def
  by (auto intro!: emits_intros split: option.splits sum.splits)

abbreviation request_event :: "goroutine \<Rightarrow> event \<Rightarrow> bool" where
  "request_event g e \<equiv> plain_event e \<or> inserted_for g e"

lemma emits_create:
  "emits (SenderCreateMessage (sender_production mq') (req_Content req) (req_To req))
     (request_event (SenderRequest mq (PostMessages (Inr req))))"
  unfolding SenderCreateMessage_def PrepareMessage_def sender_production_parts mongoMessageRepository_def
    message_repository.simps mongo_CreateMessage_def
  by (auto intro!: emits_bind emits_calls simp: inserted_for_def split: option.splits)

lemmas emits_bystander = emits_mono [OF emits_lookups(1)] emits_mono [OF emits_health(1)]

lemma emits_request: "emits (sender_api L mq req) (request_event (SenderRequest mq req))"
  unfolding sender_api_def RateLimit_def rl_Allow_def sender_route_def SendMessage_def ListMessagesHandler_def
    StartScheduler_def StopScheduler_def SenderGetStatus_def sender_message_service_def SenderListMessages_def
  by (auto intro!: emits_bind emits_calls emits_create emits_bystander
      split: api_request.splits sum.splits bind_error.splits option.splits)

lemma request_events:
  "emits (goroutine_prog L n (SenderRequest mq req)) (request_event (SenderRequest mq req))"
  "emits (goroutine_prog L n (ProcessorRequest mq)) plain_event"
  by (auto simp: ProcessorGetStatus_def intro!: emits_intros emits_request emits_health)

lemma bystander_events:
  assumes "\<not> is_consumer g"
  shows "emits (goroutine_prog L n g) (bystander_event g)"
proof (cases g)
  case (Monitor url timeout mq ts)
  then show ?thesis by (auto simp: emits_def dest: monitor_events)
next
  case (SchedulerRun mq xs)
  then show ?thesis by (auto simp: emits_def dest: scheduler_events)
next
  case (SenderRequest mq req)
  show ?thesis unfolding SenderRequest by (rule emits_mono [OF request_events(1)]) (auto simp: plain_event_def)
next
  case (ProcessorRequest mq)
  show ?thesis unfolding ProcessorRequest by (rule emits_mono [OF request_events(2)]) (simp add: plain_event_def)
qed (use assms in auto)

section \<open>What holds of every goroutine\<close>

text \<open>
  A property of histories that every delivery has and everything the other goroutines do, and that
  carries over to appended histories and to prefixes, holds of every goroutine, wherever it was
  stopped.
\<close>

lemma consumer_histories:
  assumes "ends (consume L (production n url timeout mq) rs) h out" and "P []"
    and "\<And>d x out. process_spec L (NewMessageProcessor n (4 * Minute)) d x (trace x) out \<Longrightarrow> P x"
    and "\<And>x y. P x \<Longrightarrow> P y \<Longrightarrow> P (x @ y)"
  shows "P h"
  using assms(1)
proof (induction rs arbitrary: h)
  case (Cons r rs)
  from Cons.prems show ?case
  proof (cases rule: production.consume_Cons)
    case (panic d y)
    from assms(3) production.process_refines [OF panic(2)] show ?thesis by simp
  next
    case (step d h\<^sub>1 h\<^sub>2 x)
    from assms(3) production.process_refines [OF step(3)] have "P h\<^sub>1" by simp
    with Cons.IH [OF step(4)] assms(4) show ?thesis unfolding step(2) by blast
  qed (use assms(2) in simp)
qed (use assms(2) in \<open>auto simp: replay_simps\<close>)

lemma goroutine_histories:
  assumes "replay (goroutine_prog L n g) h = Some rest"
    and process: "\<And>d x out. process_spec L (NewMessageProcessor n (4 * Minute)) d x (trace x) out \<Longrightarrow>
      is_consumer g \<Longrightarrow> P x"
    and others: "\<And>x. \<forall>e\<in>set x. bystander_event g e \<Longrightarrow> x = [] \<or> \<not> is_consumer g \<Longrightarrow> P x"
    and append: "\<And>x y. P x \<Longrightarrow> P y \<Longrightarrow> P (x @ y)" and prefix: "\<And>x y. P (x @ y) \<Longrightarrow> P x"
  shows "P h"
proof -
  from replay_extends [OF assms(1)] obtain h' out where run: "ends (goroutine_prog L n g) (h @ h') out"
    by blast
  have "P (h @ h')"
  proof (cases "is_consumer g")
    case True
    then obtain url timeout mq rs where "g = Consumer url timeout mq rs" by (cases g) auto
    with run have "ends (consume L (production n url timeout mq) rs) (h @ h') out" by simp
    then show ?thesis
      by (rule consumer_histories) (use others [of "[]"] process append True in simp_all)
  next
    case False
    with bystander_events [of g L n] run others show ?thesis unfolding emits_def by blast
  qed
  then show ?thesis by (rule prefix)
qed

lemma goroutine_advances:
  assumes "replay (goroutine_prog L n g) h = Some rest"
  shows "\<forall>e\<in>set h. only_marks e \<and> advances e \<and> (no_insert e \<or> inserted_for g e)"
  using assms
proof (rule goroutine_histories)
  fix d x out
  assume "process_spec L (NewMessageProcessor n (4 * Minute)) d x (trace x) out"
  from process_benign [OF this]
  show "\<forall>e\<in>set x. only_marks e \<and> advances e \<and> (no_insert e \<or> inserted_for g e)"
    by (auto simp: benign_def)
next
  fix x
  assume "\<forall>e\<in>set x. bystander_event g e"
  then show "\<forall>e\<in>set x. only_marks e \<and> advances e \<and> (no_insert e \<or> inserted_for g e)"
    using bystander_events_only(2-4) by metis
qed (simp_all add: ball_Un)

lemma system_goroutine:
  assumes "system_history L n gs h"
  obtains hs where "merges hs h" "length hs = length gs"
    "\<And>j. j < length gs \<Longrightarrow> \<exists>rest. replay (goroutine_prog L n (gs ! j)) (hs ! j) = Some rest"
  using assms unfolding system_history_def list_all2_conv_all_nth by auto

lemma system_events:
  assumes "system_history L n gs h" and "e \<in> set h"
  obtains g x rest where "g \<in> set gs" "replay (goroutine_prog L n g) x = Some rest" "e \<in> set x"
proof -
  from assms(1) obtain hs where hs: "merges hs h" "length hs = length gs"
    "\<And>j. j < length gs \<Longrightarrow> \<exists>rest. replay (goroutine_prog L n (gs ! j)) (hs ! j) = Some rest"
    by (rule system_goroutine) blast
  from assms(2) merges_set [OF hs(1)] obtain x where "x \<in> set hs" "e \<in> set x" by blast
  with hs(2) obtain j where "j < length gs" "e \<in> set (hs ! j)" by (metis in_set_conv_nth)
  with hs(3) that show ?thesis by (meson nth_mem)
qed

lemma system_justified:
  assumes "system_history L n gs h" and "upward Q"
    and "\<And>g x rest. g \<in> set gs \<Longrightarrow> replay (goroutine_prog L n g) x = Some rest \<Longrightarrow> justified P Q {} x"
  shows "justified P Q {} h"
proof -
  from assms(1) obtain hs where hs: "merges hs h" "length hs = length gs"
    "\<And>j. j < length gs \<Longrightarrow> \<exists>rest. replay (goroutine_prog L n (gs ! j)) (hs ! j) = Some rest"
    by (rule system_goroutine) blast
  have "justified P Q {} x" if "x \<in> set hs" for x
    using that hs(2,3) assms(3) by (metis in_set_conv_nth nth_mem)
  with justified_merges [OF hs(1) assms(2)] show ?thesis by blast
qed

lemma system_advances:
  "system_history L n gs h \<Longrightarrow> e \<in> set h \<Longrightarrow>
     only_marks e \<and> advances e \<and> (no_insert e \<or> (\<exists>g\<in>set gs. inserted_for g e))"
  using goroutine_advances by (blast elim: system_events)

end
