(* ===== verification/Sample_Systems.thy ===== *)
theory Sample_Systems
  imports Concurrency
begin

text \<open>
  Systems of a few goroutines in the in-memory environment: one after the other, and overlapping.
\<close>

section \<open>One after the other\<close>

lemma run_parts:
  "ends p (fst (snd (run E p w))) (fst (run E p w))"
  "follows E w (fst (snd (run E p w))) (snd (snd (run E p w)))"
  using run_iff [of E p w "fst (run E p w)" "fst (snd (run E p w))" "snd (snd (run E p w))"] by simp_all

primrec one_by_one :: "'w env \<Rightarrow> oid_codec \<Rightarrow> int \<Rightarrow> goroutine list \<Rightarrow> 'w \<Rightarrow> history \<times> 'w" where
  "one_by_one E L n [] w = ([], w)"
| "one_by_one E L n (g # gs) w =
     (let r = run E (goroutine_prog L n g) w; rest = one_by_one E L n gs (snd (snd r))
      in (fst (snd r) @ fst rest, snd rest))"

lemma one_by_one_system:
  "system_history L n gs (fst (one_by_one E L n gs w))"
proof (induction gs arbitrary: w)
  case Nil
  then show ?case by (simp add: system_history_def merges_Nil)
next
  case (Cons g gs)
  let ?r = "run E (goroutine_prog L n g) w"
  from Cons.IH [of "snd (snd ?r)"] obtain hs where
    "list_all2 (\<lambda>g x. \<exists>rest. replay (goroutine_prog L n g) x = Some rest) gs hs"
    "merges hs (fst (one_by_one E L n gs (snd (snd ?r))))"
    unfolding system_history_def by blast
  moreover have "\<exists>rest. replay (goroutine_prog L n g) (fst (snd ?r)) = Some rest"
    by (rule exI) (rule run_parts(1) [unfolded ends_def])
  ultimately show ?case
    unfolding system_history_def
    by (intro exI [of _ "fst (snd ?r) # hs"]) (simp add: Let_def merges_first)
qed

lemma one_by_one_follows:
  "follows E w (fst (one_by_one E L n gs w)) (snd (one_by_one E L n gs w))"
proof (induction gs arbitrary: w)
  case (Cons g gs)
  then show ?case
    using run_parts(2) [of E w "goroutine_prog L n g"] by (auto simp: Let_def follows_append)
qed simp

definition sample_consumer :: goroutine where
  "sample_consumer =
     Consumer ''http://webhook'' (30 * Second) \<lparr>has_conn = True, has_channel = True\<rparr> [Delivered sample_delivery]"

text \<open>Two consumers, in two processes, each with a delivery of the same message.\<close>

definition two_consumers :: "int list \<Rightarrow> history \<times> sim" where
  "two_consumers statuses =
     one_by_one sim_env decimal_codec 5 [sample_consumer, sample_consumer] (sample_world statuses [])"

lemma two_consumers_system:
  "system_history decimal_codec 5 [sample_consumer, sample_consumer] (fst (two_consumers statuses))"
  "follows sim_env (sample_world statuses []) (fst (two_consumers statuses)) (snd (two_consumers statuses))"
  unfolding two_consumers_def by (rule one_by_one_system, rule one_by_one_follows)

text \<open>A request, a batch and the delivery of what it published.\<close>

definition request_goroutines :: "goroutine list" where
  "request_goroutines =
     (let mq = \<lparr>has_conn = True, has_channel = True\<rparr>
      in [SenderRequest mq (PostMessages (Inr sample_request)), SchedulerRun mq [TickerTick],
          Consumer ''http://webhook'' (30 * Second) mq [Delivered created_delivery]])"

definition request_to_webhook :: "history \<times> sim" where
  "request_to_webhook = one_by_one sim_env decimal_codec 5 request_goroutines empty_world"

lemma request_to_webhook_system:
  "system_history decimal_codec 5 request_goroutines (fst request_to_webhook)"
  "follows sim_env empty_world (fst request_to_webhook) (snd request_to_webhook)"
  unfolding request_to_webhook_def by (rule one_by_one_system, rule one_by_one_follows)

section \<open>A message delivered twice\<close>

definition consumer_prog :: "unit prog" where
  "consumer_prog = goroutine_prog decimal_codec 5 sample_consumer"

text \<open>The first consumer up to its lookup in the inbox; what it does from there.\<close>

definition looked_up :: history where
  "looked_up = [Did (AmqpAck 1) None, Did (BreakerAdmit (cb_Name redis_breaker)) None, GotKey (inbox_key ''7'') RedisNil]"

definition after_lookup :: "unit prog" where
  "after_lookup = the (replay consumer_prog looked_up)"

definition first_consumer :: "unit outcome \<times> history \<times> sim" where
  "first_consumer = run sim_env consumer_prog (sample_world [200, 200] [])"

definition overtaken :: "unit outcome \<times> history \<times> sim" where
  "overtaken = run sim_env after_lookup (snd (snd first_consumer))"

definition overlapping :: history where
  "overlapping = looked_up @ fst (snd first_consumer) @ fst (snd overtaken)"

lemma overlapping_system:
  "system_history decimal_codec 5 [sample_consumer, sample_consumer] overlapping"
  "follows sim_env (sample_world [200, 200] []) overlapping (snd (snd overtaken))"
proof -
  let ?first = "fst (snd first_consumer)" and ?rest = "fst (snd overtaken)"
  note second = run_parts [where E = sim_env and p = consumer_prog and w = "sample_world [200, 200] []", folded first_consumer_def]
  have same: "take 3 ?first = looked_up" by code_simp
  from second(1) obtain q where "replay consumer_prog (take 3 ?first) = Some q" by (rule replay_take)
  with same have start: "replay consumer_prog looked_up = Some after_lookup"
    by (simp add: after_lookup_def)
  note over = run_parts [where E = sim_env and p = after_lookup and w = "snd (snd first_consumer)", folded overtaken_def]
  have "merges [?rest, []] ?rest"
    using merges_prefix [of 0 "[?rest, []]" ?rest "[]" "[]"] by (simp add: merges_Nil)
  then have "merges [?rest, ?first] (?first @ ?rest)"
    using merges_prefix [of 1 "[?rest, ?first]" ?first "[]" ?rest] by simp
  then have "merges [looked_up @ ?rest, ?first] overlapping"
    using merges_prefix [of 0 "[looked_up @ ?rest, ?first]" looked_up ?rest "?first @ ?rest"]
    by (simp add: overlapping_def)
  then show "system_history decimal_codec 5 [sample_consumer, sample_consumer] overlapping"
    unfolding system_history_def
    by (intro exI [of _ "[looked_up @ ?rest, ?first]"])
      (use over(1) start second(1) in \<open>auto simp: replay_append ends_def consumer_prog_def\<close>)
  have "follows sim_env (sample_world [200, 200] []) looked_up (sample_world [200, 200] [])"
    by (simp add: looked_up_def sim_env_def sim_on_do_def insert_clashes_def sim_fails_def sim_get_def sample_world_def)
  then show "follows sim_env (sample_world [200, 200] []) overlapping (snd (snd overtaken))"
    unfolding overlapping_def follows_append using second(2) over(2) by blast
qed

text \<open>
  C35: the inbox does not exclude that a message is delivered twice: it is looked up before the post
  and written after it, so a consumer that handles the same message between the lookup of another
  and its post posts it too. In this interleaving nothing fails, and the webhook accepts the message
  twice.
\<close>

theorem overlapping_deliveries_posted_twice:
  "system_history decimal_codec 5 [sample_consumer, sample_consumer] overlapping \<and>
   follows sim_env (sample_world [200, 200] []) overlapping (snd (snd overtaken)) \<and>
   healthy overlapping \<and> count_events is_http_call overlapping = 2 \<and>
   map_option msg_Status (sim_docs (snd (snd overtaken)) 7) = Some StatusSent"
proof -
  have "healthy overlapping" by code_simp
  moreover have "count_events is_http_call overlapping = 2" by code_simp
  moreover have "map_option msg_Status (sim_docs (snd (snd overtaken)) 7) = Some StatusSent" by code_simp
  ultimately show ?thesis using overlapping_system by (intro conjI)
qed

end
