(* ===== verification/Documents.thy ===== *)
theory Documents
  imports Sample_Systems
begin

text \<open>
  The documents of the store under the whole system: how they change, where they come from, and
  that the webhook gets nothing else.
\<close>

section \<open>How documents change and where they come from\<close>

text \<open>
  C9: in any interleaving of any number of goroutines of both services, each possibly killed, and
  whatever fails: a document is never removed, keeps its id, content, recipient and creation time,
  its retry count is never lowered, and once it is not unsent it is never unsent again, so no batch
  gets it again.
\<close>

theorem documents_only_advance:
  assumes "document_store E docs" and "docs w i = Some m"
    and "system_history L n gs h" and "follows E w h w'"
  shows "\<exists>m'. docs w' i = Some m' \<and> msg_ID m' = msg_ID m \<and>
    msg_Content m' = msg_Content m \<and> msg_To m' = msg_To m \<and> msg_CreatedAt m' = msg_CreatedAt m \<and>
    msg_RetryCount m \<le> msg_RetryCount m' \<and>
    (msg_Status m \<noteq> StatusUnsent \<longrightarrow> msg_Status m' \<noteq> StatusUnsent)"
  using docs_advance [OF assms(1,4) _ assms(2)] system_advances [OF assms(3)]
  unfolding advanced_def by metis

theorem documents_only_advance_witness:
  "\<exists>m'. sim_docs (snd (two_consumers [500, 200])) 7 = Some m' \<and>
     msg_Content m' = ''hello'' \<and> msg_To m' = ''+905551111111'' \<and> 0 \<le> msg_RetryCount m' \<and>
     msg_Status m' \<noteq> StatusUnsent"
proof -
  have "sim_docs (sample_world [500, 200] []) 7 = Some sample_message"
    by (simp add: sample_world_def)
  from documents_only_advance [OF sim_document_store this two_consumers_system]
  show ?thesis by (auto simp: sample_message_def)
qed

text \<open>A document that was not there was accepted by a request, with its content and recipient.\<close>

lemma document_requested:
  assumes "document_store E docs" and "docs w i = None" and "follows E w h w'" and "docs w' i = Some m"
    and "\<forall>e\<in>set h. advances e \<and> (no_insert e \<or> (\<exists>g\<in>set gs. inserted_for g e))"
  shows "\<exists>mq req. SenderRequest mq (PostMessages (Inr req)) \<in> set gs \<and>
    msg_Content m = req_Content req \<and> msg_To m = req_To req"
proof -
  from docs_origin [OF assms(1,3) _ assms(2,4)] assms(5) obtain m\<^sub>0 r where
    insert: "Did (MongoInsertOne m\<^sub>0) r \<in> set h" and m: "advanced (m\<^sub>0\<lparr>msg_ID := i\<rparr>) m"
    by blast
  from insert assms(5) obtain g where "g \<in> set gs" "inserted_for g (Did (MongoInsertOne m\<^sub>0) r)"
    by (auto simp: no_insert_def)
  with m show ?thesis by (auto simp: inserted_for_def advanced_def)
qed

section \<open>What is posted\<close>

definition posted_body :: "string \<Rightarrow> event \<Rightarrow> bool" where
  "posted_body body e \<longleftrightarrow> (\<exists>url r. e = HttpDone ''POST'' url body r)"

definition found_body :: "string \<Rightarrow> event \<Rightarrow> bool" where
  "found_body body e \<longleftrightarrow>
     (\<exists>i m. e = FoundOne i (Found m) \<and> body = marshal_webhook_body (msg_Content m) (msg_To m))"

abbreviation post_justified :: "string \<Rightarrow> event set \<Rightarrow> history \<Rightarrow> bool" where
  "post_justified body \<equiv> justified (posted_body body) (\<lambda>A. \<exists>x\<in>A. found_body body x)"

lemma webhook_posted_body: "webhook_posted c t e \<longleftrightarrow> posted_body (marshal_webhook_body c t) e"
  by (simp add: webhook_posted_def posted_body_def)

lemma posted_body_cong: "posted_body b e \<Longrightarrow> posted_body b' e \<Longrightarrow> b = b'"
  by (auto simp: posted_body_def)

lemma posted_body_http: "posted_body b e \<Longrightarrow> is_http_call e"
  by (auto simp: posted_body_def is_http_call_def)

lemma not_delivering_posted: "\<not> delivering e \<Longrightarrow> \<not> posted_body (marshal_webhook_body c t) e"
  by (auto simp: delivering_def webhook_posted_body)

lemma process_post_justified:
  assumes "process_spec L p d H es out"
  shows "post_justified (marshal_webhook_body c t) {} es"
  using assms
proof (cases rule: process_parts)
  case quiet
  then show ?thesis by (blast intro: justified_none dest: not_delivering_posted)
next
  case (delivered es\<^sub>1 q reply i m es\<^sub>2 out')
  let ?pre = "es\<^sub>1 @ [GotKey (inbox_key (qm_ID q)) reply, FoundOne i (Found m)]"
  have "\<forall>e\<in>set ?pre. \<not> delivering e" using delivered(2) by auto
  then have pre: "post_justified (marshal_webhook_body c t) {} ?pre"
    by (blast intro: justified_none dest: not_delivering_posted)
  have "\<exists>x\<in>set ?pre. found_body (marshal_webhook_body c t) x"
    if "e \<in> set es\<^sub>2" "posted_body (marshal_webhook_body c t) e" for e
  proof -
    from delivery_posts [OF delivered(7) that(1) posted_body_http [OF that(2)]]
    have "posted_body (marshal_webhook_body (msg_Content m) (msg_To m)) e"
      by (simp only: webhook_posted_body)
    from posted_body_cong [OF that(2) this] have "found_body (marshal_webhook_body c t) (FoundOne i (Found m))"
      unfolding found_body_def by blast
    then show ?thesis by simp
  qed
  then have "post_justified (marshal_webhook_body c t) (set ?pre) es\<^sub>2"
    by (intro justified_if upward_ex(1))
  with pre have "post_justified (marshal_webhook_body c t) {} (?pre @ es\<^sub>2)"
    by (simp only: justified_append Un_empty_left)
  moreover have "es = ?pre @ es\<^sub>2" using delivered(1) by simp
  ultimately show ?thesis by (simp only:)
qed

lemma goroutine_post_justified:
  assumes "replay (goroutine_prog L n g) h = Some rest"
  shows "post_justified (marshal_webhook_body c t) {} h"
  using assms
proof (rule goroutine_histories)
  fix d x out
  assume "process_spec L (NewMessageProcessor n (4 * Minute)) d x (trace x) out"
  from process_post_justified [OF this] show "post_justified (marshal_webhook_body c t) {} x"
    by (rule justified_filter [rotated 2]) (auto simp: posted_body_def)
next
  fix x
  assume "\<forall>e\<in>set x. bystander_event g e"
  then have "\<forall>e\<in>set x. \<not> delivering e" using bystander_events_only(1) by blast
  then show "post_justified (marshal_webhook_body c t) {} x"
    by (blast intro: justified_none dest: not_delivering_posted)
next
  fix x y
  assume "post_justified (marshal_webhook_body c t) {} x" "post_justified (marshal_webhook_body c t) {} y"
  then show "post_justified (marshal_webhook_body c t) {} (x @ y)"
    by (rule justified_appendI) (rule upward_ex(1))
qed (simp add: justified_append)

text \<open>
  C5: from an empty store, in any interleaving of any number of goroutines of both services, each
  possibly killed, and whatever is in the queues: every post to the webhook carries the content and
  the recipient of a request that the sender's API was given; a queue message only chooses
  which.
\<close>

theorem posts_were_requested:
  assumes "document_store E docs" and "\<And>i. docs w i = None"
    and "system_history L n gs h" and "follows E w h w'"
    and "e \<in> set h" and "webhook_posted c t e"
  shows "\<exists>mq req. SenderRequest mq (PostMessages (Inr req)) \<in> set gs \<and>
    webhook_posted (req_Content req) (req_To req) e"
proof -
  from assms(5) obtain h\<^sub>1 h\<^sub>2 where h: "h = h\<^sub>1 @ e # h\<^sub>2" by (meson split_list)
  have e: "posted_body (marshal_webhook_body c t) e" using assms(6) by (simp only: webhook_posted_body)
  have "post_justified (marshal_webhook_body c t) {} h"
    by (rule system_justified [OF assms(3) upward_ex(1)]) (rule goroutine_post_justified)
  with e have "\<exists>x\<in>set h\<^sub>1. found_body (marshal_webhook_body c t) x"
    unfolding h justified_append by simp
  then obtain i m where m: "FoundOne i (Found m) \<in> set h\<^sub>1"
    and body: "marshal_webhook_body c t = marshal_webhook_body (msg_Content m) (msg_To m)"
    unfolding found_body_def by blast
  from m obtain h\<^sub>3 h\<^sub>4 where h\<^sub>1: "h\<^sub>1 = h\<^sub>3 @ FoundOne i (Found m) # h\<^sub>4" by (meson split_list)
  with assms(4) obtain w\<^sub>1 w\<^sub>2 where w\<^sub>1: "follows E w h\<^sub>3 w\<^sub>1" and found: "answers E w\<^sub>1 (FoundOne i (Found m)) w\<^sub>2"
    by (auto simp: h follows_append)
  have "docs w\<^sub>1 i = Some m"
    using assms(1) [unfolded document_store_def, rule_format, OF found] by simp
  moreover have "\<forall>e\<in>set h\<^sub>3. advances e \<and> (no_insert e \<or> (\<exists>g\<in>set gs. inserted_for g e))"
    using system_advances [OF assms(3)] by (auto simp: h h\<^sub>1)
  ultimately obtain mq req where "SenderRequest mq (PostMessages (Inr req)) \<in> set gs"
    "msg_Content m = req_Content req" "msg_To m = req_To req"
    using document_requested [OF assms(1,2) w\<^sub>1] by blast
  with e body show ?thesis unfolding webhook_posted_body by metis
qed

theorem posts_were_requested_witness:
  "\<exists>e\<in>set (fst request_to_webhook). webhook_posted ''hello'' ''+905551111111'' e \<and>
     (\<exists>mq req. SenderRequest mq (PostMessages (Inr req)) \<in> set request_goroutines \<and>
        webhook_posted (req_Content req) (req_To req) e)"
proof -
  have "map (\<lambda>e. case e of HttpDone u m b a \<Rightarrow> (u, b) | _ \<Rightarrow> ([], []))
      (filter is_http_call (fst request_to_webhook)) =
    [(''POST'', marshal_webhook_body ''hello'' ''+905551111111'')]"
    by code_simp
  then obtain e where e: "filter is_http_call (fst request_to_webhook) = [e]"
    "(case e of HttpDone u m b a \<Rightarrow> (u, b) | _ \<Rightarrow> ([], [])) = (''POST'', marshal_webhook_body ''hello'' ''+905551111111'')"
    by auto
  then have "e \<in> set (filter is_http_call (fst request_to_webhook))" by simp
  then have posted: "e \<in> set (fst request_to_webhook)" "webhook_posted ''hello'' ''+905551111111'' e"
    using e(2) by (auto simp: is_http_call_def webhook_posted_def)
  have empty: "sim_docs empty_world i = None" for i by (simp add: empty_world_def)
  from posts_were_requested [OF sim_document_store empty request_to_webhook_system posted] posted
  show ?thesis by blast
qed

end
