(* ===== verification/Allowances.thy ===== *)
theory Allowances
  imports Sample_Systems
begin

text \<open>
  How often something can happen in the whole system, when every goroutine has to earn it: a
  requeue by an increment and a read of the retry count, a mark by a lookup in the inbox.
\<close>

section \<open>Goroutines that earn what they do\<close>

text \<open>
  A goroutine goes through phases with its events; some events are allowed in some phases only. An
  event the environment cannot give (\<open>V\<close>) ends the obligation.
\<close>

primrec accepts ::
  "('e \<Rightarrow> bool) \<Rightarrow> ('p \<Rightarrow> 'e \<Rightarrow> bool) \<Rightarrow> ('p \<Rightarrow> 'e \<Rightarrow> 'p) \<Rightarrow> 'p \<Rightarrow> 'e list \<Rightarrow> bool" where
  "accepts V A N p [] \<longleftrightarrow> True"
| "accepts V A N p (e # h) \<longleftrightarrow> V e \<or> A p e \<and> accepts V A N (N p e) h"

lemma accepts_prefix: "accepts V A N p (xs @ ys) \<Longrightarrow> accepts V A N p xs"
  by (induction xs arbitrary: p) auto

lemma accepts_appendI:
  assumes "\<And>p e. R p \<Longrightarrow> R (N p e)" and "\<And>p. R p \<Longrightarrow> accepts V A N p ys"
  shows "accepts V A N p xs \<Longrightarrow> R p \<Longrightarrow> accepts V A N p (xs @ ys)"
  by (induction xs arbitrary: p) (use assms in auto)

lemma accepts_append:
  "accepts V A N p xs \<Longrightarrow> (\<And>p. accepts V A N p ys) \<Longrightarrow> accepts V A N p (xs @ ys)"
  by (rule accepts_appendI [where R = "\<lambda>_. True"]) simp_all

lemma accepts_none: "\<forall>e\<in>set h. \<forall>p. A p e \<Longrightarrow> accepts V A N p h"
  by (induction h arbitrary: p) auto

lemma accepts_filter:
  assumes "\<And>p e. \<not> F e \<Longrightarrow> A p e \<and> N p e = p" and "accepts V A N p (filter F h)"
  shows "accepts V A N p h"
  using assms(2)
proof (induction h arbitrary: p)
  case (Cons e h)
  then show ?case by (cases "F e") (use assms(1) in auto)
qed simp

text \<open>
  An invariant \<open>I\<close> of the phases of all goroutines, the state of the environment and a balance, to
  which every event \<open>e\<close> adds \<open>c e\<close>, that every allowed event in \<open>G\<close> keeps, is kept by every
  interleaving.
\<close>

definition keeps ::
  "'w env \<Rightarrow> (event \<Rightarrow> bool) \<Rightarrow> ('p \<Rightarrow> event \<Rightarrow> bool) \<Rightarrow> ('p \<Rightarrow> event \<Rightarrow> 'p) \<Rightarrow> (event \<Rightarrow> bool) \<Rightarrow>
   (event \<Rightarrow> int) \<Rightarrow> ('p list \<Rightarrow> 'w \<Rightarrow> int \<Rightarrow> bool) \<Rightarrow> bool" where
  "keeps E V A N G c I \<longleftrightarrow>
     (\<forall>w e w'. answers E w e w' \<longrightarrow> \<not> V e) \<and>
     (\<forall>ps w k j e w'. I ps w k \<longrightarrow> j < length ps \<longrightarrow> answers E w e w' \<longrightarrow> G e \<longrightarrow> A (ps ! j) e \<longrightarrow>
        I (ps[j := N (ps ! j) e]) w' (k + c e))"

lemma merged_invariant:
  assumes keeps: "keeps E V A N G c I"
  shows "merges hs h \<Longrightarrow> length ps = length hs \<Longrightarrow>
    (\<And>j. j < length hs \<Longrightarrow> accepts V A N (ps ! j) (hs ! j)) \<Longrightarrow> \<forall>e\<in>set h. G e \<Longrightarrow>
    follows E w h w' \<Longrightarrow> I ps w k \<Longrightarrow> \<exists>ps'. I ps' w' (k + sum_list (map c h))"
proof (induction arbitrary: ps w k rule: merges.induct)
  case (merges_Nil hs)
  then show ?case by auto
next
  case (merges_Cons j hs e t h)
  from merges_Cons.prems(4) obtain w\<^sub>1 where e: "answers E w e w\<^sub>1" and rest: "follows E w\<^sub>1 h w'" by auto
  have j: "j < length ps" using merges_Cons(1) merges_Cons.prems(1) by simp
  from merges_Cons.prems(2) [OF merges_Cons(1)] merges_Cons(2) keeps e
  have allowed: "A (ps ! j) e" and t: "accepts V A N (N (ps ! j) e) t" by (auto simp: keeps_def)
  let ?ps = "ps[j := N (ps ! j) e]"
  have inv: "I ?ps w\<^sub>1 (k + c e)"
    using keeps merges_Cons.prems(3,5) j e allowed by (simp add: keeps_def)
  have "accepts V A N (?ps ! l) (hs[j := t] ! l)" if "l < length (hs[j := t])" for l
    using that t merges_Cons.prems(1,2) by (cases "l = j") auto
  from merges_Cons.IH [OF _ this _ rest inv] merges_Cons.prems(1,3)
  obtain ps' where "I ps' w' (k + c e + sum_list (map c h))" by auto
  then show ?case by (auto simp: add.assoc)
qed

abbreviation one :: "(event \<Rightarrow> bool) \<Rightarrow> event \<Rightarrow> int" where
  "one C e \<equiv> (if C e then 1 else 0)"

lemma sum_one: "sum_list (map (one C) h) = int (count_events C h)"
  by (induction h) auto

section \<open>Requeues\<close>

text \<open>
  How far a goroutine is on the way to a requeue of the message \<open>i\<close>: it incremented the retry
  count; it then read a count below the maximum. Each requeue needs a way of its own. No document
  store answers a lookup with a document of another id.
\<close>

datatype phase = Idle | Counted | Below

definition next_phase :: "int \<Rightarrow> oid_codec \<Rightarrow> oid \<Rightarrow> phase \<Rightarrow> event \<Rightarrow> phase" where
  "next_phase n L i p e =
     (if wrote_retry i None e then Counted
      else if requeue_of L i e then Idle
      else case e of
        FoundOne j (Found u) \<Rightarrow>
          if j = i \<and> p = Counted then (if msg_RetryCount u < n then Below else Idle) else p
      | _ \<Rightarrow> p)"

definition misfiled :: "event \<Rightarrow> bool" where
  "misfiled e \<longleftrightarrow> (\<exists>j u. e = FoundOne j (Found u) \<and> msg_ID u \<noteq> j)"

definition earned_requeue :: "oid_codec \<Rightarrow> oid \<Rightarrow> phase \<Rightarrow> event \<Rightarrow> bool" where
  "earned_requeue L i p e \<longleftrightarrow> (requeue_of L i e \<longrightarrow> p = Below)"

abbreviation guarded :: "int \<Rightarrow> oid_codec \<Rightarrow> oid \<Rightarrow> phase \<Rightarrow> history \<Rightarrow> bool" where
  "guarded n L i \<equiv> accepts misfiled (earned_requeue L i) (next_phase n L i)"

lemma guarded_none: "\<forall>e\<in>set h. \<not> requeue_of L i e \<Longrightarrow> guarded n L i p h"
  by (rule accepts_none) (simp add: earned_requeue_def)

lemma unobserved_phase: "\<not> observed e \<Longrightarrow> earned_requeue L i p e \<and> next_phase n L i p e = p"
  using requeue_observed [of L i e]
  by (cases e) (auto simp: next_phase_def earned_requeue_def wrote_retry_def)

lemma requeue_not_written: "requeue_of L i e \<Longrightarrow> \<not> wrote_retry j r e \<and> \<not> wrote_status j st r e"
  by (auto simp: requeue_of_def event_defs)

lemma failure_guarded:
  assumes "failure_spec n i body es out"
  shows "guarded n L i p es"
  using assms
proof cases
  case (requeued es\<^sub>1 es\<^sub>2 u r e err)
  obtain x y where x: "es\<^sub>1 = [x]" "wrote_retry i None x" and y: "es\<^sub>2 = [y]" "wrote_status i StatusProcessing None y"
    using attempt_done [OF requeued(3)] attempt_done [OF requeued(4)] by blast
  have "next_phase n L i Counted y = Counted"
    using y(2) requeue_not_written [of L i y] wrote_status_not_retry [OF y(2)]
    by (auto simp: next_phase_def wrote_status_def)
  moreover have "\<not> requeue_of L i x" "\<not> requeue_of L i y" "\<not> requeue_of L i (FoundOne i (Found u))"
    using x(2) y(2) requeue_not_written by (blast, blast, auto simp: requeue_of_def to_retry_def)
  moreover have "\<not> wrote_retry i None (FoundOne i (Found u))" by (simp add: wrote_retry_def)
  ultimately show ?thesis
    using requeued(1,5) x y by (simp add: next_phase_def earned_requeue_def)
qed (auto intro!: guarded_none simp: event_defs requeue_of_def)

lemma process_guarded:
  assumes "process_spec L pr d H es out"
  shows "guarded (maxRetries pr) L i p es"
  using assms
proof (cases rule: process_parts)
  case quiet
  then show ?thesis by (blast intro: guarded_none dest: not_delivering)
next
  case (delivered es\<^sub>1 q reply j m es\<^sub>2 out')
  let ?pre = "es\<^sub>1 @ [GotKey (inbox_key (qm_ID q)) reply, FoundOne j (Found m)]"
  have "\<forall>e\<in>set ?pre. \<not> delivering e" using delivered(2) by auto
  then have pre: "\<forall>e\<in>set ?pre. \<not> requeue_of L i e" using not_delivering(5) by blast
  have es: "es = ?pre @ es\<^sub>2" using delivered(1) by simp
  show ?thesis
  proof (cases "\<forall>e\<in>set es\<^sub>2. \<not> requeue_of L i e")
    case True
    with pre show ?thesis unfolding es by (intro guarded_none) auto
  next
    case False
    then obtain e where e: "e \<in> set es\<^sub>2" "requeue_of L i e" by blast
    then obtain b r q' where "to_retry b r e" "ObjectIDFromHex L (qm_ID q') = Inr i"
      "unmarshal_queue_message b empty_queue_message = Inr q'"
      by (auto simp: requeue_of_def)
    with delivery_requeues [OF delivered(7) e(1)] delivered(5,6) have ji: "j = i" by auto
    show ?thesis
    proof (cases "msg_ID m = i")
      case True
      from delivered(7) obtain es\<^sub>4 es\<^sub>5 where es2: "es\<^sub>2 = es\<^sub>4 @ es\<^sub>5" "optional_post m es\<^sub>4"
        and "failure_spec (maxRetries pr) (msg_ID m) (Body d) es\<^sub>5 out'"
        by cases (use e in \<open>auto simp: event_defs requeue_of_def\<close>)
      then have failure: "guarded (maxRetries pr) L i p es\<^sub>5" for p
        using failure_guarded True by blast
      have "\<forall>e\<in>set (?pre @ es\<^sub>4). \<not> requeue_of L i e"
        using pre es2(2) by (auto simp: optional_post_def webhook_posted_def requeue_of_def to_retry_def)
      from accepts_append [OF guarded_none [OF this] failure] show ?thesis by (simp add: es es2(1))
    next
      case False
      have "\<forall>e\<in>set (es\<^sub>1 @ [GotKey (inbox_key (qm_ID q)) reply]). \<not> requeue_of L i e" using pre by auto
      moreover have "guarded (maxRetries pr) L i p (FoundOne j (Found m) # es\<^sub>2)" for p
        using False ji by (simp add: misfiled_def)
      ultimately show ?thesis
        using accepts_append [OF guarded_none] by (fastforce simp: delivered(1))
    qed
  qed
qed

lemma goroutine_guarded:
  assumes "replay (goroutine_prog L n g) h = Some rest"
  shows "\<forall>p. guarded n L i p h"
  using assms
proof (rule goroutine_histories)
  fix d x out
  assume "process_spec L (NewMessageProcessor n (4 * Minute)) d x (trace x) out"
  from process_guarded [OF this] show "\<forall>p. guarded n L i p x"
    by (auto simp: NewMessageProcessor_def intro: accepts_filter [OF unobserved_phase])
next
  fix x
  assume "\<forall>e\<in>set x. bystander_event g e"
  then show "\<forall>p. guarded n L i p x"
    using bystander_events_only(1) by (blast intro: guarded_none dest: not_delivering)
qed (auto intro: accepts_append accepts_prefix)

text \<open>
  The count in the store is ahead of the requeues and of the goroutines on their way; one that
  read a count below the maximum read it when that was so already.
\<close>

definition requeues_earned ::
  "('w \<Rightarrow> oid \<Rightarrow> message option) \<Rightarrow> int \<Rightarrow> oid \<Rightarrow> int \<Rightarrow> phase list \<Rightarrow> 'w \<Rightarrow> int \<Rightarrow> bool" where
  "requeues_earned docs n i c ps w k \<longleftrightarrow>
     (\<exists>m. docs w i = Some m \<and>
        k + int (count_events (\<lambda>p. p \<noteq> Idle) ps) \<le> msg_RetryCount m - c \<and>
        k + int (count_events (\<lambda>p. p = Below) ps) \<le> max 0 (n - 1 - c))"

lemma requeues_earned_step:
  assumes store: "document_store E docs" and inv: "requeues_earned docs n i c ps w k"
    and j: "j < length ps" and e: "answers E w e w'" and adv: "advances e"
    and earned: "earned_requeue L i (ps ! j) e"
  shows "requeues_earned docs n i c (ps[j := next_phase n L i (ps ! j) e]) w'
    (k + (if requeue_of L i e then 1 else 0))"
proof -
  let ?p = "ps ! j"
  let ?p' = "next_phase n L i ?p e"
  let ?k = "k + (if requeue_of L i e then 1 else 0)"
  note law = store [unfolded document_store_def, rule_format, OF e]
  from inv obtain m where m: "docs w i = Some m"
    "k + int (count_events (\<lambda>p. p \<noteq> Idle) ps) \<le> msg_RetryCount m - c"
    "k + int (count_events (\<lambda>p. p = Below) ps) \<le> max 0 (n - 1 - c)"
    unfolding requeues_earned_def by blast
  have requeue: "requeue_of L i e \<longrightarrow> ?p = Below" using earned by (simp add: earned_requeue_def)
  from docs_step [OF store e adv m(1)] obtain m\<^sub>1 where
    m\<^sub>1: "docs w' i = Some m\<^sub>1" "msg_RetryCount m + (if wrote_retry i None e then 1 else 0) \<le> msg_RetryCount m\<^sub>1"
    by auto
  have read: "msg_RetryCount m < n" if "?p' = Below" "?p \<noteq> Below"
  proof -
    from that obtain u where "e = FoundOne i (Found u)" "msg_RetryCount u < n"
      by (auto simp: next_phase_def split: if_splits event.splits find_one_result.splits)
    with law m(1) show ?thesis by auto
  qed
  have phases: "?p' = Counted \<longrightarrow> ?p = Counted \<or> wrote_retry i None e" "?p' = Below \<longrightarrow> ?p \<noteq> Idle"
    "?p' \<noteq> Idle \<longrightarrow> \<not> requeue_of L i e"
    using requeue_not_written [of L i e]
    by (auto simp: next_phase_def split: if_splits event.splits find_one_result.splits)
  have phase: "?p' = Idle \<or> ?p' = Counted \<or> ?p' = Below" by (cases ?p') auto
  note counts = count_update [OF j, of "\<lambda>p. p \<noteq> Idle" ?p'] count_update [OF j, of "\<lambda>p. p = Below" ?p']
  have "?k + int (count_events (\<lambda>p. p \<noteq> Idle) (ps[j := ?p'])) \<le> msg_RetryCount m\<^sub>1 - c"
    using counts(1) phases phase requeue m\<^sub>1(2) m(2) by (auto split: if_splits)
  moreover have "?k + int (count_events (\<lambda>p. p = Below) (ps[j := ?p'])) \<le> max 0 (n - 1 - c)"
  proof (cases "?p' = Below \<and> ?p \<noteq> Below")
    case True
    have "count_events (\<lambda>p. p = Below) (ps[j := ?p']) \<le> count_events (\<lambda>p. p \<noteq> Idle) (ps[j := ?p'])"
      by (rule count_events_mono) simp
    also have "\<dots> = count_events (\<lambda>p. p \<noteq> Idle) ps" using counts(1) phases(2) True by auto
    finally show ?thesis using True read phases(3) m(2) by auto
  next
    case False
    then show ?thesis
      using counts(2) requeue phases(3) m(3) by (auto split: if_splits)
  qed
  ultimately show ?thesis using m\<^sub>1(1) unfolding requeues_earned_def by blast
qed

lemma requeues_keep:
  assumes "document_store E docs"
  shows "keeps E misfiled (earned_requeue L i) (next_phase n L i) advances (one (requeue_of L i)) (requeues_earned docs n i c)"
proof -
  have "\<not> misfiled e" if "answers E w e w'" for w e w'
    using assms [unfolded document_store_def, rule_format, OF that] by (auto simp: misfiled_def)
  with requeues_earned_step [OF assms] show ?thesis unfolding keeps_def by blast
qed

text \<open>
  C11: in any interleaving of any number of goroutines of both services, each possibly killed, with
  consumers in parallel and whatever fails: a message whose document has the retry count \<open>c\<close> is put
  into the retry queue at most \<open>n - 1 - c\<close> times, \<open>n\<close> being the configured maximum. Each requeue
  has an increment of its own before it and a read of a count below \<open>n\<close> after that.
\<close>

theorem requeues_bounded:
  assumes "document_store E docs" and "docs w i = Some m"
    and "system_history L n gs h" and "follows E w h w'"
  shows "int (count_events (requeue_of L i) h) \<le> max 0 (n - 1 - msg_RetryCount m)"
proof -
  from assms(3) obtain hs where hs: "merges hs h" "length hs = length gs"
    "\<And>j. j < length gs \<Longrightarrow> \<exists>rest. replay (goroutine_prog L n (gs ! j)) (hs ! j) = Some rest"
    by (rule system_goroutine) blast
  let ?ps = "replicate (length hs) Idle"
  let ?I = "requeues_earned docs n i (msg_RetryCount m)"
  have "guarded n L i (?ps ! j) (hs ! j)" if "j < length hs" for j
    using hs(2,3) that goroutine_guarded by metis
  moreover have "\<forall>e\<in>set h. advances e" using system_advances [OF assms(3)] by blast
  moreover have "?I ?ps w 0" using assms(2) by (simp add: requeues_earned_def filter_empty_conv)
  ultimately obtain ps' where "?I ps' w' (int (count_events (requeue_of L i) h))"
    using merged_invariant [OF requeues_keep [OF assms(1)] hs(1) _ _ _ assms(4), of ?ps L i n "msg_RetryCount m" 0]
    by (auto simp: sum_one)
  then show ?thesis unfolding requeues_earned_def by auto
qed

theorem requeues_bounded_witness:
  "int (count_events (requeue_of decimal_codec 7) (fst (two_consumers [500, 500]))) \<le> 4 \<and>
   count_events is_publish (fst (two_consumers [500, 500])) = 2 \<and>
   map_option msg_RetryCount (sim_docs (snd (two_consumers [500, 500])) 7) = Some 2"
proof -
  have "sim_docs (sample_world [500, 500] []) 7 = Some sample_message"
    by (simp add: sample_world_def)
  from requeues_bounded [OF sim_document_store this two_consumers_system]
  have "int (count_events (requeue_of decimal_codec 7) (fst (two_consumers [500, 500]))) \<le> 4"
    by (simp add: sample_message_def)
  moreover have "count_events is_publish (fst (two_consumers [500, 500])) = 2" by code_simp
  moreover have "map_option msg_RetryCount (sim_docs (snd (two_consumers [500, 500])) 7) = Some 2"
    by code_simp
  ultimately show ?thesis by (intro conjI)
qed

section \<open>Marks\<close>

text \<open>
  A consumer needs a ticket to mark a message: an answer of the inbox that it was not processed. A
  mark that is done uses the ticket up. Goroutines that are no consumers mark nothing.
\<close>

datatype ticket = Outsider | NoTicket | Ticket

definition next_ticket :: "string \<Rightarrow> ticket \<Rightarrow> event \<Rightarrow> ticket" where
  "next_ticket k p e =
     (if p = Outsider then Outsider
      else if marked k None e then NoTicket
      else case e of
        GotKey key reply \<Rightarrow> if key = inbox_key k \<and> inbox_answer reply = Inr False then Ticket else p
      | _ \<Rightarrow> p)"

definition earned_mark :: "string \<Rightarrow> ticket \<Rightarrow> event \<Rightarrow> bool" where
  "earned_mark k p e \<longleftrightarrow> (marked k None e \<longrightarrow> p = Ticket)"

abbreviation ticketed :: "string \<Rightarrow> ticket \<Rightarrow> history \<Rightarrow> bool" where
  "ticketed k \<equiv> accepts (\<lambda>_. False) (earned_mark k) (next_ticket k)"

lemma earned_mark_simps [simp]: "earned_mark k Ticket e" "\<not> marked k None e \<Longrightarrow> earned_mark k p e"
  by (simp_all add: earned_mark_def)

lemma ticketed_none: "\<forall>e\<in>set h. \<not> marked k None e \<Longrightarrow> ticketed k p h"
  by (rule accepts_none) (simp add: earned_mark_def)

lemma next_ticket_insider: "next_ticket k p e = Outsider \<longleftrightarrow> p = Outsider"
  by (auto simp: next_ticket_def split: if_splits event.splits)

lemma unobserved_ticket: "\<not> observed e \<Longrightarrow> earned_mark k p e \<and> next_ticket k p e = p"
  by (cases e) (auto simp: next_ticket_def earned_mark_def dest: marked_observed)

lemma ticketed_once:
  "count_events (marked k None) es \<le> 1 \<Longrightarrow> \<forall>e\<in>set es. \<forall>key v. e \<noteq> GotKey key v \<Longrightarrow> ticketed k Ticket es"
proof (induction es)
  case (Cons e es)
  show ?case
  proof (cases "marked k None e")
    case True
    with Cons.prems have "\<forall>e\<in>set es. \<not> marked k None e" by (auto simp: filter_empty_conv)
    from ticketed_none [OF this] show ?thesis by simp
  next
    case False
    with Cons have "ticketed k Ticket es" by auto
    moreover have "next_ticket k Ticket e = Ticket"
      using False Cons.prems(2) by (cases e) (auto simp: next_ticket_def)
    ultimately show ?thesis by simp
  qed
qed simp

lemma delivery_marks:
  assumes "delivery_spec n k\<^sub>0 i m body es out"
  shows "count_events (marked k None) es \<le> 1" and "\<forall>e\<in>set es. \<forall>key v. e \<noteq> GotKey key v"
    and "e \<in> set es \<Longrightarrow> marked k r e \<Longrightarrow> k = k\<^sub>0"
proof -
  have failure: "GotKey key v \<notin> set es" if "failure_spec n j body es out" for j es key v
    using that by cases (auto simp: event_defs)
  have "count_events (marked k None) es \<le> 1 \<and> (\<forall>e\<in>set es. \<forall>key v. e \<noteq> GotKey key v) \<and>
    (\<forall>e\<in>set es. \<forall>r. marked k r e \<longrightarrow> k = k\<^sub>0)"
    using assms
  proof cases
    case (webhook_failed es\<^sub>0 es\<^sub>1)
    have "\<forall>e\<in>set es. \<not> marked k r e" for r
      using failed_post(3) [OF webhook_failed(2)] failure_trace(3) [OF webhook_failed(3)]
      by (auto simp: webhook_failed(1))
    moreover have "\<forall>e\<in>set es. \<forall>key v. e \<noteq> GotKey key v"
      using webhook_failed(2) failure [OF webhook_failed(3)]
      by (auto simp: webhook_failed(1) optional_post_def webhook_posted_def)
    ultimately show ?thesis by (simp add: filter_empty_conv)
  qed (auto simp: event_defs)
  then show "count_events (marked k None) es \<le> 1" and "\<forall>e\<in>set es. \<forall>key v. e \<noteq> GotKey key v"
    and "e \<in> set es \<Longrightarrow> marked k r e \<Longrightarrow> k = k\<^sub>0"
    by blast+
qed

lemma process_ticketed:
  assumes "process_spec L pr d H es out" and "p \<noteq> Outsider"
  shows "ticketed k p es"
  using assms(1)
proof (cases rule: process_parts)
  case quiet
  then show ?thesis by (blast intro: ticketed_none dest: not_delivering)
next
  case (delivered es\<^sub>1 q reply j m es\<^sub>2 out')
  note marks = delivery_marks [OF delivered(7)]
  let ?rest = "GotKey (inbox_key (qm_ID q)) reply # FoundOne j (Found m) # es\<^sub>2"
  have lookups: "\<not> marked k None (GotKey key v)" "\<not> marked k None (FoundOne i a)" for key v i a
    by (simp_all add: marked_def)
  have "ticketed k p ?rest" if "p \<noteq> Outsider" for p
  proof (cases "qm_ID q = k")
    case True
    have "ticketed k Ticket es\<^sub>2" by (rule ticketed_once [OF marks(1,2)])
    with True that delivered(4) lookups show ?thesis by (simp add: next_ticket_def)
  next
    case False
    with marks(3) [of _ k None] lookups have "\<forall>e\<in>set ?rest. \<not> marked k None e" by auto
    then show ?thesis by (rule ticketed_none)
  qed
  moreover have "ticketed k p es\<^sub>1"
    using delivered(2) by (blast intro: ticketed_none dest: not_delivering)
  ultimately have "ticketed k p (es\<^sub>1 @ ?rest)"
    using assms(2) by (intro accepts_appendI [where R = "\<lambda>p. p \<noteq> Outsider"]) (simp_all add: next_ticket_insider)
  then show ?thesis by (simp only: delivered(1))
qed

lemma goroutine_ticketed:
  assumes "replay (goroutine_prog L n g) h = Some rest"
  shows "\<forall>p. is_consumer g = (p \<noteq> Outsider) \<longrightarrow> ticketed k p h"
  using assms
proof (rule goroutine_histories)
  fix d x out
  assume spec: "process_spec L (NewMessageProcessor n (4 * Minute)) d x (trace x) out" and "is_consumer g"
  show "\<forall>p. is_consumer g = (p \<noteq> Outsider) \<longrightarrow> ticketed k p x"
  proof (intro allI impI)
    fix p
    assume "is_consumer g = (p \<noteq> Outsider)"
    with \<open>is_consumer g\<close> have "ticketed k p (trace x)" using process_ticketed [OF spec] by simp
    then show "ticketed k p x"
      by (rule accepts_filter [where F = observed, rotated]) (rule unobserved_ticket)
  qed
next
  fix x
  assume "\<forall>e\<in>set x. bystander_event g e"
  then show "\<forall>p. is_consumer g = (p \<noteq> Outsider) \<longrightarrow> ticketed k p x"
    using bystander_events_only(1) by (blast intro: ticketed_none dest: not_delivering)
next
  fix x y
  assume "\<forall>p. is_consumer g = (p \<noteq> Outsider) \<longrightarrow> ticketed k p x"
    and "\<forall>p. is_consumer g = (p \<noteq> Outsider) \<longrightarrow> ticketed k p y"
  then show "\<forall>p. is_consumer g = (p \<noteq> Outsider) \<longrightarrow> ticketed k p (x @ y)"
    by (auto intro!: accepts_appendI [where R = "\<lambda>p. is_consumer g = (p \<noteq> Outsider)"] simp: next_ticket_insider)
qed (auto intro: accepts_prefix)

text \<open>Once the message is in the inbox no ticket is given any more; before, no mark was done.\<close>

definition marks_earned ::
  "('w \<Rightarrow> string \<Rightarrow> string option) \<Rightarrow> string \<Rightarrow> nat \<Rightarrow> ticket list \<Rightarrow> 'w \<Rightarrow> int \<Rightarrow> bool" where
  "marks_earned kv k N ps w c \<longleftrightarrow>
     count_events (\<lambda>p. p \<noteq> Outsider) ps = N \<and>
     c + int (count_events (\<lambda>p. p = Ticket) ps) \<le> int N \<and> (in_inbox kv w k \<or> c = 0)"

lemma marks_earned_step:
  assumes kv: "key_value_store E kv" and inv: "marks_earned kv k N ps w c"
    and j: "j < length ps" and e: "answers E w e w'" and only: "only_marks e"
    and earned: "earned_mark k (ps ! j) e"
  shows "marks_earned kv k N (ps[j := next_ticket k (ps ! j) e]) w' (c + (if marked k None e then 1 else 0))"
proof -
  let ?p = "ps ! j"
  let ?p' = "next_ticket k ?p e"
  note counts = count_update [OF j, of "\<lambda>p. p \<noteq> Outsider" ?p'] count_update [OF j, of "\<lambda>p. p = Ticket" ?p']
  have outsiders: "count_events (\<lambda>p. p \<noteq> Outsider) (ps[j := ?p']) = N"
    using counts(1) inv next_ticket_insider [of k ?p e] by (simp add: marks_earned_def split: if_splits)
  have kept: "in_inbox kv w k \<longrightarrow> in_inbox kv w' k"
    using in_inbox_step [OF kv e only] by blast
  show ?thesis
  proof (cases "marked k None e")
    case True
    with earned have "?p = Ticket" by (simp add: earned_mark_def)
    moreover from this True have "?p' = NoTicket" by (simp add: next_ticket_def)
    moreover have "in_inbox kv w' k"
      using marked_in_inbox [OF kv, of w "[e]" w' e k] e only True by simp
    ultimately show ?thesis using counts(2) inv outsiders True by (auto simp: marks_earned_def)
  next
    case False
    have "?p' = ?p \<or> \<not> in_inbox kv w k \<and> ?p' \<noteq> Outsider"
    proof (cases "\<exists>reply. e = GotKey (inbox_key k) reply \<and> inbox_answer reply = Inr False")
      case True
      then obtain reply where "e = GotKey (inbox_key k) reply" "inbox_answer reply = Inr False" by blast
      with in_inbox_answer [OF kv, of w k reply w'] e have "\<not> in_inbox kv w k"
        by (auto simp: inbox_answer_def)
      then show ?thesis using next_ticket_insider [of k ?p e] by (cases "?p = Outsider") auto
    next
      case no: False
      with False show ?thesis by (auto simp: next_ticket_def split: event.splits)
    qed
    then show ?thesis
    proof
      assume "?p' = ?p"
      with inv kept False show ?thesis by (simp add: marks_earned_def) (metis list_update_id)
    next
      assume new: "\<not> in_inbox kv w k \<and> ?p' \<noteq> Outsider"
      have "count_events (\<lambda>p. p = Ticket) (ps[j := ?p']) \<le> count_events (\<lambda>p. p \<noteq> Outsider) (ps[j := ?p'])"
        by (rule count_events_mono) simp
      with new inv outsiders False show ?thesis by (auto simp: marks_earned_def)
    qed
  qed
qed

lemma marks_keep:
  "key_value_store E kv \<Longrightarrow>
     keeps E (\<lambda>_. False) (earned_mark k) (next_ticket k) only_marks (one (marked k None)) (marks_earned kv k N)"
  unfolding keeps_def by (intro conjI allI impI) (simp_all add: marks_earned_step)

text \<open>
  C6: in any interleaving of any number of goroutines of both services, each possibly killed, and
  whatever fails, while the keys of the inbox do not expire: a message is marked as processed at
  most as often as there are consumers. With one consumer, no message is handled successfully
  twice, however often it is delivered.
\<close>

theorem marks_bounded_by_consumers:
  assumes "key_value_store E kv" and "system_history L n gs h" and "follows E w h w'"
  shows "count_events (marked k None) h \<le> length (filter is_consumer gs)"
proof -
  from assms(2) obtain hs where hs: "merges hs h" "length hs = length gs"
    "\<And>j. j < length gs \<Longrightarrow> \<exists>rest. replay (goroutine_prog L n (gs ! j)) (hs ! j) = Some rest"
    by (rule system_goroutine) blast
  let ?ps = "map (\<lambda>g. if is_consumer g then NoTicket else Outsider) gs"
  let ?I = "marks_earned kv k (length (filter is_consumer gs))"
  have "ticketed k (?ps ! j) (hs ! j)" if "j < length hs" for j
    using hs(2,3) that goroutine_ticketed [of L n "gs ! j" "hs ! j"] by auto
  moreover have "\<forall>e\<in>set h. only_marks e" using system_advances [OF assms(2)] by blast
  moreover have "?I ?ps w 0"
    by (simp add: marks_earned_def filter_map comp_def filter_empty_conv)
  ultimately obtain ps' where "?I ps' w' (int (count_events (marked k None) h))"
    using merged_invariant [OF marks_keep [OF assms(1)] hs(1) _ _ _ assms(3), of ?ps k "length (filter is_consumer gs)" 0]
      hs(2) by (auto simp: sum_one)
  then show ?thesis unfolding marks_earned_def by simp
qed

theorem marks_bounded_by_consumers_witness:
  "count_events (marked ''7'' None) overlapping \<le> 2 \<and>
   count_events (\<lambda>e. case e of
      Did (RedisSet key v d) r \<Rightarrow> r = None \<and> key = inbox_key ''7'' | _ \<Rightarrow> False) overlapping = 2"
proof
  from marks_bounded_by_consumers [OF sim_key_value_store overlapping_system]
  have "count_events (marked ''7'' None) overlapping \<le>
      length (filter is_consumer [sample_consumer, sample_consumer])" .
  then show "count_events (marked ''7'' None) overlapping \<le> 2" by (simp add: sample_consumer_def)
  show "count_events (\<lambda>e. case e of
      Did (RedisSet key v d) r \<Rightarrow> r = None \<and> key = inbox_key ''7'' | _ \<Rightarrow> False) overlapping = 2"
    by code_simp
qed

end
