(* ===== verification/Outbox.thy ===== *)
theory Outbox
  imports Allowances
begin

text \<open>
  The outbox: how often a document is published to the main queue, in the whole system. A goroutine
  of the scheduler publishes a document it got from the store as unsent, and then records that; a
  document is published again only when it was not recorded, or when another goroutine got it too.
\<close>

section \<open>What the scheduler publishes\<close>

lemma marshal_queue_message_id:
  assumes "marshal_queue_message q = marshal_queue_message q'" and "valid_utf8 (qm_ID q)" and "valid_utf8 (qm_ID q')"
  shows "qm_ID q = qm_ID q'"
proof -
  from assms(1) have "json_parse (marshal_queue_message q) = json_parse (marshal_queue_message q')" by simp
  then have "escape (qm_ID q) = escape (qm_ID q')" unfolding parse_queue_message by simp
  with unquote_escape [OF assms(2)] unquote_escape [OF assms(3)] show ?thesis by (metis option.inject)
qed

text \<open>The ids of the driver: valid texts that parse back.\<close>

definition oid_texts_ok :: "oid_codec \<Rightarrow> bool" where
  "oid_texts_ok L \<longleftrightarrow> oid_codec_ok L \<and> (\<forall>i. valid_utf8 (Hex L i))"

lemma published_of:
  assumes "oid_texts_ok L" and "to_main (marshal_queue_message (queue_message_of L m)) r e"
  shows "published_document L i e \<longleftrightarrow> msg_ID m = i \<and> r = None"
proof
  assume "published_document L i e"
  then obtain m' where m': "msg_ID m' = i" "to_main (marshal_queue_message (queue_message_of L m')) None e"
    unfolding published_document_def by blast
  with assms(2) have same: "marshal_queue_message (queue_message_of L m') = marshal_queue_message (queue_message_of L m)"
    and "r = None" by (auto simp: to_main_def)
  with marshal_queue_message_id [OF same] assms(1) have "Hex L (msg_ID m') = Hex L (msg_ID m)"
    by (simp add: queue_message_of_def oid_texts_ok_def)
  with assms(1) have "msg_ID m' = msg_ID m" unfolding oid_texts_ok_def oid_codec_ok_def
    by (metis sum.inject(2))
  with m'(1) \<open>r = None\<close> show "msg_ID m = i \<and> r = None" by simp
next
  assume "msg_ID m = i \<and> r = None"
  with assms(2) show "published_document L i e" unfolding published_document_def by blast
qed

lemma published_is_publish: "published_document L i e \<Longrightarrow> is_publish e"
  by (auto simp: published_document_def dest: to_queue_publish)

section \<open>The way of a document through a goroutine\<close>

text \<open>
  A goroutine other than a scheduler is outside. A scheduler rests, or holds the document since its
  last fetch, or has published it and is to record it. The record is not made when the update fails
  or the breaker does not admit it.
\<close>

datatype outbox = Outside | Resting | Holding | Recording

definition unrecorded :: "oid \<Rightarrow> event \<Rightarrow> bool" where
  "unrecorded i e \<longleftrightarrow>
     (\<exists>u err. e = Did (MongoUpdateOne i u) (Some err)) \<or>
     (\<exists>err. e = Did (BreakerAdmit (cb_Name mongo_breaker)) (Some err))"

lemma unrecorded_code [code]:
  "unrecorded i e \<longleftrightarrow>
     (case e of
        Did (MongoUpdateOne j u) (Some err) \<Rightarrow> j = i
      | Did (BreakerAdmit n) (Some err) \<Rightarrow> n = cb_Name mongo_breaker
      | _ \<Rightarrow> False)"
  by (auto simp: unrecorded_def split: event.splits eff.splits option.splits)

definition next_outbox :: "oid_codec \<Rightarrow> oid \<Rightarrow> outbox \<Rightarrow> event \<Rightarrow> outbox" where
  "next_outbox L i p e =
     (if p = Outside then Outside
      else if published_document L i e then Recording
      else case e of
        FetchedAll q (Inr ms) \<Rightarrow> if i \<in> msg_ID ` set ms then Holding else Resting
      | Did (MongoUpdateOne j u) r \<Rightarrow> if j = i \<and> p = Recording then Resting else p
      | _ \<Rightarrow> if unrecorded i e \<and> p = Recording then Resting else p)"

definition by_outbox :: "oid_codec \<Rightarrow> oid \<Rightarrow> outbox \<Rightarrow> event \<Rightarrow> bool" where
  "by_outbox L i p e \<longleftrightarrow>
     (published_document L i e \<longrightarrow> p = Holding) \<and>
     (\<forall>q r. e = FetchedAll q r \<longrightarrow> p \<noteq> Outside \<longrightarrow> p \<noteq> Recording \<and> where_status q = Some StatusUnsent) \<and>
     (\<forall>u. e = Did (MongoUpdateOne i u) None \<longrightarrow> p = Recording \<longrightarrow> set_status u = Some StatusProcessing)"

definition misfetched :: "event \<Rightarrow> bool" where
  "misfetched e \<longleftrightarrow> (\<exists>q ms. e = FetchedAll q (Inr ms) \<and> \<not> distinct (map msg_ID ms))"

abbreviation outboxed :: "oid_codec \<Rightarrow> oid \<Rightarrow> outbox \<Rightarrow> history \<Rightarrow> bool" where
  "outboxed L i \<equiv> accepts misfetched (by_outbox L i) (next_outbox L i)"

text \<open>A goroutine that publishes nothing of the document, and does not fetch, stays where it is.\<close>

lemma outside_outboxed: "\<forall>e\<in>set h. \<not> published_document L i e \<Longrightarrow> outboxed L i Outside h"
  by (induction h) (auto simp: by_outbox_def next_outbox_def)

lemma accepts_foldl:
  "accepts V A N p xs \<Longrightarrow> (\<exists>e\<in>set xs. V e) \<or> accepts V A N (foldl N p xs) ys \<Longrightarrow> accepts V A N p (xs @ ys)"
  by (induction xs arbitrary: p) auto

section \<open>The scheduler\<close>

text \<open>What the production sender does for one message, call by call.\<close>

lemma ends_bindD:
  "ends (bind p f) h (Done r) \<Longrightarrow> \<exists>h\<^sub>1 h\<^sub>2 x. h = h\<^sub>1 @ h\<^sub>2 \<and> ends p h\<^sub>1 (Done x) \<and> ends (f x) h\<^sub>2 (Done r)"
  by (auto simp: ends_bind)

lemma publish_history:
  "ends (rabbit_PublishMessage q) h (Done r) \<Longrightarrow>
     \<exists>t p. h = [Clock t, Did (AmqpPublish MainExchange MainQueueName p) r] \<and> pub_Body p = marshal_queue_message q"
  unfolding rabbit_PublishMessage_def by (auto simp: replay_simps)

lemma update_history:
  "ends (mongo_UpdateStatus i st) h (Done r) \<Longrightarrow>
     (\<exists>err. h = [Did (BreakerAdmit (cb_Name mongo_breaker)) (Some err)]) \<or>
     (\<exists>t r\<^sub>2 b r\<^sub>3. h = [Did (BreakerAdmit (cb_Name mongo_breaker)) None, Clock t,
        Did (MongoUpdateOne i (status_update st t)) r\<^sub>2, Did (BreakerReport (cb_Name mongo_breaker) b) r\<^sub>3])"
  unfolding mongo_UpdateStatus_def by (auto simp: replay_simps)

lemma sender_operations:
  "PublishMessage (sender_queue (sender_production mq)) = rabbit_PublishMessage"
  "UpdateStatus (sender_repository (sender_production mq)) = mongo_UpdateStatus"
  "FindUnsentMessages (sender_repository (sender_production mq)) = mongo_FindUnsentMessages"
  by (simp_all add: rabbitMQ_def mongoMessageRepository_def)

lemma handle_histories:
  assumes "ends (handleMessage L (sender_production mq) m) h (Done r)"
  obtains (failed) t p err where
      "h = [Clock t, Did (AmqpPublish MainExchange MainQueueName p) (Some err)]"
      "pub_Body p = marshal_queue_message (queue_message_of L m)"
  | (refused) t p err where
      "h = [Clock t, Did (AmqpPublish MainExchange MainQueueName p) None,
        Did (BreakerAdmit (cb_Name mongo_breaker)) (Some err)]"
      "pub_Body p = marshal_queue_message (queue_message_of L m)"
  | (updated) t p t' r\<^sub>2 b r\<^sub>3 where
      "h = [Clock t, Did (AmqpPublish MainExchange MainQueueName p) None,
        Did (BreakerAdmit (cb_Name mongo_breaker)) None, Clock t',
        Did (MongoUpdateOne (msg_ID m) (status_update StatusProcessing t')) r\<^sub>2,
        Did (BreakerReport (cb_Name mongo_breaker) b) r\<^sub>3]"
      "pub_Body p = marshal_queue_message (queue_message_of L m)"
proof -
  from ends_bindD [OF assms [unfolded handleMessage_def sender_operations]] obtain h\<^sub>1 h\<^sub>2 r\<^sub>1 where h: "h = h\<^sub>1 @ h\<^sub>2"
    and publish: "ends (rabbit_PublishMessage (queue_message_of L m)) h\<^sub>1 (Done r\<^sub>1)"
    and rest: "ends (case r\<^sub>1 of
        Some err \<Rightarrow> Return (Some (Errorf ''failed to publish message'' err))
      | None \<Rightarrow> bind (mongo_UpdateStatus (msg_ID m) StatusProcessing) (\<lambda>r. case r of
          Some err \<Rightarrow> Return (Some (Errorf ''failed to update message status'' err))
        | None \<Rightarrow> Return None)) h\<^sub>2 (Done r)" by blast
  from publish_history [OF publish] obtain t p where
    p: "h\<^sub>1 = [Clock t, Did (AmqpPublish MainExchange MainQueueName p) r\<^sub>1]"
      "pub_Body p = marshal_queue_message (queue_message_of L m)" by blast
  show thesis
  proof (cases r\<^sub>1)
    case (Some err)
    with rest have "h\<^sub>2 = []" by (simp add: ends_Return)
    with Some h p failed show thesis by simp
  next
    case None
    from ends_bindD [OF rest [unfolded None option.case]] obtain h\<^sub>3 h\<^sub>4 r\<^sub>2 where h2: "h\<^sub>2 = h\<^sub>3 @ h\<^sub>4"
      and update: "ends (mongo_UpdateStatus (msg_ID m) StatusProcessing) h\<^sub>3 (Done r\<^sub>2)"
      and "ends (case r\<^sub>2 of Some err \<Rightarrow> Return (Some (Errorf ''failed to update message status'' err))
        | None \<Rightarrow> Return None) h\<^sub>4 (Done r)" by blast
    from this(3) have "h\<^sub>4 = []" by (cases r\<^sub>2) (simp_all add: ends_Return)
    with update_history [OF update] show thesis
      by (elim disjE exE) (rule refused updated, use h h2 p None in simp_all)+
  qed
qed

lemma plain_outbox [simp]:
  "by_outbox L i p (Clock t)" "next_outbox L i p (Clock t) = p"
  "by_outbox L i p (Did (BreakerReport n b) r)" "next_outbox L i p (Did (BreakerReport n b) r) = p"
  "by_outbox L i p (Did (BreakerAdmit n) r)" "next_outbox L i p (Did (BreakerAdmit n) None) = p"
  "by_outbox L i p (Did (MongoFind q) r)" "next_outbox L i p (Did (MongoFind q) r) = p"
  "by_outbox L i p (Did (CursorClose q) r)" "next_outbox L i p (Did (CursorClose q) r) = p"
  by (auto simp: by_outbox_def next_outbox_def published_document_def to_main_def unrecorded_def)

lemma outbox_publish:
  assumes "oid_texts_ok L" and "pub_Body x = marshal_queue_message (queue_message_of L m)"
  shows "by_outbox L i p (Did (AmqpPublish MainExchange MainQueueName x) r) \<longleftrightarrow>
      (msg_ID m = i \<and> r = None \<longrightarrow> p = Holding)"
    and "p \<noteq> Outside \<Longrightarrow> next_outbox L i p (Did (AmqpPublish MainExchange MainQueueName x) r) =
      (if msg_ID m = i \<and> r = None then Recording else p)"
proof -
  have "published_document L i (Did (AmqpPublish MainExchange MainQueueName x) r) \<longleftrightarrow> msg_ID m = i \<and> r = None"
    by (rule published_of [OF assms(1)]) (simp add: to_main_def assms(2))
  then show "by_outbox L i p (Did (AmqpPublish MainExchange MainQueueName x) r) \<longleftrightarrow>
      (msg_ID m = i \<and> r = None \<longrightarrow> p = Holding)"
    and "p \<noteq> Outside \<Longrightarrow> next_outbox L i p (Did (AmqpPublish MainExchange MainQueueName x) r) =
      (if msg_ID m = i \<and> r = None then Recording else p)"
    by (auto simp: by_outbox_def next_outbox_def unrecorded_def)
qed

lemma outbox_update:
  "by_outbox L i p (Did (MongoUpdateOne j (status_update StatusProcessing t)) r)"
  "p \<noteq> Outside \<Longrightarrow> next_outbox L i p (Did (MongoUpdateOne j u) r) = (if j = i \<and> p = Recording then Resting else p)"
  "p \<noteq> Outside \<Longrightarrow> next_outbox L i p (Did (BreakerAdmit (cb_Name mongo_breaker)) (Some err)) =
     (if p = Recording then Resting else p)"
  by (auto simp: by_outbox_def next_outbox_def unrecorded_def published_document_def to_main_def status_update_def)

lemma handle_outboxed:
  assumes "ends (handleMessage L (sender_production mq) m) h (Done r)" and L: "oid_texts_ok L"
    and p: "p = Holding \<or> p = Resting \<and> msg_ID m \<noteq> i"
  shows "outboxed L i p h \<and>
    (foldl (next_outbox L i) p h = p \<or> msg_ID m = i \<and> foldl (next_outbox L i) p h = Resting)"
proof -
  have inside: "p \<noteq> Outside" using p by auto
  note publish = outbox_publish [OF L, of _ m]
  from assms(1) show ?thesis
  proof (cases rule: handle_histories)
    case (failed t x err)
    with publish [OF failed(2)] inside show ?thesis by simp
  next
    case (refused t x err)
    with publish [OF refused(2)] inside p show ?thesis by (auto simp: outbox_update)
  next
    case (updated t x t' r\<^sub>2 b r\<^sub>3)
    with publish [OF updated(2)] inside p show ?thesis by (auto simp: outbox_update)
  qed
qed

lemma loop_outboxed:
  assumes "ends (for_each ms (handleMessage L (sender_production mq))) h (Done u)" and L: "oid_texts_ok L"
    and "distinct (map msg_ID ms)" and "p = Holding \<or> p = Resting \<and> i \<notin> msg_ID ` set ms"
  shows "outboxed L i p h \<and> foldl (next_outbox L i) p h \<in> {Resting, Holding}"
  using assms(1,3,4)
proof (induction ms arbitrary: h p)
  case (Cons m ms)
  from Cons.prems(1) obtain h\<^sub>1 h\<^sub>2 r where h: "h = h\<^sub>1 @ h\<^sub>2"
    and one: "ends (handleMessage L (sender_production mq) m) h\<^sub>1 (Done r)"
    and rest: "ends (for_each ms (handleMessage L (sender_production mq))) h\<^sub>2 (Done u)"
    by (auto simp: ends_bind)
  have "p = Holding \<or> p = Resting \<and> msg_ID m \<noteq> i" using Cons.prems(3) by auto
  note first = handle_outboxed [OF one L this]
  let ?p = "foldl (next_outbox L i) p h\<^sub>1"
  have "?p = Holding \<or> ?p = Resting \<and> i \<notin> msg_ID ` set ms"
    using first Cons.prems(2,3) by auto
  with Cons.IH [OF rest, of ?p] Cons.prems(2) first show ?case
    by (auto simp: h intro: accepts_foldl)
qed (auto simp: ends_Return)

lemma find_history:
  assumes "ends (mongo_FindUnsentMessages n) h (Done r)"
  shows "(\<exists>err. h = [Did (BreakerAdmit (cb_Name mongo_breaker)) (Some err)] \<and> isl r) \<or>
    (\<exists>err b r'. h = [Did (BreakerAdmit (cb_Name mongo_breaker)) None, Did (MongoFind (unsent_query n)) (Some err),
       Did (BreakerReport (cb_Name mongo_breaker) b) r'] \<and> isl r) \<or>
    (\<exists>res r' r'' b. h = [Did (BreakerAdmit (cb_Name mongo_breaker)) None, Did (MongoFind (unsent_query n)) None,
       FetchedAll (unsent_query n) res, Did (CursorClose (unsent_query n)) r',
       Did (BreakerReport (cb_Name mongo_breaker) b) r''] \<and> wrap_result res = r)"
  using assms unfolding mongo_FindUnsentMessages_def find_all_def
  by (auto simp: ends_bind ends_Execute ends_Do ends_case_option ends_CursorAll ends_Return)

lemma batch_outboxed:
  assumes "ends (processUnsentMessages L (sender_production mq)) h (Done r)" and L: "oid_texts_ok L"
    and p: "p \<in> {Resting, Holding}"
  shows "outboxed L i p h \<and> ((\<exists>e\<in>set h. misfetched e) \<or> foldl (next_outbox L i) p h \<in> {Resting, Holding})"
proof -
  from ends_bindD [OF assms(1) [unfolded processUnsentMessages_def sender_operations]] obtain h\<^sub>1 h\<^sub>2 res where
    h: "h = h\<^sub>1 @ h\<^sub>2" and find: "ends (mongo_FindUnsentMessages (GetBatchSize (sender (sender_production mq)))) h\<^sub>1 (Done res)"
    and rest: "ends (case res of
        Inl err \<Rightarrow> Return (Some (Errorf ''failed to find unsent messages'' err))
      | Inr messages \<Rightarrow> bind (for_each messages (handleMessage L (sender_production mq))) (\<lambda>_. Return None)) h\<^sub>2 (Done r)"
    by blast
  have inside: "p \<noteq> Outside" "p \<noteq> Recording" using p by auto
  show ?thesis
  proof (cases res)
    case (Inl err)
    with rest have h2: "h\<^sub>2 = []" by (simp add: ends_Return)
    have fetched: "by_outbox L i p (FetchedAll (unsent_query n) (Inl e))"
      "next_outbox L i p (FetchedAll (unsent_query n) (Inl e)) = p" for n e
      using inside by (auto simp: by_outbox_def next_outbox_def published_document_def to_main_def
          unsent_query_def unrecorded_def)
    from find_history [OF find] show ?thesis
    proof (elim disjE exE conjE)
      fix res' r' r'' b
      assume "wrap_result res' = res" and "h\<^sub>1 = [Did (BreakerAdmit (cb_Name mongo_breaker)) None,
        Did (MongoFind (unsent_query (GetBatchSize (sender (sender_production mq))))) None,
        FetchedAll (unsent_query (GetBatchSize (sender (sender_production mq)))) res',
        Did (CursorClose (unsent_query (GetBatchSize (sender (sender_production mq))))) r',
        Did (BreakerReport (cb_Name mongo_breaker) b) r'']"
      with Inl h h2 p fetched show ?thesis by (cases res') auto
    qed (use h h2 p inside in \<open>auto simp: outbox_update\<close>)
  next
    case (Inr ms)
    with find_history [OF find] obtain r' r'' b where h1: "h\<^sub>1 = [Did (BreakerAdmit (cb_Name mongo_breaker)) None,
        Did (MongoFind (unsent_query 2)) None, FetchedAll (unsent_query 2) (Inr ms), Did (CursorClose (unsent_query 2)) r',
        Did (BreakerReport (cb_Name mongo_breaker) b) r'']"
      by (auto simp: GetBatchSize_def NewMessageSender_def)
    let ?p = "if i \<in> msg_ID ` set ms then Holding else Resting"
    have fetched: "by_outbox L i p (FetchedAll (unsent_query 2) (Inr ms))"
      "next_outbox L i p (FetchedAll (unsent_query 2) (Inr ms)) = ?p"
      using inside by (auto simp: by_outbox_def next_outbox_def published_document_def to_main_def unsent_query_def)
    have first: "outboxed L i p h\<^sub>1" "foldl (next_outbox L i) p h\<^sub>1 = ?p"
      unfolding h1 by (simp_all add: fetched)
    show ?thesis
    proof (cases "distinct (map msg_ID ms)")
      case False
      then have "\<exists>e\<in>set h\<^sub>1. misfetched e" unfolding h1 by (auto simp: misfetched_def)
      with first(1) show ?thesis unfolding h by (auto intro: accepts_foldl)
    next
      case True
      from rest Inr have "ends (for_each ms (handleMessage L (sender_production mq))) h\<^sub>2 (Done ())"
        by (auto simp: ends_bind ends_Return)
      from loop_outboxed [OF this L True, of ?p i] first show ?thesis
        unfolding h by (auto intro: accepts_foldl)
    qed
  qed
qed

lemma scheduler_outboxed:
  assumes "ends (scheduler_run L (sender_production mq) xs) h out" and L: "oid_texts_ok L"
    and "p \<in> {Resting, Holding}"
  shows "outboxed L i p h"
  using assms(1,3)
proof (induction xs arbitrary: h p)
  case (Cons x xs)
  show ?case
  proof (cases x)
    case TickerTick
    with Cons.prems(1) obtain h\<^sub>1 h\<^sub>2 r\<^sub>1 where h: "h = h\<^sub>1 @ h\<^sub>2"
      and batch: "ends (processUnsentMessages L (sender_production mq)) h\<^sub>1 (Done r\<^sub>1)"
      and rest: "ends (scheduler_run L (sender_production mq) xs) h\<^sub>2 out"
      by (auto simp: ends_bind_no_halt [OF sender.batch_returns])
    from batch_outboxed [OF batch L Cons.prems(2), of i] Cons.IH [OF rest] show ?thesis
      unfolding h by (intro accepts_foldl) auto
  qed (use Cons.prems in \<open>auto simp: ends_Return\<close>)
qed (auto simp: ends_Return)

section \<open>The other goroutines\<close>

lemma failure_not_main: "failure_spec n j body es out \<Longrightarrow> e \<in> set es \<Longrightarrow> \<not> to_main b r e"
  by (cases rule: failure_spec.cases) (auto simp: event_defs to_main_def)

lemma delivery_not_main: "delivery_spec n k j m body es out \<Longrightarrow> e \<in> set es \<Longrightarrow> \<not> to_main b r e"
  by (cases rule: delivery_spec.cases) (auto simp: event_defs to_main_def dest: failure_not_main [unfolded to_main_def])

lemma handler_not_main: "handler_spec L p d q\<^sub>0 H es out \<Longrightarrow> e \<in> set es \<Longrightarrow> \<not> to_main b r e"
  by (cases rule: handler_spec.cases) (auto simp: event_defs to_main_def dest: delivery_not_main [unfolded to_main_def])

lemma process_not_main: "process_spec L p d H es out \<Longrightarrow> e \<in> set es \<Longrightarrow> \<not> to_main b r e"
  by (auto simp: process_spec_def ack_spec_def to_main_def split: if_splits dest: handler_not_main [unfolded to_main_def])

lemma published_observed: "published_document L i e \<Longrightarrow> observed e"
  using published_is_publish is_publish_observed by blast

lemma consumer_not_published:
  assumes "ends (consume L (production n url timeout mq) rs) h out"
  shows "\<forall>e\<in>set h. \<not> published_document L i e"
  using assms
proof (rule consumer_histories)
  fix d x out
  assume spec: "process_spec L (NewMessageProcessor n (4 * Minute)) d x (trace x) out"
  show "\<forall>e\<in>set x. \<not> published_document L i e"
  proof (intro ballI notI)
    fix e assume e: "e \<in> set x" "published_document L i e"
    then have "e \<in> set (trace x)" using published_observed by auto
    with process_not_main [OF spec] e(2) show False by (auto simp: published_document_def)
  qed
qed auto

lemma monitor_not_published:
  assumes "ends (monitorStaleMessages L (production n url timeout mq) ts) h out"
  shows "\<forall>e\<in>set h. \<not> published_document L i e"
proof (intro ballI notI)
  fix e assume e: "e \<in> set h" "published_document L i e"
  then have "e \<in> set (trace h)" using published_observed by auto
  with monitor_trace_events [OF assms] e(2) show False
    by (auto simp: monitor_event_def published_document_def to_main_def to_dlq_def queue_names wrote_status_def)
qed

primrec is_scheduler :: "goroutine \<Rightarrow> bool" where
  "is_scheduler (Consumer url timeout mq rs) \<longleftrightarrow> False"
| "is_scheduler (Monitor url timeout mq ts) \<longleftrightarrow> False"
| "is_scheduler (SchedulerRun mq xs) \<longleftrightarrow> True"
| "is_scheduler (SenderRequest mq req) \<longleftrightarrow> False"
| "is_scheduler (ProcessorRequest mq) \<longleftrightarrow> False"

lemma goroutine_outboxed:
  assumes "replay (goroutine_prog L n g) h = Some rest" and L: "oid_texts_ok L"
  shows "outboxed L i (if is_scheduler g then Resting else Outside) h"
proof -
  from replay_extends [OF assms(1)] obtain h' out where run: "ends (goroutine_prog L n g) (h @ h') out"
    by blast
  have "outboxed L i (if is_scheduler g then Resting else Outside) (h @ h')"
  proof (cases g)
    case (Consumer url timeout mq rs)
    with run consumer_not_published show ?thesis by (simp del: set_append) (blast intro: outside_outboxed)
  next
    case (Monitor url timeout mq ts)
    with run monitor_not_published show ?thesis by (simp del: set_append) (blast intro: outside_outboxed)
  next
    case (SchedulerRun mq xs)
    with run scheduler_outboxed [OF _ L] show ?thesis by simp
  next
    case (SenderRequest mq req)
    with run request_events(1) have "\<forall>e\<in>set (h @ h'). request_event g e"
      unfolding emits_def by blast
    then have "\<forall>e\<in>set (h @ h'). \<not> published_document L i e"
      using published_is_publish by (fastforce simp: plain_event_def inserted_for_def is_publish_def)
    with SenderRequest show ?thesis by (simp del: set_append) (blast intro: outside_outboxed)
  next
    case (ProcessorRequest mq)
    with run request_events(2) have "\<forall>e\<in>set (h @ h'). plain_event e"
      unfolding emits_def by blast
    then have "\<forall>e\<in>set (h @ h'). \<not> published_document L i e"
      using published_is_publish by (fastforce simp: plain_event_def)
    with ProcessorRequest show ?thesis by (simp del: set_append) (blast intro: outside_outboxed)
  qed
  then show ?thesis by (rule accepts_prefix)
qed

section \<open>The balance\<close>

text \<open>
  The balance is the number of publications of the document less that of the failures to record one.
  While the document is unsent, it is covered by the goroutines that are to record a publication;
  from then on, those that hold the document are what is left of it.
\<close>

definition unsent_in :: "('w \<Rightarrow> oid \<Rightarrow> message option) \<Rightarrow> oid \<Rightarrow> 'w \<Rightarrow> bool" where
  "unsent_in docs i w \<longleftrightarrow> (\<forall>m. docs w i = Some m \<longrightarrow> msg_Status m = StatusUnsent)"

abbreviation holding :: "outbox list \<Rightarrow> int" where
  "holding ps \<equiv> int (count_events (\<lambda>p. p = Holding) ps)"

abbreviation recording :: "outbox list \<Rightarrow> int" where
  "recording ps \<equiv> int (count_events (\<lambda>p. p = Recording) ps)"

definition publications_earned ::
  "('w \<Rightarrow> oid \<Rightarrow> message option) \<Rightarrow> oid \<Rightarrow> nat \<Rightarrow> outbox list \<Rightarrow> 'w \<Rightarrow> int \<Rightarrow> bool" where
  "publications_earned docs i N ps w k \<longleftrightarrow>
     count_events (\<lambda>p. p \<noteq> Outside) ps = N \<and>
     (if unsent_in docs i w then k \<le> recording ps else k + holding ps \<le> int N) \<and>
     (\<forall>p\<in>set ps. p = Holding \<or> p = Recording \<longrightarrow> docs w i \<noteq> None)"

definition publication_balance :: "oid_codec \<Rightarrow> oid \<Rightarrow> event \<Rightarrow> int" where
  "publication_balance L i e = one (published_document L i) e - one (unrecorded i) e"

lemma phases_inside: "holding ps + recording ps \<le> int (count_events (\<lambda>p. p \<noteq> Outside) ps)"
  by (induction ps) auto

lemma next_outbox_outside: "next_outbox L i p e = Outside \<longleftrightarrow> p = Outside"
  by (auto simp: next_outbox_def split: event.splits eff.splits sum.splits if_splits)

lemma next_outbox_cases:
  obtains (published) "published_document L i e" "p \<noteq> Outside" "next_outbox L i p e = Recording"
  | (fetched) q ms where "e = FetchedAll q (Inr ms)" "p \<noteq> Outside"
      "next_outbox L i p e = (if i \<in> msg_ID ` set ms then Holding else Resting)"
  | (updated) u r where "e = Did (MongoUpdateOne i u) r" "p = Recording" "next_outbox L i p e = Resting"
  | (refused) "unrecorded i e" "\<forall>u r. e \<noteq> Did (MongoUpdateOne i u) r" "p = Recording" "next_outbox L i p e = Resting"
  | (stays) "\<not> published_document L i e \<or> p = Outside" "next_outbox L i p e = p"
proof (cases "p = Outside")
  case True
  then show thesis using stays by (simp add: next_outbox_def)
next
  case inside: False
  show thesis
  proof (cases "published_document L i e")
    case True
    with inside published show thesis by (simp add: next_outbox_def)
  next
    case no: False
    show thesis
    proof (cases e)
      case (FetchedAll q r)
      with no inside fetched stays show thesis
        by (cases r) (auto simp: next_outbox_def unrecorded_def)
    next
      case (Did f r)
      show thesis
      proof (cases "next_outbox L i p e = p")
        case False
        with Did no inside have "p = Recording" "next_outbox L i p e = Resting"
          "(\<exists>u. f = MongoUpdateOne i u) \<or> unrecorded i e \<and> (\<forall>j u. f \<noteq> MongoUpdateOne j u)"
          by (cases f; auto simp: next_outbox_def split: if_splits)+
        with Did updated refused show thesis by blast
      qed (use no stays in blast)
    qed (use no inside stays in \<open>auto simp: next_outbox_def unrecorded_def\<close>)
  qed
qed

text \<open>A document that is no longer unsent stays so, and one that is there stays there.\<close>

lemma unsent_in_step:
  assumes "document_store E docs" and "answers E w e w'" and "advances e"
  shows "\<not> unsent_in docs i w \<Longrightarrow> \<not> unsent_in docs i w'" and "docs w i \<noteq> None \<Longrightarrow> docs w' i \<noteq> None"
proof -
  have step: "\<exists>m'. docs w' i = Some m' \<and> advanced m m'" if "docs w i = Some m" for m
    using docs_step [OF assms that] by blast
  then show "\<not> unsent_in docs i w \<Longrightarrow> \<not> unsent_in docs i w'" and "docs w i \<noteq> None \<Longrightarrow> docs w' i \<noteq> None"
    by (fastforce simp: unsent_in_def advanced_def)+
qed

lemma publications_earned_step:
  assumes store: "document_store E docs" and inv: "publications_earned docs i N ps w k"
    and j: "j < length ps" and e: "answers E w e w'" and adv: "advances e"
    and by_outbox: "by_outbox L i (ps ! j) e"
  shows "publications_earned docs i N (ps[j := next_outbox L i (ps ! j) e]) w' (k + publication_balance L i e)"
proof -
  let ?p = "ps ! j"
  let ?p' = "next_outbox L i ?p e"
  let ?ps = "ps[j := ?p']"
  note law = store [unfolded document_store_def, rule_format, OF e]
  note counts = count_update [OF j, of "\<lambda>p. p = Holding" ?p'] count_update [OF j, of "\<lambda>p. p = Recording" ?p']
    count_update [OF j, of "\<lambda>p. p \<noteq> Outside" ?p']
  note stays_sent = unsent_in_step(1) [OF store e adv, of i] and stays = unsent_in_step(2) [OF store e adv, of i]
  have N: "count_events (\<lambda>p. p \<noteq> Outside) ps = N"
    and balance: "if unsent_in docs i w then k \<le> recording ps else k + holding ps \<le> int N"
    and there: "\<forall>p\<in>set ps. p = Holding \<or> p = Recording \<longrightarrow> docs w i \<noteq> None"
    using inv by (auto simp: publications_earned_def)
  have bound: "holding ps + recording ps \<le> int N" using phases_inside [of ps] N by simp
  have mem: "?p \<in> set ps" using j by simp
  have not_unrecorded: "published_document L i e \<Longrightarrow> \<not> unrecorded i e"
    by (auto simp: published_document_def to_main_def unrecorded_def)
  have N': "count_events (\<lambda>p. p \<noteq> Outside) ?ps = N" using counts(3) N by (simp add: next_outbox_outside split: if_splits)
  have there': "\<forall>p\<in>set ?ps. p = Holding \<or> p = Recording \<longrightarrow> docs w' i \<noteq> None"
    if that: "?p' = Holding \<or> ?p' = Recording \<longrightarrow> docs w' i \<noteq> None"
  proof (intro ballI impI)
    fix p assume p: "p \<in> set ?ps" "p = Holding \<or> p = Recording"
    from p(1) have "p = ?p' \<or> p \<in> set ps" using set_update_subset_insert [of ps j ?p'] by auto
    then show "docs w' i \<noteq> None"
    proof
      assume "p = ?p'"
      with p(2) have "?p' = Holding \<or> ?p' = Recording" by (simp only:)
      with that show ?thesis by (rule mp)
    next
      assume "p \<in> set ps"
      with there p(2) have "docs w i \<noteq> None" by blast
      then show ?thesis by (rule stays)
    qed
  qed
  show ?thesis
  proof (cases rule: next_outbox_cases [of L i e ?p])
    case published
    then have p: "?p = Holding" using by_outbox by (simp add: by_outbox_def)
    have "docs w' = docs w" using law published(1) by (auto simp: published_document_def to_main_def)
    then have "unsent_in docs i w' = unsent_in docs i w" by (simp add: unsent_in_def)
    moreover have "docs w' i \<noteq> None" using there mem p stays by blast
    ultimately show ?thesis
      using counts p published(1,3) not_unrecorded balance N' there'
      by (auto simp: publications_earned_def publication_balance_def split: if_splits)
  next
    case (fetched q ms)
    have p: "?p \<noteq> Recording" "where_status q = Some StatusUnsent"
      using by_outbox fetched(1,2) by (auto simp: by_outbox_def)
    have docs: "docs w' = docs w" using law fetched(1) by simp
    have new: "unsent_in docs i w \<and> docs w i \<noteq> None" if "?p' = Holding"
      using that law fetched p(2) by (auto simp: unsent_in_def selects_def split: if_splits)
    have c: "publication_balance L i e = 0"
      using fetched(1) by (simp add: publication_balance_def published_document_def to_main_def unrecorded_def)
    have same: "unsent_in docs i w' = unsent_in docs i w" using docs by (simp add: unsent_in_def)
    have "recording ?ps = recording ps" using counts(2) p(1) fetched(3) by (simp split: if_splits)
    moreover have "\<not> unsent_in docs i w \<Longrightarrow> holding ?ps \<le> holding ps"
      using counts(1) new by (auto split: if_splits)
    ultimately show ?thesis
      using balance c same N' there' new docs fetched(3)
      by (auto simp: publications_earned_def split: if_splits)
  next
    case (updated u r)
    have c: "publication_balance L i e = (if r = None then 0 else - 1)"
      using updated(1) by (auto simp: publication_balance_def published_document_def to_main_def unrecorded_def)
    have rec: "recording ?ps = recording ps - 1" "holding ?ps = holding ps"
      using counts(1,2) updated by (simp_all split: if_splits)
    have "\<not> unsent_in docs i w'" if "r = None"
    proof -
      have "set_status u = Some StatusProcessing" using by_outbox updated(1,2) that by (simp add: by_outbox_def)
      moreover have "docs w i \<noteq> None" using there mem updated(2) by blast
      ultimately show ?thesis using law updated(1) that by (auto simp: unsent_in_def apply_update_def)
    qed
    then show ?thesis
      using c rec balance bound N' there' updated(3) stays_sent
      by (auto simp: publications_earned_def split: if_splits)
  next
    case refused
    then obtain err where err: "e = Did (BreakerAdmit (cb_Name mongo_breaker)) (Some err)"
      by (auto simp: unrecorded_def)
    then have c: "publication_balance L i e = - 1"
      by (auto simp: publication_balance_def published_document_def to_main_def unrecorded_def)
    have "docs w' = docs w" using law err by simp
    then have "unsent_in docs i w' = unsent_in docs i w" by (simp add: unsent_in_def)
    moreover have "recording ?ps = recording ps - 1" "holding ?ps = holding ps"
      using counts(1,2) refused by (simp_all split: if_splits)
    ultimately show ?thesis
      using c balance N' there' refused(4) by (auto simp: publications_earned_def split: if_splits)
  next
    case stays
    have c: "publication_balance L i e \<le> 0"
      using stays(1) by_outbox by (auto simp: publication_balance_def by_outbox_def)
    have ps: "?ps = ps" using stays(2) by (metis list_update_id)
    have "?p' = Holding \<or> ?p' = Recording \<longrightarrow> docs w' i \<noteq> None"
      using there mem unsent_in_step(2) [OF store e adv, of i] stays(2) by auto
    from there' [OF this] show ?thesis
      unfolding publications_earned_def ps
      using c balance bound N stays_sent by (auto split: if_splits)
  qed
qed

lemma publications_keep:
  assumes "document_store E docs"
  shows "keeps E misfetched (by_outbox L i) (next_outbox L i) advances (publication_balance L i)
    (publications_earned docs i N)"
proof -
  have "\<not> misfetched e" if "answers E w e w'" for w e w'
    using assms [unfolded document_store_def, rule_format, OF that] by (auto simp: misfetched_def)
  with publications_earned_step [OF assms] show ?thesis unfolding keeps_def by blast
qed

lemma sum_balance:
  "sum_list (map (publication_balance L i) h) =
     int (count_events (published_document L i) h) - int (count_events (unrecorded i) h)"
  by (induction h) (auto simp: publication_balance_def)

section \<open>An environment in which updates fail\<close>

text \<open>The in-memory environment, in which the first updates of documents fail: as many as are left.\<close>

definition unlucky :: "(sim \<times> nat) env" where
  "unlucky =
     \<lparr>on_do = (\<lambda>e (w, k). case e of
        MongoUpdateOne i u \<Rightarrow>
          if 0 < k then (Some (GoErr ''down''), (w, k - 1))
          else (let (r, w') = sim_on_do e w in (r, (w', k)))
      | _ \<Rightarrow> (let (r, w') = sim_on_do e w in (r, (w', k)))),
      on_now = (\<lambda>(w, k). (sim_clock w, (w, k))),
      on_new_oid = (\<lambda>(w, k). (1, (w, k))),
      on_find_one = (\<lambda>i (w, k). (sim_find i w, (w, k))),
      on_cursor_all = (\<lambda>q (w, k). (sim_cursor q w, (w, k))),
      on_redis_get = (\<lambda>key (w, k). (sim_get key w, (w, k))),
      on_http_do = (\<lambda>_ _ _ (w, k). let (r, w') = sim_post w in (r, (w', k))),
      on_http_read = (\<lambda>(w, k). (Inr [], (w, k))),
      on_allow = (\<lambda>(w, k). (True, (w, k))),
      on_inspect = (\<lambda>q (w, k). (Inr 0, (w, k)))\<rparr>"

lemma unlucky_answers:
  assumes "answers unlucky wk e wk'"
  shows "answers sim_env (fst wk) e (fst wk') \<or>
    fst wk' = fst wk \<and> (\<exists>i u err. e = Did (MongoUpdateOne i u) (Some err))"
proof (cases e)
  case (Did f r)
  with assms show ?thesis
    by (cases wk; cases f) (auto simp: unlucky_def sim_env_def split: prod.splits if_splits)
qed (use assms in \<open>cases wk; auto simp: unlucky_def sim_env_def split: prod.splits\<close>)+

lemma unlucky_document_store: "document_store unlucky (\<lambda>wk. sim_docs (fst wk))"
  unfolding document_store_def
proof (intro allI impI)
  fix wk e wk' assume "answers unlucky wk e wk'"
  from unlucky_answers [OF this] show "case e of
        Did (MongoUpdateOne i u) r \<Rightarrow>
          sim_docs (fst wk') = (sim_docs (fst wk))(i := map_option (apply_update u) (sim_docs (fst wk) i)) \<or>
          r \<noteq> None \<and> sim_docs (fst wk') = sim_docs (fst wk)
      | Did (MongoInsertOne m) r \<Rightarrow>
          (\<exists>i. sim_docs (fst wk) i = None \<and> (\<not> IsZero (msg_ID m) \<longrightarrow> i = msg_ID m) \<and>
             sim_docs (fst wk') = (sim_docs (fst wk))(i \<mapsto> m\<lparr>msg_ID := i\<rparr>)) \<or>
          r \<noteq> None \<and> sim_docs (fst wk') = sim_docs (fst wk)
      | FoundOne i a \<Rightarrow>
          sim_docs (fst wk') = sim_docs (fst wk) \<and>
          (case a of Found m \<Rightarrow> sim_docs (fst wk) i = Some m \<and> msg_ID m = i
           | ErrNoDocuments \<Rightarrow> sim_docs (fst wk) i = None | FindOneError _ \<Rightarrow> True)
      | FetchedAll q (Inr ms) \<Rightarrow>
          sim_docs (fst wk') = sim_docs (fst wk) \<and>
          (\<forall>m\<in>set ms. sim_docs (fst wk) (msg_ID m) = Some m \<and> selects q m) \<and> distinct (map msg_ID ms)
      | _ \<Rightarrow> sim_docs (fst wk') = sim_docs (fst wk)"
    using sim_document_store [unfolded document_store_def, rule_format, of "fst wk" e "fst wk'"] by auto
qed

definition waiting_message :: message where
  "waiting_message = sample_message\<lparr>msg_Status := StatusUnsent\<rparr>"

text \<open>Three batches of one scheduler; the first update of a status fails.\<close>

definition unlucky_world :: "sim \<times> nat" where
  "unlucky_world = ((sample_world [] [])\<lparr>sim_docs := [7 \<mapsto> waiting_message]\<rparr>, 1)"

definition unlucky_scheduler :: goroutine where
  "unlucky_scheduler = SchedulerRun sample_mq [TickerTick, TickerTick, TickerTick]"

definition three_batches :: "history \<times> (sim \<times> nat)" where
  "three_batches = one_by_one unlucky decimal_codec 5 [unlucky_scheduler] unlucky_world"

lemma valid_utf8_ascii: "(\<And>c. c \<in> set s \<Longrightarrow> byte c < 128) \<Longrightarrow> valid_utf8 s"
proof (induction s)
  case (Cons c s)
  then have "utf8_width (c # s) = 1" by simp
  with Cons show ?case by simp
qed simp

lemma decimal_texts_ok: "oid_texts_ok decimal_codec"
proof -
  have "valid_utf8 (show_nat n)" for n
  proof (rule valid_utf8_ascii)
    fix c assume "c \<in> set (show_nat n)"
    then have "is_digit c" by (rule show_nat_digits)
    then show "byte c < 128" by (simp add: is_digit_def)
  qed
  then have "valid_utf8 (Hex decimal_codec i)" for i by (simp add: decimal_codec_def)
  then show ?thesis unfolding oid_texts_ok_def by (simp add: decimal_codec_ok)
qed

section \<open>Properties\<close>

text \<open>
  C7: the outbox, in any interleaving of any number of goroutines of both services, each possibly
  killed, and whatever fails: a document is published to the main queue at most once for every
  goroutine of a scheduler that was ever started, and once more for every update of the document
  that failed and every time the breaker of the repository refused a call. With one scheduler and
  no such failure it is published once.
\<close>

theorem publications_bounded:
  assumes "document_store E docs" and "oid_texts_ok L"
    and "system_history L n gs h" and "follows E w h w'"
  shows "count_events (published_document L i) h \<le>
    length (filter is_scheduler gs) + count_events (unrecorded i) h"
proof -
  from assms(3) obtain hs where hs: "merges hs h" "length hs = length gs"
    "\<And>j. j < length gs \<Longrightarrow> \<exists>rest. replay (goroutine_prog L n (gs ! j)) (hs ! j) = Some rest"
    by (rule system_goroutine) blast
  let ?ps = "map (\<lambda>g. if is_scheduler g then Resting else Outside) gs"
  let ?N = "length (filter is_scheduler gs)"
  have inside: "count_events (\<lambda>p. p \<noteq> Outside) ?ps = ?N" by (induction gs) auto
  have "count_events (\<lambda>p. p = Holding) ?ps = 0" "count_events (\<lambda>p. p = Recording) ?ps = 0"
    by (auto simp: filter_empty_conv)
  with inside have start: "publications_earned docs i ?N ?ps w 0"
    by (auto simp: publications_earned_def split: if_splits)
  have allowed: "outboxed L i (?ps ! j) (hs ! j)" if "j < length hs" for j
    using hs(2,3) that goroutine_outboxed [OF _ assms(2)] by fastforce
  have adv: "\<forall>e\<in>set h. advances e" using system_advances [OF assms(3)] by blast
  have "\<exists>ps'. publications_earned docs i ?N ps' w' (0 + sum_list (map (publication_balance L i) h))"
    by (rule merged_invariant [OF publications_keep [OF assms(1)] hs(1) _ _ adv assms(4) start])
      (use allowed hs(2) in simp_all)
  then obtain ps' where "publications_earned docs i ?N ps' w' (sum_list (map (publication_balance L i) h))"
    by auto
  then have "sum_list (map (publication_balance L i) h) \<le> int ?N"
    using phases_inside [of ps'] by (auto simp: publications_earned_def split: if_splits)
  then show ?thesis unfolding sum_balance by simp
qed

theorem publications_bounded_witness:
  "count_events (published_document decimal_codec 7) (fst three_batches) \<le> 2 \<and>
   count_events (unrecorded 7) (fst three_batches) = 1 \<and>
   count_events is_publish (fst three_batches) = 2"
proof -
  have failures: "count_events (unrecorded 7) (fst three_batches) = 1" by code_simp
  have "count_events (published_document decimal_codec 7) (fst three_batches) \<le>
      length (filter is_scheduler [unlucky_scheduler]) + count_events (unrecorded 7) (fst three_batches)"
    unfolding three_batches_def
    by (rule publications_bounded [OF unlucky_document_store decimal_texts_ok one_by_one_system one_by_one_follows])
  with failures have "count_events (published_document decimal_codec 7) (fst three_batches) \<le> 2"
    by (simp add: unlucky_scheduler_def)
  moreover have "count_events is_publish (fst three_batches) = 2" by code_simp
  ultimately show ?thesis using failures by blast
qed

end
