(* ===== verification/Call_Bounds.thy ===== *)
theory Call_Bounds
  imports Processor_Loops
begin

text \<open>How many calls a delivery makes at most, whatever is answered.\<close>

section \<open>Bounds of programs\<close>

definition at_most :: "nat \<Rightarrow> 'a prog \<Rightarrow> bool" where
  "at_most n p \<longleftrightarrow> (\<forall>h out. ends p h out \<longrightarrow> length h \<le> n)"

named_theorems at_most_intros

lemma at_most_leaves [at_most_intros]: "at_most n (Return x)" "at_most n (Halt y)"
  by (simp_all add: at_most_def replay_simps)

lemma at_most_calls [at_most_intros]:
  "0 < n \<Longrightarrow> (\<And>r. at_most (n - 1) (k1 r)) \<Longrightarrow> at_most n (Do e k1)"
  "0 < n \<Longrightarrow> (\<And>t. at_most (n - 1) (k2 t)) \<Longrightarrow> at_most n (Now k2)"
  "0 < n \<Longrightarrow> (\<And>r. at_most (n - 1) (k3 r)) \<Longrightarrow> at_most n (MongoFindOne i k3)"
  "0 < n \<Longrightarrow> (\<And>r. at_most (n - 1) (k4 r)) \<Longrightarrow> at_most n (CursorAll q k4)"
  "0 < n \<Longrightarrow> (\<And>r. at_most (n - 1) (k5 r)) \<Longrightarrow> at_most n (RedisGet key k5)"
  "0 < n \<Longrightarrow> (\<And>r. at_most (n - 1) (k6 r)) \<Longrightarrow> at_most n (HttpDo m u b k6)"
  "0 < n \<Longrightarrow> (\<And>r. at_most (n - 1) (k7 r)) \<Longrightarrow> at_most n (HttpReadBody k7)"
  unfolding at_most_def replay_simps by fastforce+

lemma at_most_bind: "at_most a p \<Longrightarrow> (\<And>x. at_most (n - a) (f x)) \<Longrightarrow> a \<le> n \<Longrightarrow> at_most n (bind p f)"
  unfolding at_most_def replay_simps by (fastforce simp: le_diff_conv2)

lemma at_most_mono: "at_most a p \<Longrightarrow> a \<le> n \<Longrightarrow> at_most n p"
  unfolding at_most_def by (meson le_trans)

lemma at_most_Execute:
  assumes "at_most n p"
  shows "at_most (n + 2) (Execute cb p)"
proof -
  have "at_most (n + 1) (bind p (\<lambda>res. perform_ignoring (BreakerReport (cb_Name cb) (\<not> isl res)) (Return res)))"
    by (rule at_most_bind [OF assms]) (auto intro!: at_most_intros)
  then show ?thesis
    unfolding Execute_def by (auto intro!: at_most_intros split: option.splits)
qed

lemma at_most_wrapped:
  "at_most a p \<Longrightarrow> a + 2 \<le> n \<Longrightarrow> at_most n (bind (Execute cb p) (\<lambda>res. Return (f res)))"
  by (rule at_most_bind [OF at_most_Execute]) (auto intro!: at_most_intros)

section \<open>The adapters\<close>

lemmas at_most_splits = option.splits sum.splits find_one_result.splits redis_reply.splits

lemma at_most_mongo:
  "at_most 4 (mongo_UpdateStatus i st)" "at_most 4 (mongo_IncrementRetryCount i)" "at_most 1 (mongo_GetByID i)"
  unfolding mongo_UpdateStatus_def mongo_IncrementRetryCount_def mongo_GetByID_def
  by (rule at_most_wrapped [where a = 2] at_most_intros;
      auto intro!: at_most_intros split: at_most_splits)+

lemma at_most_redis:
  "at_most 3 (redis_IsProcessed k)" "at_most 4 (redis_MarkAsProcessed k)"
  "at_most 3 (redis_StoreWebhookMessageID k v d)"
  unfolding idempotency_defs
  by (rule at_most_wrapped [where a = 1] at_most_wrapped [where a = 2];
      auto intro!: at_most_intros split: at_most_splits; fail)+

lemma at_most_rabbit:
  "at_most 2 (rabbit_MoveToDeadLetter d)" "at_most 2 (rabbit_MoveToRetryQueue d)" "at_most 2 (rabbit_PublishMessage q)"
  unfolding rabbit_defs Let_def by (auto intro!: at_most_intros)

lemma at_most_webhook: "at_most 7 (http_SendMessage c content to')"
proof -
  have post: "at_most 4 (post_message url content to')" for url
    unfolding post_message_def Let_def
    by (auto intro!: at_most_intros split: option.splits sum.splits)
  have "at_most 6 (bind (Execute cb (post_message url content to')) (\<lambda>res. Return (f res)))" for cb url f
    by (rule at_most_wrapped [OF post]) simp
  then have "at_most 6 (case r of Some err \<Rightarrow> Return (Inl (Errorf ''rate limit exceeded'' err))
     | None \<Rightarrow> bind (Execute (hwc_cb c) (post_message (baseURL c) content to'))
         (\<lambda>res. Return (case res of Inl err \<Rightarrow> Inl (breaker_error err) | Inr w \<Rightarrow> Inr (Some w))))" for r
    by (auto intro!: at_most_intros split: option.splits)
  moreover have "at_most 1 (rl_Wait (rateLimiter c))"
    unfolding rl_Wait_def by (auto intro!: at_most_intros)
  ultimately show ?thesis
    unfolding http_SendMessage_def by (intro at_most_bind [where a = 1]) simp_all
qed

section \<open>The handler of a delivery\<close>

lemma at_most_parts:
  assumes "s = production n url timeout mq"
  shows "at_most 4 (UpdateStatus (repository s) i st)" "at_most 4 (IncrementRetryCount (repository s) i)"
    "at_most 1 (GetByID (repository s) i)" "at_most 2 (MoveToDeadLetter (queue s) d)"
    "at_most 2 (MoveToRetryQueue (queue s) d)" "at_most 3 (IsProcessed (idempotencyService s) k)"
    "at_most 4 (MarkAsProcessed (idempotencyService s) k)"
    "at_most 3 (StoreWebhookMessageID (idempotencyService s) k v t)" "at_most 7 (webhookClient s c to')"
  unfolding assms production_parts
  by (simp_all add: mongoMessageRepository_def rabbitMQ_def redisIdempotencyService_def at_most_mongo
      at_most_mongo(3) [unfolded One_nat_def] at_most_redis at_most_rabbit at_most_webhook)

lemmas at_most_binds = at_most_parts [THEN at_most_bind]

lemma at_most_failure:
  assumes "s = production n url timeout mq"
  shows "at_most 15 (handleWebhookError s d m err)"
  unfolding handleWebhookError_def deref_def
  by (auto intro!: at_most_binds [OF assms] at_most_leaves split: option.split sum.split)

lemma at_most_delivery:
  assumes "s = production n url timeout mq"
  shows "at_most 22 (deliverMessage s d q i m)"
proof -
  have "at_most 3 (storeWebhookID s q w)" for w
    unfolding storeWebhookID_def
    by (auto intro!: at_most_binds [OF assms] at_most_leaves split: option.split)
  moreover have "at_most 8 (handleSuccessfulProcessing s q i)"
    unfolding handleSuccessfulProcessing_def
    by (auto intro!: at_most_binds [OF assms] at_most_leaves split: option.split)
  ultimately have "at_most 15 (bind (storeWebhookID s q w) (\<lambda>_. handleSuccessfulProcessing s q i))" for w
    by (rule at_most_bind [OF _ at_most_mono]) simp_all
  with at_most_failure [OF assms] show ?thesis
    unfolding deliverMessage_def
    by (intro at_most_binds(9) [OF assms]) (auto split: sum.split)
qed

lemma at_most_handler:
  assumes "s = production n url timeout mq"
  shows "at_most 27 (handleMessageProcessing L s d q)"
proof -
  have should: "at_most 1 (ShouldProcessMessage p m)" for p m
    unfolding ShouldProcessMessage_def deref_def
    by (auto intro!: at_most_intros split: option.split)
  have deliver: "at_most 22 (deref m (\<lambda>m. deliverMessage s d q i m))" for m q i
    using at_most_delivery [OF assms] by (auto simp: deref_def intro: at_most_leaves split: option.split)
  have "at_most 6 (handleStaleMessage s d m)" "at_most 6 (handleMaxRetriesReached s d m)"
    "at_most 4 (handleDuplicateMessage L s q)" "at_most 2 (handleInvalidID s d err)"
    "at_most 2 (handleMalformedMessage s d err)" for m q err
    unfolding handleStaleMessage_def handleMaxRetriesReached_def handleDuplicateMessage_def
      handleInvalidID_def handleMalformedMessage_def deref_def
    by (auto intro!: at_most_binds [OF assms] at_most_leaves split: option.split sum.split)
  note handled = this [THEN at_most_mono]
  show ?thesis
    unfolding handleMessageProcessing_def
    by (auto intro!: at_most_binds(3,6) [OF assms] at_most_bind [OF should] at_most_calls at_most_leaves
        handled deliver split: option.split sum.split)
qed

lemma at_most_process: "at_most 28 (processMessage L (production n url timeout mq) d)"
proof -
  have "at_most 1 (if 0 < DeliveryTag d then perform_ignoring (AmqpAck (DeliveryTag d)) (Return ()) else Return ())"
    by (auto intro!: at_most_intros)
  then show ?thesis
    unfolding processMessage_def
    by (rule at_most_bind)
      (auto intro!: at_most_bind [OF at_most_handler [OF refl]] at_most_leaves split: option.split)
qed

lemma at_most_consume: "at_most (28 * length rs) (consume L (production n url timeout mq) rs)"
proof (induction rs)
  case (Cons r rs)
  then show ?case
    by (auto intro!: at_most_bind [OF at_most_process] at_most_leaves split: received.split)
qed (simp add: at_most_leaves)

lemma consume_stops:
  "ends (consume L (production n url timeout mq) rs) h (Stopped y) \<Longrightarrow> y = NilDereference"
proof (induction rs arbitrary: h)
  case (Cons r rs)
  from Cons.prems show ?case
  proof (cases rule: production.consume_Cons)
    case (panic d y)
    with process_trace [OF production.process_refines [OF panic(2)]] show ?thesis by auto
  qed (use Cons.IH in auto)
qed (auto simp: replay_simps)

section \<open>Property\<close>

text \<open>
  C22: the handling of deliveries ends, whatever the services answer: a delivery takes at most
  twenty-eight calls, and a consumer that got \<open>k\<close> deliveries at most \<open>28 * k\<close>; it ends normally or
  in the dereference of a nil document.
\<close>

theorem deliveries_end:
  "\<exists>out h w'. run E (consume L (production n url timeout mq) rs) w = (out, h, w') \<and>
     length h \<le> 28 * length rs \<and> (out = Done () \<or> out = Stopped NilDereference)"
proof -
  obtain out h w' where run: "run E (consume L (production n url timeout mq) rs) w = (out, h, w')"
    by (rule prod_cases3)
  then have ends: "ends (consume L (production n url timeout mq) rs) h out" by (rule run_ends)
  with at_most_consume have "length h \<le> 28 * length rs" unfolding at_most_def by blast
  moreover have "out = Done () \<or> out = Stopped NilDereference"
    using consume_stops ends by (cases out) auto
  ultimately show ?thesis using run by blast
qed

end
