(* ===== verification/Adapter_Properties.thy ===== *)
theory Adapter_Properties
  imports System
begin

text \<open>
  The properties of the sender's batches and of the adapters: the queue, the inbox, the repository,
  the webhook client and the circuit breakers.
\<close>

section \<open>The sender\<close>

text \<open>
  C23: every batch does exactly this, whatever fails: it asks for at most two unsent messages, and
  for each of those it gets, in order, publishes it to the main queue and, if that succeeded,
  tries once to set it to processing. The failure of one message does not stop the others.
\<close>

theorem batch_follows_specification:
  "case run E (processUnsentMessages L (sender_production mq)) w of
     (out, h, w') \<Rightarrow> batch_spec L 2 (trace h) out"
proof -
  obtain out h w' where run: "run E (processUnsentMessages L (sender_production mq)) w = (out, h, w')"
    by (rule prod_cases3)
  from sender.batch_refines [OF run_ends [OF run]] show ?thesis
    by (simp add: run NewMessageSender_def)
qed

text \<open>
  C24: at any time in a batch, also when the process is killed there: the status of a document was
  written only after a publish, without error, to the main queue of the queue message made of a
  document with that id; a message that was not published stays unsent.
\<close>

theorem status_written_after_publish:
  assumes "replay (processUnsentMessages L (sender_production mq)) h = Some rest"
  shows "preceded (\<lambda>e. \<exists>st r. wrote_status i st r e) (published_document L i) h"
  by (rule preceded_at_any_time [OF preceded_trace assms])
    (use batch_order [OF sender.batch_refines] in \<open>auto dest: wrote_observed\<close>)

definition sample_batch_history :: history where
  "sample_batch_history =
     (let q = unsent_query 2; m = unsent_message in
      [Did (BreakerAdmit ''mongodb-repository'') None, Did (MongoFind q) None, FetchedAll q (Inr [m]),
       Did (CursorClose q) None, Did (BreakerReport ''mongodb-repository'' True) None, Clock 5,
       Did (AmqpPublish MainExchange MainQueueName
         \<lparr>pub_DeliveryMode = Persistent, pub_Headers = None, pub_ContentType = ''application/json'',
          pub_Body = marshal_queue_message (queue_message_of decimal_codec m), pub_Timestamp = 5\<rparr>) None,
       Did (BreakerAdmit ''mongodb-repository'') None, Clock 6,
       Did (MongoUpdateOne 7 (status_update StatusProcessing 6)) None,
       Did (BreakerReport ''mongodb-repository'' True) None])"

theorem status_written_after_publish_witness:
  "preceded (\<lambda>e. \<exists>st r. wrote_status 7 st r e) (published_document decimal_codec 7) sample_batch_history \<and>
   (\<exists>e\<in>set sample_batch_history. \<exists>st r. wrote_status 7 st r e)"
proof
  have "replay (processUnsentMessages decimal_codec sample_sender) sample_batch_history = Some (Return None)"
    by (simp add: sample_batch_history_def Let_def processUnsentMessages_def sample_sender_def
        NewMessageSender_def GetBatchSize_def mongoMessageRepository_def mongo_FindUnsentMessages_def
        Execute_def mongo_breaker_def find_all_def handleMessage_def rabbitMQ_def
        rabbit_PublishMessage_def mongo_UpdateStatus_def unsent_message_def sample_message_def
        queue_message_of_def)
  then show "preceded (\<lambda>e. \<exists>st r. wrote_status 7 st r e) (published_document decimal_codec 7) sample_batch_history"
    unfolding sample_sender_def by (rule status_written_after_publish)
  show "\<exists>e\<in>set sample_batch_history. \<exists>st r. wrote_status 7 st r e"
    by (auto simp: sample_batch_history_def Let_def wrote_status_def)
qed

text \<open>
  C25: what the sender publishes for a document, the processor decodes to a queue message with its
  content, its recipient and its retry count, and the id in it to the document's id; for every document whose texts are valid UTF-8 and whose retry
  count fits 64 bits, given that the driver's two id functions are inverse.
\<close>

theorem published_message_decodes_to_document:
  assumes "oid_codec_ok L" and "valid_utf8 (Hex L (msg_ID m))" and "valid_utf8 (msg_Content m)"
    and "valid_utf8 (msg_To m)" and "in_int64 (msg_RetryCount m)"
  shows "\<exists>q. unmarshal_queue_message (marshal_queue_message (queue_message_of L m)) empty_queue_message = Inr q \<and>
    ObjectIDFromHex L (qm_ID q) = Inr (msg_ID m) \<and> qm_Content q = msg_Content m \<and>
    qm_To q = msg_To m \<and> qm_Retry q = msg_RetryCount m"
  using assms queue_message_round_trip [of "queue_message_of L m"]
  by (simp add: queue_message_of_def oid_codec_ok_def)

theorem published_message_decodes_to_document_witness:
  "\<exists>q. unmarshal_queue_message (marshal_queue_message (queue_message_of decimal_codec sample_message))
     empty_queue_message = Inr q \<and> ObjectIDFromHex decimal_codec (qm_ID q) = Inr (msg_ID sample_message) \<and>
     qm_Content q = msg_Content sample_message \<and> qm_To q = msg_To sample_message \<and>
     qm_Retry q = msg_RetryCount sample_message"
proof -
  have "valid_utf8 (Hex decimal_codec (msg_ID sample_message))" by code_simp
  moreover have "valid_utf8 (msg_Content sample_message)" by code_simp
  moreover have "valid_utf8 (msg_To sample_message)" by code_simp
  moreover have "in_int64 (msg_RetryCount sample_message)"
    by (simp add: sample_message_def in_int64_def int64_min_def int64_max_def)
  ultimately show ?thesis by (rule published_message_decodes_to_document [OF decimal_codec_ok])
qed

section \<open>The queue adapter\<close>

text \<open>
  The queue adapter is made exactly when the connection, the channel and the seven
  declarations of the topology succeed, in this order.
\<close>

theorem queue_made_with_topology:
  "ends (NewMessageQueue url) h (Done (Inr mq)) \<longleftrightarrow>
     mq = \<lparr>has_conn = True, has_channel = True\<rparr> \<and>
     h = [Did (AmqpDial url) None, Did AmqpOpenChannel None,
       Did (AmqpExchangeDeclare MainExchange ''direct'' True) None,
       Did (AmqpExchangeDeclare RetryExchange ''direct'' True) None,
       Did (AmqpQueueDeclare MainQueueName True main_args) None,
       Did (AmqpQueueDeclare RetryQueueName True retry_args) None,
       Did (AmqpQueueDeclare DLQQueueName True no_args) None,
       Did (AmqpQueueBind MainQueueName MainQueueName MainExchange) None,
       Did (AmqpQueueBind RetryQueueName RetryQueueName RetryExchange) None]"
  unfolding NewMessageQueue_def Let_def
  by (auto simp: setupQueues_def rabbit_Close_def replay_simps)

text \<open>
  When a declaration fails, the ones before it were done and none after it was tried, the
  error says which cause it had, and the channel and the connection are closed.
\<close>

theorem failed_declaration_closes:
  assumes "ends (NewMessageQueue url) h (Done (Inl err))" and "Did AmqpOpenChannel None \<in> set h"
  shows "\<exists>k e r r'. k < length topology \<and> root_cause err = root_cause e \<and>
    h = [Did (AmqpDial url) None, Did AmqpOpenChannel None] @ map (\<lambda>e. Did e None) (take k topology) @
        [Did (topology ! k) (Some e), Did AmqpCloseChannel r, Did AmqpCloseConnection r']"
proof -
  from assms obtain h\<^sub>1 r r' where "ends setupQueues h\<^sub>1 (Done (Some err))"
    and "h = Did (AmqpDial url) None # Did AmqpOpenChannel None # h\<^sub>1 @
      [Did AmqpCloseChannel r, Did AmqpCloseConnection r']"
    unfolding NewMessageQueue_def Let_def rabbit_Close_def
    by (auto simp: ends_Do ends_case_option ends_bind ends_Return)
  with setupQueues_error [OF this(1)] show ?thesis by auto
qed

theorem failed_declaration_closes_witness:
  "\<exists>h k e r r' err. ends (NewMessageQueue ''amqp'') h (Done (Inl err)) \<and> k < length topology \<and>
    root_cause err = root_cause e \<and>
    h = [Did (AmqpDial ''amqp'') None, Did AmqpOpenChannel None] @ map (\<lambda>e. Did e None) (take k topology) @
        [Did (topology ! k) (Some e), Did AmqpCloseChannel r, Did AmqpCloseConnection r']"
proof -
  let ?h = "[Did (AmqpDial ''amqp'') None, Did AmqpOpenChannel None,
      Did (AmqpExchangeDeclare MainExchange ''direct'' True) (Some (GoErr ''x'')),
      Did AmqpCloseChannel None, Did AmqpCloseConnection None]"
  let ?err = "Errorf ''failed to declare main exchange'' (GoErr ''x'')"
  have run: "ends (NewMessageQueue ''amqp'') ?h (Done (Inl ?err))"
    by (simp add: ends_def NewMessageQueue_def setupQueues_def or_return_def rabbit_Close_def)
  have "Did AmqpOpenChannel None \<in> set ?h" by simp
  from failed_declaration_closes [OF run this] run show ?thesis by blast
qed

text \<open>
  Moving a delivery keeps its body, its content type and its headers, but not its persistence:
  the publish carries the transient delivery mode, while what the sender publishes is persistent.
\<close>

theorem moves_drop_persistence:
  "(ends (rabbit_MoveToDeadLetter d) h out \<longleftrightarrow>
     (\<exists>t r. h = [Clock t, Did (AmqpPublish [] DLQQueueName
        \<lparr>pub_DeliveryMode = 0, pub_Headers = moved_headers d, pub_ContentType = ContentType d,
         pub_Body = Body d, pub_Timestamp = t\<rparr>) r] \<and> out = Done r)) \<and>
   (ends (rabbit_MoveToRetryQueue d) h out \<longleftrightarrow>
     (\<exists>t r. h = [Clock t, Did (AmqpPublish RetryExchange RetryQueueName
        \<lparr>pub_DeliveryMode = 0, pub_Headers = moved_headers d, pub_ContentType = ContentType d,
         pub_Body = Body d, pub_Timestamp = t\<rparr>) r] \<and> out = Done r)) \<and>
   (ends (rabbit_PublishMessage q) h out \<longrightarrow>
     (\<exists>t r p. h = [Clock t, Did (AmqpPublish MainExchange MainQueueName p) r] \<and>
        pub_DeliveryMode p = Persistent \<and> pub_Body p = marshal_queue_message q \<and> out = Done r))"
  by (auto simp: rabbit_defs replay_simps)

theorem moves_drop_persistence_witness:
  "\<exists>t r p. [Clock 5, Did (AmqpPublish MainExchange MainQueueName
      \<lparr>pub_DeliveryMode = Persistent, pub_Headers = None, pub_ContentType = ''application/json'',
       pub_Body = marshal_queue_message sample_queue_message, pub_Timestamp = 5\<rparr>) None] =
      [Clock t, Did (AmqpPublish MainExchange MainQueueName p) r] \<and>
    pub_DeliveryMode p = Persistent \<and> pub_Body p = marshal_queue_message sample_queue_message"
proof -
  have "ends (rabbit_PublishMessage sample_queue_message) [Clock 5, Did (AmqpPublish MainExchange MainQueueName
      \<lparr>pub_DeliveryMode = Persistent, pub_Headers = None, pub_ContentType = ''application/json'',
       pub_Body = marshal_queue_message sample_queue_message, pub_Timestamp = 5\<rparr>) None] (Done None)"
    by (simp add: rabbit_PublishMessage_def Let_def replay_simps)
  with moves_drop_persistence show ?thesis by blast
qed

section \<open>The inbox\<close>

text \<open>Events that are not observed write nothing to the store of the inbox.\<close>

lemma trace_only_marks: "\<forall>x\<in>set (trace h). only_marks x \<Longrightarrow> \<forall>x\<in>set h. only_marks x"
  using unobserved_benign by (auto simp: benign_def)

text \<open>
  C26: marking round trip: after a mark that reports success, a check of the same message against
  a store that keeps what was set answers that it was processed, or fails; it never answers that
  it was not, and the store has the key of the inbox.
\<close>

theorem mark_then_check:
  assumes "key_value_store E kv"
    and "run E (redis_MarkAsProcessed k) w = (Done None, h, w')"
    and "run E (redis_IsProcessed k) w' = (Done (Inr b), h', w'')"
  shows "b \<and> in_inbox kv w' k"
proof -
  have port: "redis_MarkAsProcessed = MarkAsProcessed redisIdempotencyService"
    "redis_IsProcessed = IsProcessed redisIdempotencyService"
    by (simp_all add: redisIdempotencyService_def)
  from assms(2) have m: "ends (MarkAsProcessed redisIdempotencyService k) h (Done None)"
    and w: "follows E w h w'" by (simp_all add: run_iff port)
  from attempt_done [of "marked k" "trace h"] redis.MarkAsProcessed_trace [OF m] obtain e where
    tr: "trace h = [e]" and e: "marked k None e" by auto
  have only: "\<forall>x\<in>set h. only_marks x"
    by (rule trace_only_marks) (use tr e in \<open>auto simp: marked_def only_marks_def\<close>)
  have "e \<in> set (trace h)" by (simp add: tr)
  then have "e \<in> set h" by simp
  from marked_in_inbox [OF assms(1) w only this e] have inb: "in_inbox kv w' k" .
  from assms(3) have c: "ends (IsProcessed redisIdempotencyService k) h' (Done (Inr b))"
    and w': "follows E w' h' w''" by (simp_all add: run_iff port)
  from redis.IsProcessed_trace [OF c] obtain reply where
    tr': "trace h' = [] @ GotKey (inbox_key k) reply # []" and reply: "inbox_answer reply = Inr b" by auto
  from tr' obtain us vs where h': "h' = us @ GotKey (inbox_key k) reply # vs" and us: "trace us = []"
    by (rule filter_split)
  from w' obtain w\<^sub>1 w\<^sub>2 where w\<^sub>1: "follows E w' us w\<^sub>1" and got: "answers E w\<^sub>1 (GotKey (inbox_key k) reply) w\<^sub>2"
    by (auto simp: h' follows_append)
  have "\<forall>x\<in>set us. only_marks x" by (rule trace_only_marks) (simp add: us)
  from in_inbox_answer [OF assms(1) got in_inbox_follows [OF assms(1) w\<^sub>1 this inb]] reply inb
  show ?thesis by auto
qed

lemma sim_check:
  assumes "sim_kv w (inbox_key k) = Some (marshal_processed (unix_seconds t))" and "sim_down w = []"
  shows "fst (run sim_env (redis_IsProcessed k) w) = Done (Inr True)"
  using assms
  by (simp add: redis_IsProcessed_def Execute_def sim_env_def sim_on_do_def insert_clashes_def
      sim_fails_def sim_get_def value_processed_mark)

theorem mark_then_check_witness:
  "in_inbox sim_kv (snd (snd (run sim_env (redis_MarkAsProcessed ''7'') (sample_world [] [])))) ''7''"
proof -
  let ?m = "run sim_env (redis_MarkAsProcessed ''7'') (sample_world [] [])"
  let ?c = "run sim_env (redis_IsProcessed ''7'') (snd (snd ?m))"
  have "fst ?m = Done None" by code_simp
  then have m: "?m = (Done None, fst (snd ?m), snd (snd ?m))" by (metis prod.collapse)
  have "sim_kv (snd (snd ?m)) (inbox_key ''7'') = Some (marshal_processed (unix_seconds Minute))" by code_simp
  moreover have "sim_down (snd (snd ?m)) = []" by code_simp
  ultimately have "fst ?c = Done (Inr True)" by (rule sim_check)
  then have c: "?c = (Done (Inr True), fst (snd ?c), snd (snd ?c))" by (metis prod.collapse)
  show ?thesis by (rule conjunct2 [OF mark_then_check [OF sim_key_value_store m c]])
qed

section \<open>The circuit breakers\<close>

text \<open>
  C36: the three breakers trip exactly when at least three requests were counted and at least 60
  percent of them failed: the division of two counters in double precision and the comparison
  with 0.6 never misjudge the boundary, at any value of the 32-bit counters.
\<close>

theorem breakers_trip_at_60_percent:
  "cb_ReadyToTrip mongo_breaker c = cb_ReadyToTrip redis_breaker c \<and>
   cb_ReadyToTrip redis_breaker c = cb_ReadyToTrip webhook_breaker c \<and>
   cb_ReadyToTrip webhook_breaker c =
     (3 \<le> unat (Requests c) \<and> 3 * unat (Requests c) \<le> 5 * unat (TotalFailures c))"
  by (simp add: mongo_breaker_def redis_breaker_def webhook_breaker_def ReadyToTrip_exact)

section \<open>The webhook client\<close>

text \<open>
  C37: sending succeeds exactly when the limiter and the breaker let it through, the webhook
  answered with a status below 400 and its body could be read; the body need not be JSON. So a
  message the webhook accepted counts as failed when the answer's body cannot be read, and is
  posted again by the next delivery.
\<close>

theorem send_succeeds_iff:
  "ends (http_SendMessage (NewHTTPWebhookClient url timeout) c t) h (Done (Inr resp)) \<longleftrightarrow>
     (\<exists>status body r r'. status < 400 \<and> resp = Some (decode_response body) \<and>
        h = [Did LimiterWait None, Did (BreakerAdmit ''webhook-client'') None,
             Did (HttpNewRequest ''POST'' url (marshal_webhook_body c t)) None,
             HttpDone ''POST'' url (marshal_webhook_body c t) (Inr status), ReadBody (Inr body),
             Did HttpCloseBody r, Did (BreakerReport ''webhook-client'' True) r'])"
  by (auto simp: http_SendMessage_def rl_Wait_def post_message_def NewHTTPWebhookClient_def
      webhook_breaker_def Let_def replay_simps not_le split: sum.splits)

section \<open>JSON strings\<close>

text \<open>
  What the encoder makes of a text of valid UTF-8, with its escapes of control characters,
  HTML characters and the two line separators, the decoder reads back as the same text.
\<close>

theorem json_text_round_trip:
  assumes "valid_utf8 s"
  shows "unquote (escape s) = Some s"
  using assms by (rule unquote_escape)

theorem json_text_round_trip_witness:
  "unquote (escape ''<a & b>'') = Some ''<a & b>''"
proof -
  have "valid_utf8 ''<a & b>''" by code_simp
  then show ?thesis by (rule json_text_round_trip)
qed

end
