(* ===== verification/Scheduler.thy ===== *)
theory Scheduler
  imports Sender_Service
begin

text \<open>
  The scheduler of the sender as concurrent goroutines (\<open>MessageScheduler\<close> of
  \<open>sender_service/internal/application/service/sender_service.go\<close>). \<open>Start\<close> and \<open>Stop\<close> are called
  by HTTP handlers, each in a goroutine of its own; they read and write \<open>isRunning\<close> without a lock,
  and \<open>Stop\<close> sends on the unbuffered channel \<open>done\<close>, which a running scheduler receives in its
  \<open>select\<close>. The state counts the goroutines at each point of their code; a step is one shared
  access.
\<close>

section \<open>States and steps\<close>

record scheduler_state =
  isRunning :: bool
  waiting :: nat    \<comment> \<open>goroutines of \<open>run\<close> at their \<open>select\<close>\<close>
  working :: nat    \<comment> \<open>goroutines of \<open>run\<close> in \<open>processUnsentMessages\<close>\<close>
  starting :: nat   \<comment> \<open>calls of \<open>Start\<close> that found \<open>isRunning\<close> false and have not set it\<close>
  spawning :: nat   \<comment> \<open>calls of \<open>Start\<close> that have set it and not yet made their goroutine\<close>
  stopping :: nat   \<comment> \<open>calls of \<open>Stop\<close> that found it true and have not cleared it\<close>
  sending :: nat    \<comment> \<open>calls of \<open>Stop\<close> blocked in \<open>done <- true\<close>\<close>

definition NewMessageScheduler :: scheduler_state where
  "NewMessageScheduler =
     \<lparr>isRunning = False, waiting = 0, working = 0, starting = 0, spawning = 0, stopping = 0,
      sending = 0\<rparr>"

text \<open>No call is between its test of \<open>isRunning\<close> and its last access of shared state but the send.\<close>

definition no_call_inside :: "scheduler_state \<Rightarrow> bool" where
  "no_call_inside s \<longleftrightarrow> starting s = 0 \<and> spawning s = 0 \<and> stopping s = 0"

text \<open>
  The code lets calls interleave freely. With \<open>locked\<close> a call begins only when no other is inside:
  what holding a mutex up to the send would give.
\<close>

inductive scheduler_step :: "bool \<Rightarrow> scheduler_state \<Rightarrow> scheduler_state \<Rightarrow> bool" for locked where
  start_returns: "isRunning s \<Longrightarrow> scheduler_step locked s s"
| start_test:
    "\<not> isRunning s \<Longrightarrow> locked \<longrightarrow> no_call_inside s \<Longrightarrow>
     scheduler_step locked s (s\<lparr>starting := Suc (starting s)\<rparr>)"
| start_set:
    "starting s = Suc n \<Longrightarrow>
     scheduler_step locked s (s\<lparr>isRunning := True, starting := n, spawning := Suc (spawning s)\<rparr>)"
| start_go:
    "spawning s = Suc n \<Longrightarrow>
     scheduler_step locked s (s\<lparr>spawning := n, waiting := Suc (waiting s)\<rparr>)"
| stop_returns: "\<not> isRunning s \<Longrightarrow> scheduler_step locked s s"
| stop_test:
    "isRunning s \<Longrightarrow> locked \<longrightarrow> no_call_inside s \<Longrightarrow>
     scheduler_step locked s (s\<lparr>stopping := Suc (stopping s)\<rparr>)"
| stop_clear:
    "stopping s = Suc n \<Longrightarrow>
     scheduler_step locked s (s\<lparr>isRunning := False, stopping := n, sending := Suc (sending s)\<rparr>)"
| done_received:
    "sending s = Suc m \<Longrightarrow> waiting s = Suc n \<Longrightarrow>
     scheduler_step locked s (s\<lparr>sending := m, waiting := n\<rparr>)"
| tick_received:
    "waiting s = Suc n \<Longrightarrow>
     scheduler_step locked s (s\<lparr>waiting := n, working := Suc (working s)\<rparr>)"
| batch_finished:
    "working s = Suc n \<Longrightarrow>
     scheduler_step locked s (s\<lparr>working := n, waiting := Suc (waiting s)\<rparr>)"

inductive scheduler_reachable :: "bool \<Rightarrow> scheduler_state \<Rightarrow> bool" for locked where
  initially: "scheduler_reachable locked NewMessageScheduler"
| stepped: "scheduler_reachable locked s \<Longrightarrow> scheduler_step locked s s' \<Longrightarrow> scheduler_reachable locked s'"

inductive_cases scheduler_stepE: "scheduler_step locked s s'"
inductive_simps scheduler_step_iff: "scheduler_step locked s s'"

definition runners :: "scheduler_state \<Rightarrow> nat" where
  "runners s = waiting s + working s"

section \<open>With calls that do not overlap\<close>

text \<open>
  The invariant: a goroutine for the running scheduler and one for each \<open>Stop\<close> not yet received;
  at most one call inside, and what it found is still so.
\<close>

definition scheduler_inv :: "scheduler_state \<Rightarrow> bool" where
  "scheduler_inv s \<longleftrightarrow>
     runners s + spawning s = (if isRunning s then 1 else 0) + sending s \<and>
     starting s + spawning s + stopping s \<le> 1 \<and>
     (0 < starting s \<longrightarrow> \<not> isRunning s) \<and> (0 < stopping s \<longrightarrow> isRunning s)"

lemma scheduler_inv_initial: "scheduler_inv NewMessageScheduler"
  by (simp add: scheduler_inv_def NewMessageScheduler_def runners_def)

lemma scheduler_inv_step: "scheduler_step True s s' \<Longrightarrow> scheduler_inv s \<Longrightarrow> scheduler_inv s'"
  by (elim scheduler_stepE)
    (auto simp: scheduler_inv_def runners_def no_call_inside_def split: if_splits)

lemma scheduler_inv_reachable: "scheduler_reachable True s \<Longrightarrow> scheduler_inv s"
  by (induction rule: scheduler_reachable.induct)
    (auto intro: scheduler_inv_initial scheduler_inv_step)

section \<open>Properties\<close>


definition running_once :: scheduler_state where
  "running_once = NewMessageScheduler\<lparr>isRunning := True, waiting := 1\<rparr>"

lemma one_start: "scheduler_reachable locked running_once"
proof -
  let ?s = "NewMessageScheduler\<lparr>starting := 1\<rparr>"
  have "scheduler_reachable locked ?s"
    using stepped [OF initially start_test]
    by (simp add: NewMessageScheduler_def no_call_inside_def)
  from stepped [OF stepped [OF this start_set] start_go] show ?thesis
    by (simp add: NewMessageScheduler_def running_once_def)
qed


text \<open>
  The states of two races: two goroutines after two overlapping starts, and one of them left after
  the one stop that \<open>isRunning\<close> allows.
\<close>

definition two_runners :: scheduler_state where
  "two_runners = NewMessageScheduler\<lparr>isRunning := True, waiting := 2\<rparr>"

definition stopped_but_running :: scheduler_state where
  "stopped_but_running = NewMessageScheduler\<lparr>isRunning := False, waiting := 1\<rparr>"

lemma two_starts: "scheduler_reachable False two_runners"
proof -
  have "scheduler_reachable False (NewMessageScheduler\<lparr>starting := 2\<rparr>)"
    using stepped [OF stepped [OF initially start_test] start_test]
    by (simp add: NewMessageScheduler_def numeral_2_eq_2)
  from stepped [OF stepped [OF this start_set [where n = 1]] start_set [where n = 0]]
  have "scheduler_reachable False (NewMessageScheduler\<lparr>isRunning := True, spawning := 2\<rparr>)"
    by (simp add: NewMessageScheduler_def numeral_2_eq_2)
  from stepped [OF stepped [OF this start_go [where n = 1]] start_go [where n = 0]]
  show ?thesis
    by (simp add: NewMessageScheduler_def two_runners_def numeral_2_eq_2)
qed

text \<open>
  C31: the code as it is, without a lock: two overlapping calls of \<open>Start\<close> leave two goroutines
  publishing batches, with no call in progress; and one \<open>Stop\<close> then leaves one of them running
  although \<open>isRunning\<close> is false.
\<close>

theorem overlapping_starts_double_the_scheduler:
  "scheduler_reachable False two_runners \<and> no_call_inside two_runners \<and> sending two_runners = 0 \<and>
   runners two_runners = 2 \<and>
   scheduler_reachable False stopped_but_running \<and> no_call_inside stopped_but_running \<and>
   sending stopped_but_running = 0 \<and> \<not> isRunning stopped_but_running \<and>
   runners stopped_but_running = 1"
proof -
  have "scheduler_reachable False
      (NewMessageScheduler\<lparr>isRunning := False, waiting := 2, sending := 1\<rparr>)"
    using stepped [OF stepped [OF two_starts stop_test] stop_clear]
    by (simp add: NewMessageScheduler_def two_runners_def)
  from stepped [OF this done_received [where m = 0 and n = 1]]
  have "scheduler_reachable False stopped_but_running"
    by (simp add: NewMessageScheduler_def stopped_but_running_def numeral_2_eq_2)
  with two_starts show ?thesis
    by (simp add: two_runners_def stopped_but_running_def NewMessageScheduler_def runners_def
        no_call_inside_def)
qed

text \<open>
  After two overlapping stops of one goroutine, and after the start that follows when its
  goroutine receives the stop that is still blocked.
\<close>

definition stuck_stop :: scheduler_state where
  "stuck_stop = NewMessageScheduler\<lparr>sending := 1\<rparr>"

definition phantom :: scheduler_state where
  "phantom = NewMessageScheduler\<lparr>isRunning := True\<rparr>"

lemma two_stops: "scheduler_reachable False stuck_stop"
proof -
  have "scheduler_reachable False (NewMessageScheduler\<lparr>isRunning := True, waiting := 1, stopping := 2\<rparr>)"
    using stepped [OF stepped [OF one_start stop_test] stop_test]
    by (simp add: NewMessageScheduler_def running_once_def numeral_2_eq_2)
  from stepped [OF stepped [OF this stop_clear [where n = 1]] stop_clear [where n = 0]]
  have "scheduler_reachable False (NewMessageScheduler\<lparr>waiting := 1, sending := 2\<rparr>)"
    by (simp add: NewMessageScheduler_def numeral_2_eq_2)
  from stepped [OF this done_received [where m = 1 and n = 0]] show ?thesis
    by (simp add: NewMessageScheduler_def stuck_stop_def numeral_2_eq_2)
qed


end
