(* ===== verification/Mains.thy ===== *)
theory Mains
  imports Config Http_Api Processor_Facts
begin

text \<open>
  The two \<open>main\<close> functions, \<open>sender_service/cmd/main.go\<close> and \<open>processor_service/cmd/main.go\<close>: what
  they do before they serve and when they are told to stop. Between the two, the goroutines they
  start run the programs of the other theories: the routes of \<open>Http_Api\<close>, \<open>Start\<close> of the processor.
\<close>

section \<open>The sender\<close>

text \<open>The timeouts of thirty seconds on the two contexts are not modelled.\<close>

definition mongodbConnect :: "string \<Rightarrow> go_error option prog" where
  "mongodbConnect uri = perform (MongoConnect uri)"

definition mongodbDisconnect :: "go_error option prog" where
  "mongodbDisconnect = perform MongoDisconnect"

lemmas mongodb_defs = mongodbConnect_def mongodbDisconnect_def

definition connected :: "environ \<Rightarrow> (rabbitMQAdapter \<Rightarrow> 'a prog) \<Rightarrow> 'a prog" where
  "connected env continue =
     (let cfg = LoadConfig env in
      bind (mongodbConnect (mongodb_URI (cfg_MongoDB cfg))) (\<lambda>r. case r of
        Some err \<Rightarrow> Halt (LogFatal (Errorf ''Failed to connect to MongoDB'' err))
      | None \<Rightarrow>
          bind (NewMessageQueue (cfg_RabbitMQ_URI cfg)) (\<lambda>r. case r of
            Inl err \<Rightarrow> Halt (LogFatal (Errorf ''Failed to connect to RabbitMQ'' err))
          | Inr mq \<Rightarrow> continue mq)))"

definition sender_main ::
  "environ \<Rightarrow> (sender_service \<times> sender_health_service \<times> rabbitMQAdapter) prog" where
  "sender_main env =
     connected env (\<lambda>mq.
       let messageRepo = mongoMessageRepository;
           sndr = NewMessageSender 2 (2 * Minute);
           senderService = NewSenderService sndr messageRepo (rabbitMQ mq);
           healthService = NewSenderHealthService messageRepo (rabbitMQ mq) in
       Return (senderService, healthService, mq))"

text \<open>
  On a signal: the scheduler is stopped, the queue closed, the client disconnected, and then
  disconnected again by the deferred call, whose error is dropped.
\<close>

definition sender_shutdown :: "rabbitMQAdapter \<Rightarrow> unit prog" where
  "sender_shutdown mq =
     perform_ignoring SchedulerStop (
     bind (rabbit_Close mq) (\<lambda>_.
     perform_ignoring MongoDisconnect (
     bind mongodbDisconnect (\<lambda>_. Return ()))))"

section \<open>The processor\<close>

definition processor_main ::
  "environ \<Rightarrow> (processor_service \<times> processor_health_service \<times> rabbitMQAdapter) prog" where
  "processor_main env =
     connected env (\<lambda>mq.
       let cfg = LoadConfig env;
           messageRepo = mongoMessageRepository;
           idempotency = redisIdempotencyService;
           client = http_SendMessage (NewHTTPWebhookClient (webhook_URL (cfg_Webhook cfg))
                      (sint (webhook_Timeout (cfg_Webhook cfg))));
           prc = NewMessageProcessor (sint (cfg_MaxRetries (cfg_MessageProcessor cfg))) (4 * Minute);
           service = NewProcessorService prc messageRepo (rabbitMQ mq) idempotency client;
           health = NewProcessorHealthService messageRepo (rabbitMQ mq) idempotency in
       Return (service, health, mq))"

text \<open>\<open>Stop\<close> closes the queue; \<open>main\<close> closes it again.\<close>

definition processor_shutdown :: "processor_service \<Rightarrow> rabbitMQAdapter \<Rightarrow> bool \<Rightarrow> unit prog" where
  "processor_shutdown s mq done_closed =
     bind (Stop s done_closed) (\<lambda>_.
     bind (rabbit_Close mq) (\<lambda>_.
     perform_ignoring RedisClose (
     perform_ignoring MongoDisconnect (
     perform_ignoring MongoDisconnect (Return ())))))"

section \<open>Connecting\<close>

definition connection_history :: "environ \<Rightarrow> history" where
  "connection_history env =
     Did (MongoConnect (mongodb_URI (cfg_MongoDB (LoadConfig env)))) None #
     Did (AmqpDial (cfg_RabbitMQ_URI (LoadConfig env))) None #
     Did AmqpOpenChannel None # map (\<lambda>e. Did e None) topology"

lemma no_halt_setupQueues: "no_halt setupQueues"
  by (auto simp: setupQueues_def or_return_def split: option.splits)

lemma NewMessageQueue_connected:
  "ends (NewMessageQueue url) h (Done (Inr mq)) \<longleftrightarrow>
     mq = \<lparr>has_conn = True, has_channel = True\<rparr> \<and>
     h = Did (AmqpDial url) None # Did AmqpOpenChannel None # map (\<lambda>e. Did e None) topology"
  unfolding NewMessageQueue_def Let_def
  by (auto simp: ends_Do ends_case_option ends_bind_no_halt [OF no_halt_setupQueues] ends_Return
      ends_bind_no_halt [OF rabbit_no_halt(6)] setupQueues_ok)

lemma connected_Done:
  "ends (connected env (\<lambda>mq. Return (f mq))) h (Done x) \<longleftrightarrow>
     h = connection_history env \<and> x = f \<lparr>has_conn = True, has_channel = True\<rparr>"
  unfolding connected_def mongodb_defs Let_def connection_history_def
  by (auto simp: ends_Do ends_case_option ends_bind ends_case_sum ends_Halt ends_Return
      NewMessageQueue_connected) (metis append_Nil2 NewMessageQueue_connected)

section \<open>Properties\<close>

text \<open>
  The processor serves exactly when MongoDB and RabbitMQ could be connected and every
  exchange, queue and binding of the topology was declared, in order, before anything else; it
  then runs the production service with the configured retries, URL and timeout, and a stale
  duration of four minutes that no setting changes.
\<close>

theorem processor_starts_after_topology:
  "(\<exists>health. ends (processor_main env) h (Done (s, health, mq))) \<longleftrightarrow>
     h = connection_history env \<and> mq = \<lparr>has_conn = True, has_channel = True\<rparr> \<and>
     s = production (sint (cfg_MaxRetries (cfg_MessageProcessor (LoadConfig env))))
           (webhook_URL (cfg_Webhook (LoadConfig env)))
           (sint (webhook_Timeout (cfg_Webhook (LoadConfig env)))) mq"
  unfolding processor_main_def Let_def connected_Done production_def by auto

text \<open>
  The sender started with any configuration runs batches of two every two minutes: the
  settings of the batch size and of the polling interval are read and not used.
\<close>

theorem sender_ignores_batch_settings:
  assumes "ends (sender_main env) h (Done (s, health, mq))"
  shows "batchSize (sender s) = 2 \<and> checkInterval (sender s) = 2 * Minute \<and> s = sender_production mq"
  using assms
  unfolding sender_main_def Let_def connected_Done
  by (auto simp: sender_production_def NewSenderService_def NewMessageSender_def)

theorem sender_ignores_batch_settings_witness:
  "let env = [''MESSAGE_BATCH_SIZE'' \<mapsto> ''500'', ''POLL_INTERVAL_SECONDS'' \<mapsto> ''1''];
       s = sender_production \<lparr>has_conn = True, has_channel = True\<rparr> in
   (\<exists>health mq. ends (sender_main env) (connection_history env) (Done (s, health, mq))) \<and>
   batchSize (sender s) = 2"
proof -
  let ?env = "[''MESSAGE_BATCH_SIZE'' \<mapsto> ''500'', ''POLL_INTERVAL_SECONDS'' \<mapsto> ''1'']"
  let ?mq = "\<lparr>has_conn = True, has_channel = True\<rparr>"
  have "ends (sender_main ?env) (connection_history ?env)
      (Done (sender_production ?mq, sender_health ?mq, ?mq))"
    unfolding sender_main_def Let_def connected_Done
    by (simp add: sender_production_def sender_health_def)
  from sender_ignores_batch_settings [OF this] this show ?thesis
    unfolding Let_def by blast
qed

text \<open>
  A signal closes the broker's channel and connection twice and disconnects from MongoDB
  twice, whatever the calls answer; the error results are dropped and the shutdown always ends.
\<close>

theorem processor_shutdown_closes_twice:
  "ends (processor_shutdown (production n url timeout \<lparr>has_conn = True, has_channel = True\<rparr>)
       \<lparr>has_conn = True, has_channel = True\<rparr> False) h out \<longleftrightarrow>
     out = Done () \<and> (\<exists>a b c d e f g. h =
       [Did AmqpCloseChannel a, Did AmqpCloseConnection b, Did AmqpCloseChannel c,
        Did AmqpCloseConnection d, Did RedisClose e, Did MongoDisconnect f, Did MongoDisconnect g])"
  by (auto simp: processor_shutdown_def Stop_def rabbitMQ_def rabbit_Close_def ends_Do ends_Return)

end
