(* ===== verification/Event_Order.thy ===== *)
theory Event_Order
  imports Sample_Systems
begin

text \<open>What must have happened before a message is marked and before it is set to sent, in the whole system.\<close>

section \<open>The order of events in the system\<close>

text \<open>
  What must be there before a message with the id \<open>i\<close> is set to sent, and before its id \<open>k\<close> is
  marked: a mark of an id that parses to \<open>i\<close>; a lookup of the document and a post of that
  document that the webhook accepted.
\<close>

definition id_marked :: "oid_codec \<Rightarrow> oid \<Rightarrow> event \<Rightarrow> bool" where
  "id_marked L i e \<longleftrightarrow> (\<exists>k. ObjectIDFromHex L k = Inr i \<and> marked k None e)"

definition accepted_document :: "oid \<Rightarrow> event \<Rightarrow> event \<Rightarrow> bool" where
  "accepted_document i x y \<longleftrightarrow>
     (\<exists>m. x = FoundOne i (Found m) \<and> webhook_accepted (msg_Content m) (msg_To m) y)"

abbreviation sent_justified :: "oid_codec \<Rightarrow> oid \<Rightarrow> event set \<Rightarrow> history \<Rightarrow> bool" where
  "sent_justified L i \<equiv> justified (\<lambda>e. \<exists>r. wrote_status i StatusSent r e) (\<lambda>A. \<exists>y\<in>A. id_marked L i y)"

abbreviation mark_justified :: "oid \<Rightarrow> string \<Rightarrow> event set \<Rightarrow> history \<Rightarrow> bool" where
  "mark_justified i k \<equiv>
     justified (\<lambda>e. \<exists>r. marked k r e) (\<lambda>A. \<exists>x\<in>A. \<exists>y\<in>A. accepted_document i x y)"

lemma kinds_of_events:
  "webhook_accepted c t e \<Longrightarrow> \<not> wrote_status j st r e" "webhook_accepted c t e \<Longrightarrow> \<not> marked k r e"
  "optional_webhook_id k\<^sub>0 es \<Longrightarrow> e \<in> set es \<Longrightarrow> \<not> wrote_status j st r e"
  "optional_webhook_id k\<^sub>0 es \<Longrightarrow> e \<in> set es \<Longrightarrow> \<not> marked k r e"
  "marked k r e \<Longrightarrow> \<not> wrote_status j st r' e" "wrote_status j st r' e \<Longrightarrow> \<not> marked k r e"
  "marked k r e \<Longrightarrow> marked k' r' e \<Longrightarrow> k' = k" "wrote_status i st r e \<Longrightarrow> wrote_status j st' r' e \<Longrightarrow> j = i"
  by (auto simp: event_defs)

lemma justified_attempt:
  "attempt W es ok \<Longrightarrow> (\<And>u e. W u e \<Longrightarrow> P e \<Longrightarrow> Q A) \<Longrightarrow> justified P Q A es"
  by (auto simp: attempt_def)

lemma success_justified:
  assumes post: "webhook_accepted (msg_Content m) (msg_To m) post" and stored: "optional_webhook_id k es\<^sub>1"
    and mark: "attempt (marked k) es\<^sub>2 ok" and sent: "attempt (wrote_status i StatusSent) es\<^sub>3 ok'"
    and only: "es\<^sub>3 = [] \<or> ok"
    and id: "ObjectIDFromHex L k = Inr i" and found: "FoundOne i (Found m) \<in> A"
  shows "sent_justified L j A (post # es\<^sub>1 @ es\<^sub>2 @ es\<^sub>3)"
    and "ObjectIDFromHex L k' = Inr j \<Longrightarrow> mark_justified j k' A (post # es\<^sub>1 @ es\<^sub>2 @ es\<^sub>3)"
proof -
  let ?A = "insert post A \<union> set es\<^sub>1"
  have "\<forall>e\<in>set (es\<^sub>1 @ es\<^sub>2). \<not> (\<exists>r. wrote_status j StatusSent r e)"
    using kinds_of_events(3) [OF stored] mark by (auto dest: attempt_elements kinds_of_events(5))
  moreover have "sent_justified L j (?A \<union> set es\<^sub>2) es\<^sub>3"
  proof (cases "es\<^sub>3 = []")
    case False
    with only mark obtain x where x: "es\<^sub>2 = [x]" "marked k None x" by (auto dest: attempt_done)
    with id have marked: "\<exists>y\<in>?A \<union> set es\<^sub>2. id_marked L i y" by (auto simp: id_marked_def)
    from sent show ?thesis
      by (rule justified_attempt) (use marked kinds_of_events(8) in blast)
  qed simp
  ultimately show "sent_justified L j A (post # es\<^sub>1 @ es\<^sub>2 @ es\<^sub>3)"
    using kinds_of_events(1) [OF post] by (simp add: justified_append justified_none)
  assume k': "ObjectIDFromHex L k' = Inr j"
  have "mark_justified j k' ?A es\<^sub>2"
  proof -
    have "k' = k \<Longrightarrow> \<exists>x\<in>?A. \<exists>y\<in>?A. accepted_document j x y"
      using id k' found post by (intro bexI [of _ "FoundOne i (Found m)"] bexI [of _ post])
        (auto simp: accepted_document_def)
    with mark show ?thesis
      by (intro justified_attempt [OF mark]) (use kinds_of_events(7) in blast)
  qed
  moreover have "\<forall>e\<in>set es\<^sub>1. \<not> (\<exists>r. marked k' r e)" "\<forall>e\<in>set es\<^sub>3. \<not> (\<exists>r. marked k' r e)"
    using kinds_of_events(4) [OF stored] sent by (auto dest: attempt_elements kinds_of_events(6))
  ultimately show "mark_justified j k' A (post # es\<^sub>1 @ es\<^sub>2 @ es\<^sub>3)"
    using kinds_of_events(2) [OF post] by (simp add: justified_append justified_none)
qed

lemma delivery_justified:
  assumes "delivery_spec n k i m body es out" and "ObjectIDFromHex L k = Inr i"
    and "FoundOne i (Found m) \<in> A"
  shows "sent_justified L j A es \<and> (ObjectIDFromHex L k' = Inr j \<longrightarrow> mark_justified j k' A es)"
  using assms(1)
proof cases
  case (webhook_failed es\<^sub>0 es\<^sub>1)
  have "\<forall>e\<in>set es. \<not> (\<exists>r. wrote_status j StatusSent r e)" "\<forall>e\<in>set es. \<not> (\<exists>r. marked k' r e)"
    unfolding webhook_failed(1) set_append
    using failure_trace(3,4) [OF webhook_failed(3)] failed_post(3,4) [OF webhook_failed(2)] by blast+
  then show ?thesis by (simp add: justified_none)
next
  case (not_marked e es\<^sub>1 es\<^sub>2 err)
  have "attempt (wrote_status i StatusSent) [] False" by (simp add: attempt_def)
  with success_justified [OF not_marked(3-5) this _ assms(2,3)] not_marked(1) show ?thesis by simp
next
  case (marked_not_sent e es\<^sub>1 es\<^sub>2 es\<^sub>3 err)
  with success_justified [OF marked_not_sent(3-6) _ assms(2,3)] show ?thesis by simp
next
  case (sent e es\<^sub>1 es\<^sub>2 es\<^sub>3)
  with success_justified [OF sent(3-6) _ assms(2,3)] show ?thesis by simp
qed

lemma process_justified:
  assumes "process_spec L p d H es out"
  shows "sent_justified L j {} es \<and> (ObjectIDFromHex L k' = Inr j \<longrightarrow> mark_justified j k' {} es)"
  using assms
proof (cases rule: process_parts)
  case quiet
  then show ?thesis by (auto intro!: justified_none dest: not_delivering)
next
  case (delivered es\<^sub>1 q reply i m es\<^sub>2 out')
  let ?pre = "es\<^sub>1 @ [GotKey (inbox_key (qm_ID q)) reply, FoundOne i (Found m)]"
  have "\<forall>e\<in>set ?pre. \<not> delivering e" using delivered(2) by auto
  then have "sent_justified L j {} ?pre" "mark_justified j k' {} ?pre"
    by (blast intro: justified_none dest: not_delivering)+
  moreover have "FoundOne i (Found m) \<in> {} \<union> set ?pre" by simp
  note delivery_justified [OF delivered(7,5) this]
  moreover have "es = ?pre @ es\<^sub>2" using delivered(1) by simp
  ultimately show ?thesis by (simp only: justified_append) blast
qed

lemma goroutine_justified:
  assumes "replay (goroutine_prog L n g) h = Some rest"
  shows "sent_justified L j {} h \<and> (ObjectIDFromHex L k = Inr j \<longrightarrow> mark_justified j k {} h)"
  using assms
proof (rule goroutine_histories)
  fix d x out
  assume "process_spec L (NewMessageProcessor n (4 * Minute)) d x (trace x) out"
  from process_justified [OF this, of j k] have trace: "sent_justified L j {} (trace x)"
    "ObjectIDFromHex L k = Inr j \<longrightarrow> mark_justified j k {} (trace x)" by blast+
  have "sent_justified L j {} x"
    by (rule justified_filter [where F = observed]) (use trace in \<open>auto dest: wrote_observed\<close>)
  moreover have "mark_justified j k {} x" if "ObjectIDFromHex L k = Inr j"
    by (rule justified_filter [where F = observed]) (use trace that in \<open>auto dest: marked_observed\<close>)
  ultimately show "sent_justified L j {} x \<and> (ObjectIDFromHex L k = Inr j \<longrightarrow> mark_justified j k {} x)"
    by blast
next
  fix x
  assume "\<forall>e\<in>set x. bystander_event g e"
  then have "\<forall>e\<in>set x. \<not> delivering e" using bystander_events_only(1) by blast
  then show "sent_justified L j {} x \<and> (ObjectIDFromHex L k = Inr j \<longrightarrow> mark_justified j k {} x)"
    by (auto intro!: justified_none dest: not_delivering)
next
  fix x y
  assume "sent_justified L j {} x \<and> (ObjectIDFromHex L k = Inr j \<longrightarrow> mark_justified j k {} x)"
    "sent_justified L j {} y \<and> (ObjectIDFromHex L k = Inr j \<longrightarrow> mark_justified j k {} y)"
  then show "sent_justified L j {} (x @ y) \<and> (ObjectIDFromHex L k = Inr j \<longrightarrow> mark_justified j k {} (x @ y))"
    by (blast intro: justified_appendI upward_ex)
qed (auto simp: justified_append)

section \<open>Properties\<close>

text \<open>
  C15: at any time, in any interleaving of any number of goroutines of both services, each of them
  possibly killed: a document was set to sent only after the inbox got a mark under its id; and
  an id was marked only after the document of that id was looked up and the webhook accepted a
  post of its content and recipient.
\<close>

theorem system_sent_only_after_mark_and_webhook:
  assumes "system_history L n gs h" and "ObjectIDFromHex L k = Inr i"
  shows "sent_justified L i {} h \<and> mark_justified i k {} h"
  using system_justified [OF assms(1) upward_ex(1)] system_justified [OF assms(1) upward_ex(2)]
    goroutine_justified assms(2) by blast

theorem system_sent_only_after_mark_and_webhook_witness:
  "sent_justified decimal_codec 7 {} (fst (two_consumers [500, 200])) \<and> mark_justified 7 ''7'' {} (fst (two_consumers [500, 200])) \<and>
   count_events is_http_call (fst (two_consumers [500, 200])) = 2 \<and>
   map_option msg_Status (sim_docs (snd (two_consumers [500, 200])) 7) = Some StatusSent"
proof -
  have "ObjectIDFromHex decimal_codec ''7'' = Inr 7" by code_simp
  from system_sent_only_after_mark_and_webhook [OF two_consumers_system(1) this, of "[500, 200]"]
  have "sent_justified decimal_codec 7 {} (fst (two_consumers [500, 200]))" "mark_justified 7 ''7'' {} (fst (two_consumers [500, 200]))"
    by blast+
  moreover have "count_events is_http_call (fst (two_consumers [500, 200])) = 2" by code_simp
  moreover have "map_option msg_Status (sim_docs (snd (two_consumers [500, 200])) 7) = Some StatusSent"
    by code_simp
  ultimately show ?thesis by (intro conjI)
qed

end
