(* ===== verification/Deployment.thy ===== *)
theory Deployment
  imports Mains Event_Order
begin

text \<open>
  Whole processes: \<open>main\<close> of each service up to the point where it serves, the goroutines it and its
  handlers start, and \<open>main\<close> again from the signal on; and any number of processes of both services,
  each with its environment variables. What such a deployment does is, without the calls that open
  and close connections, a history of the system of goroutines of \<open>Concurrency\<close>.
\<close>

section \<open>Processes\<close>

text \<open>
  What a process of the sender is given: its environment variables, what each run of the scheduler
  receives, and the requests. Of the processor: its environment variables, what the consumer and
  the monitor receive, and the number of requests of its status.
\<close>

datatype process =
    SenderProcess environ "scheduler_input list list" "api_request list"
  | ProcessorProcess environ "received list" "tick list" nat

primrec process_environ :: "process \<Rightarrow> environ" where
  "process_environ (SenderProcess env runs reqs) = env"
| "process_environ (ProcessorProcess env rs ts k) = env"

definition discard :: "'a prog \<Rightarrow> unit prog" where
  "discard p = bind p (\<lambda>_. Return ())"

definition sender_goroutines ::
  "oid_codec \<Rightarrow> scheduler_input list list \<Rightarrow> api_request list \<Rightarrow>
     sender_service \<times> sender_health_service \<times> rabbitMQAdapter \<Rightarrow> unit prog list" where
  "sender_goroutines L runs reqs = (\<lambda>(s, health, mq).
     sender_shutdown mq # map (scheduler_run L s) runs @
     map (\<lambda>req. discard (RateLimit (NewRateLimiter 50 100)
       (sender_route L (sender_message_service s) health req))) reqs)"

definition processor_goroutines ::
  "oid_codec \<Rightarrow> received list \<Rightarrow> tick list \<Rightarrow> nat \<Rightarrow>
     processor_service \<times> processor_health_service \<times> rabbitMQAdapter \<Rightarrow> unit prog list" where
  "processor_goroutines L rs ts k = (\<lambda>(s, health, mq).
     processor_shutdown s mq False # Start L s rs # monitorStaleMessages L s ts #
     replicate k (discard (ProcessorGetStatus health)))"

text \<open>
  A process is stopped in the first part of \<open>main\<close> (killed, or by \<open>log.Fatal\<close>), or it ends that part
  and its goroutines, of which the rest of \<open>main\<close> is one, run interleaved, each stopped anywhere: by
  the end of \<open>main\<close>, by a panic or \<open>log.Fatal\<close> of another, or because the process is killed.
\<close>

definition stopped :: "'a prog \<Rightarrow> history \<Rightarrow> bool" where
  "stopped p h \<longleftrightarrow> (\<exists>rest. replay p h = Some rest)"

definition interleaved :: "unit prog list \<Rightarrow> history \<Rightarrow> bool" where
  "interleaved ps h \<longleftrightarrow> (\<exists>hs. list_all2 stopped ps hs \<and> merges hs h)"

definition serves :: "'c prog \<Rightarrow> ('c \<Rightarrow> unit prog list) \<Rightarrow> history \<Rightarrow> bool" where
  "serves main_part goroutines h \<longleftrightarrow>
     stopped main_part h \<or>
     (\<exists>h\<^sub>1 h\<^sub>2 c. h = h\<^sub>1 @ h\<^sub>2 \<and> ends main_part h\<^sub>1 (Done c) \<and> interleaved (goroutines c) h\<^sub>2)"

primrec process_history :: "oid_codec \<Rightarrow> process \<Rightarrow> history \<Rightarrow> bool" where
  "process_history L (SenderProcess env runs reqs) h \<longleftrightarrow>
     serves (sender_main env) (sender_goroutines L runs reqs) h"
| "process_history L (ProcessorProcess env rs ts k) h \<longleftrightarrow>
     serves (processor_main env) (processor_goroutines L rs ts k) h"

definition deployment_history :: "oid_codec \<Rightarrow> process list \<Rightarrow> history \<Rightarrow> bool" where
  "deployment_history L ps h \<longleftrightarrow> (\<exists>hs. list_all2 (process_history L) ps hs \<and> merges hs h)"

section \<open>Opening and closing\<close>

text \<open>
  The calls that open, set up and close connections, and the signal that stops a scheduler. None of
  them reads or writes a document or a key, publishes, acknowledges or posts.
\<close>

definition lifecycle :: "event \<Rightarrow> bool" where
  "lifecycle e \<longleftrightarrow> (case e of
     Did f r \<Rightarrow> (case f of
         MongoConnect u \<Rightarrow> True | MongoDisconnect \<Rightarrow> True | RedisClose \<Rightarrow> True
       | AmqpDial u \<Rightarrow> True | AmqpOpenChannel \<Rightarrow> True | AmqpExchangeDeclare x y z \<Rightarrow> True
       | AmqpQueueDeclare x y z \<Rightarrow> True | AmqpQueueBind x y z \<Rightarrow> True | AmqpConsume q \<Rightarrow> True
       | AmqpCloseChannel \<Rightarrow> True | AmqpCloseConnection \<Rightarrow> True | SchedulerStop \<Rightarrow> True | _ \<Rightarrow> False)
   | _ \<Rightarrow> False)"

lemma lifecycle_not_delivering: "lifecycle e \<Longrightarrow> \<not> delivering e"
  by (auto simp: lifecycle_def delivering_defs split: event.splits eff.splits)

lemma emits_stopped: "emits p S \<Longrightarrow> stopped p h \<Longrightarrow> \<forall>e\<in>set h. S e"
  unfolding stopped_def emits_def by (metis replay_extends Un_iff set_append)

lemma emits_Close: "emits (rabbit_Close mq) lifecycle"
  by (auto simp: rabbit_Close_def lifecycle_def intro!: emits_calls)

lemma emits_setup: "emits setupQueues lifecycle"
  by (auto simp: setupQueues_def or_return_def lifecycle_def intro!: emits_calls split: option.splits)

lemma emits_connected:
  assumes "\<And>mq. emits (f mq) lifecycle"
  shows "emits (connected env f) lifecycle"
  unfolding connected_def mongodb_defs NewMessageQueue_def Let_def
  by (auto intro!: emits_bind emits_calls emits_setup emits_Close assms simp: lifecycle_def
      split: option.splits sum.splits)

lemma emits_mains:
  "emits (sender_main env) lifecycle" "emits (processor_main env) lifecycle"
  unfolding sender_main_def processor_main_def by (auto intro!: emits_connected simp: Let_def)

lemma emits_shutdowns:
  "emits (sender_shutdown mq) lifecycle"
  "emits (processor_shutdown (production n url timeout mq) mq' b) lifecycle"
  unfolding sender_shutdown_def mongodb_defs processor_shutdown_def Stop_def
  by (auto intro!: emits_bind emits_calls emits_Close simp: lifecycle_def rabbitMQ_def)

lemma emits_Consume: "emits (ConsumeMessages (rabbitMQ mq) q) lifecycle"
  by (auto simp: rabbitMQ_def rabbit_ConsumeMessages_def lifecycle_def intro!: emits_calls)

section \<open>The goroutines of a process\<close>

text \<open>The adapter that \<open>main\<close> makes, and the goroutines a process runs with it and its settings.\<close>

abbreviation connected_mq :: rabbitMQAdapter where
  "connected_mq \<equiv> \<lparr>has_conn = True, has_channel = True\<rparr>"

definition configured_url :: "environ \<Rightarrow> string" where
  "configured_url env = webhook_URL (cfg_Webhook (LoadConfig env))"

definition configured_timeout :: "environ \<Rightarrow> int" where
  "configured_timeout env = sint (webhook_Timeout (cfg_Webhook (LoadConfig env)))"

definition configured_retries :: "environ \<Rightarrow> int" where
  "configured_retries env = sint (cfg_MaxRetries (cfg_MessageProcessor (LoadConfig env)))"

lemmas configured_defs = configured_url_def configured_timeout_def configured_retries_def

primrec process_goroutines :: "process \<Rightarrow> goroutine list" where
  "process_goroutines (SenderProcess env runs reqs) =
     map (SchedulerRun connected_mq) runs @ map (SenderRequest connected_mq) reqs"
| "process_goroutines (ProcessorProcess env rs ts k) =
     Consumer (configured_url env) (configured_timeout env) connected_mq rs #
     Monitor (configured_url env) (configured_timeout env) connected_mq ts #
     replicate k (ProcessorRequest connected_mq)"

primrec retries_of :: "process \<Rightarrow> int \<Rightarrow> bool" where
  "retries_of (SenderProcess env runs reqs) n \<longleftrightarrow> True"
| "retries_of (ProcessorProcess env rs ts k) n \<longleftrightarrow> configured_retries env = n"

text \<open>What a goroutine of the process did is, but for opening and closing, what a goroutine of the system does.\<close>

definition stands_for :: "oid_codec \<Rightarrow> int \<Rightarrow> unit prog \<Rightarrow> goroutine \<Rightarrow> bool" where
  "stands_for L n p g \<longleftrightarrow>
     (\<forall>h. stopped p h \<longrightarrow> (\<exists>h'. stopped (goroutine_prog L n g) h' \<and> omits lifecycle h h'))"

lemma stands_for_same: "goroutine_prog L n g = p \<Longrightarrow> stands_for L n p g"
  unfolding stands_for_def by (auto intro: omits_refl)

lemma stands_forE:
  assumes "stands_for L n p g" and "stopped p h"
  obtains h' where "stopped (goroutine_prog L n g) h'" "omits lifecycle h h'"
  using assms unfolding stands_for_def by blast

lemma stopped_idle: "stopped p []"
  by (simp add: stopped_def)

lemma Start_stands_for:
  "stands_for L n (Start L (production n url timeout mq) rs) (Consumer url timeout mq rs)"
  unfolding stands_for_def
proof (intro allI impI)
  let ?s = "production n url timeout mq"
  fix h assume "stopped (Start L ?s rs) h"
  then obtain rest where "replay (Start L ?s rs) h = Some rest" unfolding stopped_def by blast
  moreover have "Start L ?s rs =
      Do (AmqpConsume MainQueueName) (\<lambda>r. case r of
          Some err \<Rightarrow> Halt (LogFatal (Errorf ''Failed to start consuming messages'' err))
        | None \<Rightarrow> consume L ?s rs)"
    by (simp add: Start_def rabbitMQ_def rabbit_ConsumeMessages_def)
  ultimately have "h = [] \<or> (\<exists>e x. h = e # x \<and> lifecycle e \<and> (x = [] \<or> stopped (consume L ?s rs) x))"
    by (cases h) (auto simp: stopped_def lifecycle_def split: event.splits if_splits option.splits)
  then obtain h' where "h' = [] \<or> stopped (consume L ?s rs) h'" "omits lifecycle h h'"
    using omits_refl omits_drop by metis
  then show "\<exists>h'. stopped (goroutine_prog L n (Consumer url timeout mq rs)) h' \<and> omits lifecycle h h'"
    using stopped_idle by auto
qed

lemma interleaved_stands_for:
  assumes "interleaved (q # ps) h" and "emits q lifecycle" and "list_all2 (stands_for L n) ps gs"
  shows "\<exists>h'. system_history L n gs h' \<and> omits lifecycle h h'"
proof -
  from assms(1) obtain x hs where x: "stopped q x" and hs: "list_all2 stopped ps hs" and h: "merges (x # hs) h"
    unfolding interleaved_def by (auto simp: list_all2_Cons1)
  from emits_stopped [OF assms(2) x] have "omits lifecycle x []" by (rule omits_all)
  have "\<exists>hs'. list_all2 (\<lambda>g x. stopped (goroutine_prog L n g) x) gs hs' \<and> list_all2 (omits lifecycle) hs hs'"
    using assms(3) hs
  proof (induction arbitrary: hs rule: list_all2_induct)
    case (Cons p ps g gs)
    from Cons(4) obtain y ys where "hs = y # ys" "stopped p y" "list_all2 stopped ps ys"
      by (auto simp: list_all2_Cons1)
    moreover from Cons(3) [OF this(3)] obtain ys' where
      "list_all2 (\<lambda>g x. stopped (goroutine_prog L n g) x) gs ys'" "list_all2 (omits lifecycle) ys ys'" by blast
    moreover from Cons(1) \<open>stopped p y\<close> obtain y' where
      "stopped (goroutine_prog L n g) y'" "omits lifecycle y y'" by (rule stands_forE)
    ultimately show ?case by (intro exI [of _ "y' # ys'"]) simp
  qed simp
  then obtain hs' where hs': "list_all2 (\<lambda>g x. stopped (goroutine_prog L n g) x) gs hs'"
    "list_all2 (omits lifecycle) hs hs'" by blast
  with \<open>omits lifecycle x []\<close> have "list_all2 (omits lifecycle) (x # hs) ([] # hs')" by simp
  from merges_omits [OF h this] obtain h' where "merges ([] # hs') h'" "omits lifecycle h h'" by blast
  with merges_idle hs'(1) show ?thesis unfolding system_history_def stopped_def by blast
qed

lemma system_idle: "system_history L n gs []"
  unfolding system_history_def
  by (intro exI [of _ "map (\<lambda>_. []) gs"]) (simp add: list_all2_conv_all_nth merges_Nil)

lemma serves_stands_for:
  assumes "serves main_part goroutines h" and "emits main_part lifecycle"
    and "\<And>h\<^sub>1 c. ends main_part h\<^sub>1 (Done c) \<Longrightarrow>
      \<exists>q ps. goroutines c = q # ps \<and> emits q lifecycle \<and> list_all2 (stands_for L n) ps gs"
  shows "\<exists>h'. system_history L n gs h' \<and> omits lifecycle h h'"
  using assms(1) unfolding serves_def
proof (elim disjE exE conjE)
  assume "stopped main_part h"
  from omits_all [OF emits_stopped [OF assms(2) this]] system_idle show ?thesis by blast
next
  fix h\<^sub>1 h\<^sub>2 c
  assume h: "h = h\<^sub>1 @ h\<^sub>2" "ends main_part h\<^sub>1 (Done c)" "interleaved (goroutines c) h\<^sub>2"
  from assms(3) [OF h(2)] obtain q ps where
    "goroutines c = q # ps" "emits q lifecycle" "list_all2 (stands_for L n) ps gs" by blast
  with interleaved_stands_for [OF _ this(2,3)] h(3)
  obtain h' where "system_history L n gs h'" "omits lifecycle h\<^sub>2 h'" by auto
  moreover have "\<forall>e\<in>set h\<^sub>1. lifecycle e" using h(2) assms(2) unfolding emits_def by blast
  ultimately show ?thesis using h(1) omits_append by blast
qed

lemma sender_main_Done:
  assumes "ends (sender_main env) h (Done c)"
  shows "h = connection_history env \<and> c = (sender_production connected_mq, sender_health connected_mq, connected_mq)"
  using assms unfolding sender_main_def Let_def connected_Done
  by (simp add: sender_production_def sender_health_def)

lemma processor_main_Done:
  assumes "ends (processor_main env) h (Done c)"
  shows "h = connection_history env \<and>
    c = (production (configured_retries env) (configured_url env) (configured_timeout env) connected_mq,
         processor_health connected_mq, connected_mq)"
  using assms unfolding processor_main_def Let_def connected_Done
  by (simp add: production_def processor_health_def configured_defs)

lemma serves_after_connecting:
  assumes "serves main_part goroutines h" and "emits main_part lifecycle"
    and "\<And>x c. ends main_part x (Done c) \<Longrightarrow> x = connection_history env"
  shows "(\<forall>e\<in>set h. lifecycle e) \<or> (\<exists>h'. h = connection_history env @ h')"
  using assms(1) emits_stopped [OF assms(2)] assms(3) unfolding serves_def by blast

lemma process_runs_goroutines:
  assumes "process_history L p h" and "retries_of p n"
  shows "\<exists>h'. system_history L n (process_goroutines p) h' \<and> omits lifecycle h h'"
proof (cases p)
  case (SenderProcess env runs reqs)
  show ?thesis unfolding SenderProcess
  proof (rule serves_stands_for [OF assms(1) [unfolded SenderProcess process_history.simps] emits_mains(1)])
    fix h\<^sub>1 c
    assume "ends (sender_main env) h\<^sub>1 (Done c)"
    from sender_main_Done [OF this]
    have c: "c = (sender_production connected_mq, sender_health connected_mq, connected_mq)" by simp
    have "list_all2 (stands_for L n)
        (map (scheduler_run L (sender_production connected_mq)) runs @
         map (\<lambda>req. discard (sender_api L connected_mq req)) reqs)
        (map (SchedulerRun connected_mq) runs @ map (SenderRequest connected_mq) reqs)"
      by (intro list_all2_appendI)
        (simp_all add: list.rel_map list_all2_same stands_for_same discard_def)
    then show "\<exists>q ps. sender_goroutines L runs reqs c = q # ps \<and> emits q lifecycle \<and>
        list_all2 (stands_for L n) ps (process_goroutines (SenderProcess env runs reqs))"
      unfolding c by (simp add: sender_goroutines_def sender_api_def emits_shutdowns)
  qed
next
  case (ProcessorProcess env rs ts k)
  with assms(2) have n: "configured_retries env = n" by simp
  show ?thesis unfolding ProcessorProcess
  proof (rule serves_stands_for [OF assms(1) [unfolded ProcessorProcess process_history.simps] emits_mains(2)])
    fix h\<^sub>1 c
    let ?s = "production n (configured_url env) (configured_timeout env) connected_mq"
    assume "ends (processor_main env) h\<^sub>1 (Done c)"
    from processor_main_Done [OF this] n
    have c: "c = (?s, processor_health connected_mq, connected_mq)" by simp
    have "stands_for L n (Start L ?s rs) (Consumer (configured_url env) (configured_timeout env) connected_mq rs)"
      by (rule Start_stands_for)
    moreover have "stands_for L n (monitorStaleMessages L ?s ts)
        (Monitor (configured_url env) (configured_timeout env) connected_mq ts)"
      by (rule stands_for_same) simp
    moreover have "list_all2 (stands_for L n)
        (replicate k (discard (ProcessorGetStatus (processor_health connected_mq))))
        (replicate k (ProcessorRequest connected_mq))"
      unfolding list_all2_conv_all_nth
      using stands_for_same [of L n "ProcessorRequest connected_mq"] by (simp add: discard_def)
    ultimately show "\<exists>q ps. processor_goroutines L rs ts k c = q # ps \<and> emits q lifecycle \<and>
        list_all2 (stands_for L n) ps (process_goroutines (ProcessorProcess env rs ts k))"
      unfolding c by (simp add: processor_goroutines_def emits_shutdowns)
  qed
qed

lemma list_all2_concat:
  "list_all2 (list_all2 R) xss yss \<Longrightarrow> list_all2 R (concat xss) (concat yss)"
  by (induction rule: list_all2_induct) (simp_all add: list_all2_appendI)

lemma systems_merged:
  assumes "list_all2 (\<lambda>gs h. system_history L n gs h) gss hs" and "merges hs h"
  shows "system_history L n (concat gss) h"
proof -
  have "\<exists>xss. list_all2 (\<lambda>gs xs. list_all2 (\<lambda>g x. \<exists>rest. replay (goroutine_prog L n g) x = Some rest) gs xs) gss xss \<and>
      list_all2 merges xss hs"
    using assms(1)
  proof (induction rule: list_all2_induct)
    case (Cons gs gss h hs)
    from Cons(1) obtain xs where
      "list_all2 (\<lambda>g x. \<exists>rest. replay (goroutine_prog L n g) x = Some rest) gs xs" "merges xs h"
      unfolding system_history_def by blast
    moreover from Cons(3) obtain xss where
      "list_all2 (\<lambda>gs xs. list_all2 (\<lambda>g x. \<exists>rest. replay (goroutine_prog L n g) x = Some rest) gs xs) gss xss"
      "list_all2 merges xss hs" by blast
    ultimately show ?case by (intro exI [of _ "xs # xss"]) simp
  qed simp
  then obtain xss where "list_all2 (list_all2 (\<lambda>g x. \<exists>rest. replay (goroutine_prog L n g) x = Some rest)) gss xss"
    and "list_all2 merges xss hs" by blast
  with merges_concat [OF assms(2)] show ?thesis
    unfolding system_history_def by (blast intro: list_all2_concat)
qed

lemma deployed_system:
  assumes "deployment_history L ps h" and "\<forall>p\<in>set ps. retries_of p n"
  shows "\<exists>h'. system_history L n (concat (map process_goroutines ps)) h' \<and> omits lifecycle h h'"
proof -
  from assms(1) obtain hs where hs: "list_all2 (process_history L) ps hs" and h: "merges hs h"
    unfolding deployment_history_def by blast
  have "\<exists>hs'. list_all2 (\<lambda>gs x. system_history L n gs x) (map process_goroutines ps) hs' \<and>
      list_all2 (omits lifecycle) hs hs'"
    using hs assms(2)
  proof (induction rule: list_all2_induct)
    case (Cons p ps x hs)
    then obtain x' hs' where "system_history L n (process_goroutines p) x'" "omits lifecycle x x'"
      "list_all2 (\<lambda>gs x. system_history L n gs x) (map process_goroutines ps) hs'"
      "list_all2 (omits lifecycle) hs hs'"
      using process_runs_goroutines by (metis list.set_intros)
    then show ?case by (intro exI [of _ "x' # hs'"]) simp
  qed simp
  then obtain hs' where "list_all2 (\<lambda>gs x. system_history L n gs x) (map process_goroutines ps) hs'"
    and "list_all2 (omits lifecycle) hs hs'" by blast
  moreover from merges_omits [OF h this(2)] obtain h' where "merges hs' h'" "omits lifecycle h h'" by blast
  ultimately show ?thesis using systems_merged by blast
qed

section \<open>A deployment in the in-memory environment\<close>

text \<open>The goroutines of a process run to their ends in turn, from the last to the rest of \<open>main\<close>.\<close>

primrec in_turn :: "'w env \<Rightarrow> unit prog list \<Rightarrow> 'w \<Rightarrow> history \<times> 'w" where
  "in_turn E [] w = ([], w)"
| "in_turn E (p # ps) w =
     (let others = in_turn E ps w; r = run E p (snd others)
      in (fst others @ fst (snd r), snd (snd r)))"

lemma in_turn_interleaved: "interleaved ps (fst (in_turn E ps w))"
proof (induction ps)
  case Nil
  then show ?case by (simp add: interleaved_def merges_Nil)
next
  case (Cons p ps)
  let ?r = "run E p (snd (in_turn E ps w))"
  from Cons.IH obtain hs where "list_all2 stopped ps hs" "merges hs (fst (in_turn E ps w))"
    unfolding interleaved_def by blast
  moreover have "stopped p (fst (snd ?r))"
    unfolding stopped_def by (rule exI) (rule run_parts(1) [unfolded ends_def])
  ultimately show ?case
    unfolding interleaved_def
    by (intro exI [of _ "fst (snd ?r) # hs"]) (simp add: Let_def merges_last)
qed

definition serve_in_turn :: "'w env \<Rightarrow> 'c prog \<Rightarrow> ('c \<Rightarrow> unit prog list) \<Rightarrow> 'w \<Rightarrow> history \<times> 'w" where
  "serve_in_turn E main_part goroutines w =
     (let r = run E main_part w in case fst r of
        Done c \<Rightarrow> (let s = in_turn E (goroutines c) (snd (snd r)) in (fst (snd r) @ fst s, snd s))
      | Stopped _ \<Rightarrow> snd r)"

lemma serve_in_turn_serves: "serves main_part goroutines (fst (serve_in_turn E main_part goroutines w))"
proof (cases "fst (run E main_part w)")
  case (Done c)
  let ?r = "run E main_part w"
  have "ends main_part (fst (snd ?r)) (Done c)" using run_parts(1) [of main_part E w] Done by simp
  moreover have "interleaved (goroutines c) (fst (in_turn E (goroutines c) (snd (snd ?r))))"
    by (rule in_turn_interleaved)
  moreover have "fst (serve_in_turn E main_part goroutines w) =
      fst (snd ?r) @ fst (in_turn E (goroutines c) (snd (snd ?r)))"
    by (simp add: serve_in_turn_def Let_def Done)
  ultimately show ?thesis unfolding serves_def by blast
next
  case (Stopped y)
  with run_parts(1) [of main_part E w] show ?thesis
    by (auto simp: serves_def serve_in_turn_def stopped_def ends_def)
qed

text \<open>
  A sender that gets one request and runs one batch, then a processor that gets the published
  message; both with the default settings but for the number of retries.
\<close>

definition sample_environ :: environ where
  "sample_environ = [''MAX_RETRIES'' \<mapsto> ''5'']"

definition sample_processes :: "process list" where
  "sample_processes =
     [SenderProcess sample_environ [[TickerTick]] [PostMessages (Inr sample_request)],
      ProcessorProcess sample_environ [Delivered created_delivery] [] 0]"

definition sender_run :: "history \<times> sim" where
  "sender_run = serve_in_turn sim_env (sender_main sample_environ)
     (sender_goroutines decimal_codec [[TickerTick]] [PostMessages (Inr sample_request)]) empty_world"

definition processor_run :: "history \<times> sim" where
  "processor_run = serve_in_turn sim_env (processor_main sample_environ)
     (processor_goroutines decimal_codec [Delivered created_delivery] [] 0) (snd sender_run)"

lemma sample_deployment: "deployment_history decimal_codec sample_processes (fst sender_run @ fst processor_run)"
  unfolding deployment_history_def sample_processes_def
proof (intro exI conjI)
  show "list_all2 (process_history decimal_codec)
      [SenderProcess sample_environ [[TickerTick]] [PostMessages (Inr sample_request)],
       ProcessorProcess sample_environ [Delivered created_delivery] [] 0]
      [fst sender_run, fst processor_run]"
    by (simp add: sender_run_def processor_run_def serve_in_turn_serves)
  show "merges [fst sender_run, fst processor_run] (fst sender_run @ fst processor_run)"
    by (rule merges_first) (rule merges_one)
qed

section \<open>Properties\<close>





text \<open>
  The order of the last steps of a delivery, for whole programs: however many processes of both
  services are deployed with the same number of retries, a document was set to sent only after a
  mark under its id, and an id marked only after its document was looked up and the webhook
  accepted its content and recipient.
\<close>

theorem deployment_sent_only_after_mark_and_webhook:
  assumes "deployment_history L ps h" and "\<forall>p\<in>set ps. retries_of p n"
    and "ObjectIDFromHex L k = Inr i"
  shows "sent_justified L i {} h \<and> mark_justified i k {} h"
proof -
  from deployed_system [OF assms(1,2)] obtain h' where
    system: "system_history L n (concat (map process_goroutines ps)) h'" and h: "omits lifecycle h h'" by blast
  have "sent_justified L i {} h'"
    using system_justified [OF system upward_ex(1)] goroutine_justified by blast
  moreover have "mark_justified i k {} h'"
    using system_justified [OF system upward_ex(2)] goroutine_justified assms(3) by blast
  moreover have "\<And>e. \<exists>r. wrote_status i StatusSent r e \<Longrightarrow> \<not> lifecycle e"
    "\<And>e. \<exists>r. marked k r e \<Longrightarrow> \<not> lifecycle e"
    using lifecycle_not_delivering not_delivering(2,3) by blast+
  ultimately show ?thesis
    by (intro conjI justified_omits [OF h upward_ex(1)] justified_omits [OF h upward_ex(2)])
qed

end
